(* ===== verification/Prelude.thy ===== *)
theory Prelude
  imports Main "HOL-Library.Word" "HOL-Library.Signed_Division"
begin

text \<open>
  Shared vocabulary of the development: the error values that stand for the exceptions of the
  C++ code, the result type and its sequencing operators, the ranges of the machine integers the
  chain stores, and the keyed tables that stand for the \<open>multi_index\<close> containers of the object
  database, with the lemmas on them that every component uses, and the contract of the loops that
  consume the due rows of such a table.
\<close>

named_theorems res_simps "when a sequenced computation succeeds"
named_theorems table_simps "effect of table operations on lookups and sums"
named_theorems ledger_simps "effect of the ledger operations on holdings and supplies"

section \<open>Exceptions and results\<close>

text \<open>
  The exceptions the modelled code throws.  \<open>Fc_assert\<close> carries the message of the failing
  \<^verbatim>\<open>FC_ASSERT\<close> (empty where the code gives none); the order exceptions are the ones
  \<^verbatim>\<open>freezone_ASSERT\<close> names; \<open>Unknown_key\<close> is what \<^verbatim>\<open>chainbase::database::get\<close> throws and
  \<open>Unique_violation\<close> what a \<^verbatim>\<open>multi_index\<close> insertion with a key in use causes.
\<close>

datatype chain_error =
    Fc_assert string
  | Overflow_exception
  | Underflow_exception
  | Divide_by_zero_exception
  | Domain_error
  | Out_of_range
  | Unknown_key
  | Unique_violation
  | Order_match_exception
  | Order_fill_exception

type_synonym 'a result = "chain_error + 'a"

definition rbind :: "'a result \<Rightarrow> ('a \<Rightarrow> 'b result) \<Rightarrow> 'b result" where
  "rbind r f = (case r of Inl e \<Rightarrow> Inl e | Inr x \<Rightarrow> f x)"

definition fc_assert :: "bool \<Rightarrow> string \<Rightarrow> 'a result \<Rightarrow> 'a result" where
  "fc_assert c m k = (if c then k else Inl (Fc_assert m))"

definition throw_unless :: "bool \<Rightarrow> chain_error \<Rightarrow> 'a result \<Rightarrow> 'a result" where
  "throw_unless c e k = (if c then k else Inl e)"

text \<open>A loop over a range whose body may throw.\<close>

fun rfold :: "('a \<Rightarrow> 's \<Rightarrow> 's result) \<Rightarrow> 'a list \<Rightarrow> 's \<Rightarrow> 's result" where
  "rfold f [] s = Inr s"
| "rfold f (x # xs) s = rbind (f x s) (rfold f xs)"

lemma rbind_Inl [simp]: "rbind (Inl e) f = Inl e"
  by (simp add: rbind_def)

lemma rbind_Inr [simp]: "rbind (Inr x) f = f x"
  by (simp add: rbind_def)

lemma fc_assert_True [simp]: "fc_assert True m k = k"
  by (simp add: fc_assert_def)

lemma fc_assert_False [simp]: "fc_assert False m k = Inl (Fc_assert m)"
  by (simp add: fc_assert_def)

lemma throw_unless_True [simp]: "throw_unless True e k = k"
  by (simp add: throw_unless_def)

lemma throw_unless_False [simp]: "throw_unless False e k = Inl e"
  by (simp add: throw_unless_def)

lemma rbind_eq_Inr [res_simps]: "rbind r f = Inr y \<longleftrightarrow> (\<exists>x. r = Inr x \<and> f x = Inr y)"
  by (cases r) auto

lemma fc_assert_eq_Inr [res_simps]: "fc_assert c m k = Inr y \<longleftrightarrow> c \<and> k = Inr y"
  by (cases c) auto

lemma throw_unless_eq_Inr [res_simps]: "throw_unless c e k = Inr y \<longleftrightarrow> c \<and> k = Inr y"
  by (cases c) auto

lemma rbind_assoc: "rbind (rbind r f) g = rbind r (\<lambda>x. rbind (f x) g)"
  by (cases r) auto

lemma rbind_Inr_right [simp]: "rbind r Inr = r"
  by (cases r) auto

lemma rbind_cong [fundef_cong]:
  "r = r' \<Longrightarrow> (\<And>x. r' = Inr x \<Longrightarrow> f x = g x) \<Longrightarrow> rbind r f = rbind r' g"
  by (cases r') auto

text \<open>An invariant of the loop state holds at the end of a loop that does not throw.\<close>

lemma rfold_invariant:
  assumes "rfold f xs s = Inr s'" and "I s"
    and "\<And>x s s'. x \<in> set xs \<Longrightarrow> f x s = Inr s' \<Longrightarrow> I s \<Longrightarrow> I s'"
  shows "I s'"
  using assms
proof (induction xs arbitrary: s)
  case Nil
  then show ?case by simp
next
  case (Cons x xs)
  from Cons.prems(1) obtain t where t: "f x s = Inr t" "rfold f xs t = Inr s'"
    by (auto simp: res_simps)
  have "I t" using Cons.prems(3)[OF _ t(1)] Cons.prems(2) by simp
  from Cons.IH[OF t(2) this] Cons.prems(3) show ?case by (meson list.set_intros(2))
qed

lemma rfold_append: "rfold f (xs @ ys) s = rbind (rfold f xs s) (rfold f ys)"
  by (induction xs arbitrary: s) (auto simp: rbind_assoc intro!: rbind_cong)

section \<open>Machine integers\<close>

text \<open>
  \<^verbatim>\<open>int64_t\<close> values are HOL integers; \<open>in_i64\<close> is the range of the type.  \<open>i64_of_u64\<close> is the
  conversion of a \<^verbatim>\<open>uint64_t\<close> to \<^verbatim>\<open>int64_t\<close>, which wraps.
\<close>

abbreviation i64_max :: int where "i64_max \<equiv> 9223372036854775807"
abbreviation i64_min :: int where "i64_min \<equiv> - 9223372036854775808"

definition in_i64 :: "int \<Rightarrow> bool" where
  "in_i64 x \<longleftrightarrow> i64_min \<le> x \<and> x \<le> i64_max"

definition i64_of_u64 :: "64 word \<Rightarrow> int" where
  "i64_of_u64 w = sint w"

text \<open>Plain \<^verbatim>\<open>int64_t\<close> arithmetic, with the wrap-around of the machine.\<close>

definition i64_wrap :: "int \<Rightarrow> int" where "i64_wrap x = sint (word_of_int x :: 64 word)"

lemma in_i64_sint [simp]: "in_i64 (i64_of_u64 w)"
  using sint_ge [of w] sint_lt [of w] by (simp add: in_i64_def i64_of_u64_def)

lemma in_i64_0 [simp]: "in_i64 0"
  by (simp add: in_i64_def)

lemma sint_of_int_i64: "in_i64 x \<Longrightarrow> sint (word_of_int x :: 64 word) = x"
  by (subst sint_sbintrunc') (auto simp: in_i64_def signed_take_bit_int_eq_self_iff)

lemma i64_wrap_in [simp]: "in_i64 (i64_wrap x)"
  using sint_ge [of "word_of_int x :: 64 word"] sint_lt [of "word_of_int x :: 64 word"] by (simp add: in_i64_def i64_wrap_def)

lemma i64_wrap_id: "in_i64 x \<Longrightarrow> i64_wrap x = x"
  by (simp add: i64_wrap_def sint_of_int_i64)

lemma i64_of_u64_small: "uint w \<le> i64_max \<Longrightarrow> i64_of_u64 w = uint w"
  using sint_of_int_i64 [of "uint w"] uint_ge_0 [of w]
  by (simp add: in_i64_def i64_of_u64_def order_trans [OF _ uint_ge_0])

section \<open>Keyed tables\<close>

text \<open>
  A \<^verbatim>\<open>multi_index\<close> container with a unique key is a list of its objects in the order of their
  ids.  \<open>find_row\<close> is \<^verbatim>\<open>find\<close> by that key; \<open>update_row\<close> is \<^verbatim>\<open>modify\<close> on the object with the key;
  \<open>remove_row\<close> is \<^verbatim>\<open>remove\<close>; \<open>insert_row\<close> is \<^verbatim>\<open>create\<close>, which throws when the key is in use.
\<close>

definition find_row :: "('v \<Rightarrow> 'k) \<Rightarrow> 'k \<Rightarrow> 'v list \<Rightarrow> 'v option" where
  "find_row key k vs = List.find (\<lambda>v. key v = k) vs"

definition get_row :: "('v \<Rightarrow> 'k) \<Rightarrow> 'k \<Rightarrow> 'v list \<Rightarrow> 'v result" where
  "get_row key k vs = (case find_row key k vs of None \<Rightarrow> Inl Unknown_key | Some v \<Rightarrow> Inr v)"

fun update_row :: "('v \<Rightarrow> 'k) \<Rightarrow> 'k \<Rightarrow> 'v \<Rightarrow> 'v list \<Rightarrow> 'v list" where
  "update_row key k v' [] = []"
| "update_row key k v' (v # vs) = (if key v = k then v' # vs else v # update_row key k v' vs)"

fun remove_row :: "('v \<Rightarrow> 'k) \<Rightarrow> 'k \<Rightarrow> 'v list \<Rightarrow> 'v list" where
  "remove_row key k [] = []"
| "remove_row key k (v # vs) = (if key v = k then vs else v # remove_row key k vs)"

definition insert_row :: "('v \<Rightarrow> 'k) \<Rightarrow> 'v \<Rightarrow> 'v list \<Rightarrow> 'v list result" where
  "insert_row key v vs =
     (if find_row key (key v) vs = None then Inr (vs @ [v]) else Inl Unique_violation)"

text \<open>The sum of a quantity over the objects of a table.\<close>

definition sum_rows :: "('v \<Rightarrow> int) \<Rightarrow> 'v list \<Rightarrow> int" where
  "sum_rows f vs = sum_list (map f vs)"

lemma find_row_Nil [simp]: "find_row key k [] = None"
  by (simp add: find_row_def)

lemma find_row_Cons [simp]:
  "find_row key k (v # vs) = (if key v = k then Some v else find_row key k vs)"
  by (simp add: find_row_def)

lemma find_row_key: "find_row key k vs = Some v \<Longrightarrow> key v = k"
  by (induction vs) (auto split: if_splits)

lemma find_row_in_set: "find_row key k vs = Some v \<Longrightarrow> v \<in> set vs"
  by (induction vs) (auto split: if_splits)

lemma find_row_None_iff: "find_row key k vs = None \<longleftrightarrow> k \<notin> key ` set vs"
  by (induction vs) auto

lemma find_row_append:
  "find_row key k (vs @ ws) =
     (case find_row key k vs of None \<Rightarrow> find_row key k ws | Some v \<Rightarrow> Some v)"
  by (induction vs) auto

lemma get_row_eq_Inr [res_simps]: "get_row key k vs = Inr v \<longleftrightarrow> find_row key k vs = Some v"
  by (auto simp: get_row_def split: option.splits)

lemma find_row_update_row [table_simps]:
  "find_row key k vs = Some v \<Longrightarrow> key v' = k \<Longrightarrow>
   find_row key k' (update_row key k v' vs) = (if k' = k then Some v' else find_row key k' vs)"
  by (induction vs) (auto split: if_splits)

lemma keys_update_row [table_simps]:
  "key v' = k \<Longrightarrow> map key (update_row key k v' vs) = map key vs"
  by (induction vs) auto

lemma set_update_row: "set (update_row key k v' vs) \<subseteq> insert v' (set vs)"
  by (induction vs) auto

lemma set_remove_row: "set (remove_row key k vs) \<subseteq> set vs"
  by (induction vs) auto

lemma find_row_remove_row [table_simps]:
  "distinct (map key vs) \<Longrightarrow>
   find_row key k' (remove_row key k vs) = (if k' = k then None else find_row key k' vs)"
  by (induction vs) (auto simp: find_row_None_iff)

lemma find_row_remove_other: "k' \<noteq> k \<Longrightarrow> find_row key k' (remove_row key k vs) = find_row key k' vs"
  by (induction vs) auto

lemma distinct_remove_row [table_simps]:
  "distinct (map key vs) \<Longrightarrow> distinct (map key (remove_row key k vs))"
  using set_remove_row [of key k] by (induction vs) (auto dest!: subsetD [OF set_remove_row])

lemma insert_row_eq_Inr [res_simps]:
  "insert_row key v vs = Inr vs' \<longleftrightarrow> find_row key (key v) vs = None \<and> vs' = vs @ [v]"
  by (auto simp: insert_row_def)

lemma sum_rows_Nil [simp]: "sum_rows f [] = 0"
  by (simp add: sum_rows_def)

lemma sum_rows_Cons [simp]: "sum_rows f (v # vs) = f v + sum_rows f vs"
  by (simp add: sum_rows_def)

lemma sum_rows_append [table_simps]: "sum_rows f (vs @ ws) = sum_rows f vs + sum_rows f ws"
  by (simp add: sum_rows_def)

lemma sum_rows_update_row [table_simps]:
  "find_row key k vs = Some v \<Longrightarrow>
   sum_rows f (update_row key k v' vs) = sum_rows f vs + f v' - f v"
  by (induction vs) (auto split: if_splits)

lemma sum_rows_remove_row [table_simps]:
  "find_row key k vs = Some v \<Longrightarrow> sum_rows f (remove_row key k vs) = sum_rows f vs - f v"
  by (induction vs) (auto split: if_splits)

lemma sum_rows_cong: "(\<And>v. v \<in> set vs \<Longrightarrow> f v = g v) \<Longrightarrow> sum_rows f vs = sum_rows g vs"
  by (induction vs) auto

lemma length_remove_row: "find_row key k vs = Some v \<Longrightarrow> length (remove_row key k vs) < length vs"
  by (induction vs) (auto split: if_splits)

section \<open>Loops that consume the rows of a table\<close>

lemma find_row_distinct: "distinct (map key vs) \<Longrightarrow> v \<in> set vs \<Longrightarrow> find_row key (key v) vs = Some v"
  by (induction vs) (auto simp: rev_image_eqI)

lemma remove_row_filter: "distinct (map key vs) \<Longrightarrow> remove_row key k vs = filter (\<lambda>v. key v \<noteq> k) vs"
proof (induction vs)
  case (Cons v vs)
  then show ?case by (auto simp: image_iff intro!: filter_True [symmetric])
qed simp

text \<open>
  The per-block functions of the chain run over the due objects of an index, act on each and
  remove it.  The contract of such a body: it removes its own row and no other, and keeps a
  quantity when its row is in the table.
\<close>

locale consuming_loop =
  fixes rows :: "'st \<Rightarrow> 'r list" and key :: "'r \<Rightarrow> 'k" and body :: "'r \<Rightarrow> 'st \<Rightarrow> 'st result"
    and quantity :: "'st \<Rightarrow> int"
  assumes body_rows: "body r st = Inr st' \<Longrightarrow> rows st' = remove_row key (key r) (rows st)"
    and body_quantity: "body r st = Inr st' \<Longrightarrow> find_row key (key r) (rows st) = Some r \<Longrightarrow> quantity st' = quantity st"
begin

lemma loop_quantity:
  assumes "rfold body rs st = Inr st'" "distinct (map key rs)" "\<forall>r \<in> set rs. find_row key (key r) (rows st) = Some r"
  shows "quantity st' = quantity st"
  using assms
proof (induction rs arbitrary: st)
  case (Cons r rs)
  then obtain st1 where 1: "body r st = Inr st1" "rfold body rs st1 = Inr st'"
    by (auto simp: res_simps)
  have "find_row key (key q) (rows st1) = Some q" if "q \<in> set rs" for q
  proof -
    have "key q \<noteq> key r" using Cons.prems(2) that by (auto simp: rev_image_eqI)
    then show ?thesis using Cons.prems(3) that by (simp add: body_rows [OF 1(1)] find_row_remove_other)
  qed
  then show ?case
    using Cons.IH [OF 1(2)] Cons.prems body_quantity [OF 1(1)] by simp
qed simp

lemma loop_rows:
  assumes "rfold body rs st = Inr st'" "distinct (map key (rows st))"
  shows "rows st' = filter (\<lambda>r. key r \<notin> key ` set rs) (rows st)"
  using assms
proof (induction rs arbitrary: st)
  case (Cons r rs)
  then obtain st1 where 1: "body r st = Inr st1" "rfold body rs st1 = Inr st'"
    by (auto simp: res_simps)
  have r1: "rows st1 = filter (\<lambda>q. key q \<noteq> key r) (rows st)"
    using Cons.prems(2) by (simp add: body_rows [OF 1(1)] remove_row_filter)
  then have "distinct (map key (rows st1))" using Cons.prems(2) by (simp add: distinct_map_filter)
  then show ?case
    using Cons.IH [OF 1(2)] by (simp add: r1 conj_commute)
qed simp

text \<open>Consuming exactly the rows that satisfy a test, in any order.\<close>

lemma loop_due:
  assumes "rfold body rs st = Inr st'" "distinct (map key (rows st))" "set rs = {r \<in> set (rows st). due r}" "distinct rs"
  shows "quantity st' = quantity st" and "rows st' = filter (\<lambda>r. \<not> due r) (rows st)"
proof -
  have sub: "set rs \<subseteq> set (rows st)" using assms(3) by auto
  then have inj: "inj_on key (set rs)" using assms(2) by (auto simp: distinct_map intro: inj_on_subset)
  then have "distinct (map key rs)" using assms(4) by (simp add: distinct_map)
  then show "quantity st' = quantity st"
    using assms(1,2) sub by (intro loop_quantity) (auto intro: find_row_distinct)
  have "key r \<in> key ` set rs \<longleftrightarrow> r \<in> set rs" if "r \<in> set (rows st)" for r
    using assms(2) sub that by (auto simp: distinct_map inj_on_def)
  then show "rows st' = filter (\<lambda>r. \<not> due r) (rows st)"
    using loop_rows [OF assms(1,2)] assms(3) by (auto intro!: filter_cong)
qed

end

end
