(* ===== verification/Safe_Int.thy ===== *)
theory Safe_Int
  imports Prelude
begin

unbundle bit_operations_syntax

text \<open>
  The checked and the saturating 64-bit arithmetic of \<^verbatim>\<open>fc\<close>: \<^verbatim>\<open>fc::safe<int64_t>\<close>
  (\<^verbatim>\<open>libraries/fc/include/fc/safe.hpp\<close>), the type \<^verbatim>\<open>share_type\<close> of every amount of the chain, and
  \<^verbatim>\<open>signed_sat_add\<close> / \<^verbatim>\<open>signed_sat_sub\<close> (\<^verbatim>\<open>libraries/fc/include/fc/saturation.hpp\<close>), which the
  mana bars use.  Every operation is proved exact: the checked ones return the mathematical result
  or throw precisely when it is not representable, the saturating ones clamp it.
\<close>

section \<open>fc::safe\<close>

type_synonym share_type = int

definition safe_add :: "share_type \<Rightarrow> share_type \<Rightarrow> share_type result" where
  "safe_add a b =
     (if b > 0 \<and> a > i64_max - b then Inl Overflow_exception
      else if b < 0 \<and> a < i64_min - b then Inl Underflow_exception
      else Inr (a + b))"

definition safe_sub :: "share_type \<Rightarrow> share_type \<Rightarrow> share_type result" where
  "safe_sub a b =
     (if b > 0 \<and> a < i64_min + b then Inl Underflow_exception
      else if b < 0 \<and> a > i64_max + b then Inl Overflow_exception
      else Inr (a - b))"

definition safe_mul :: "share_type \<Rightarrow> share_type \<Rightarrow> share_type result" where
  "safe_mul a b =
     (if a > 0 then
        (if b > 0 then (if a > i64_max sdiv b then Inl Overflow_exception else Inr (a * b))
         else (if b < i64_min sdiv a then Inl Underflow_exception else Inr (a * b)))
      else
        (if b > 0 then (if a < i64_min sdiv b then Inl Underflow_exception else Inr (a * b))
         else (if a \<noteq> 0 \<and> b < i64_max sdiv a then Inl Overflow_exception else Inr (a * b))))"

definition safe_div :: "share_type \<Rightarrow> share_type \<Rightarrow> share_type result" where
  "safe_div a b =
     (if b = 0 then Inl Divide_by_zero_exception
      else if a = i64_min \<and> b = -1 then Inl Overflow_exception
      else Inr (a sdiv b))"

definition safe_mod :: "share_type \<Rightarrow> share_type \<Rightarrow> share_type result" where
  "safe_mod a b =
     (if b = 0 then Inl Divide_by_zero_exception
      else if a = i64_min \<and> b = -1 then Inl Overflow_exception
      else Inr (a smod b))"

definition safe_neg :: "share_type \<Rightarrow> share_type result" where
  "safe_neg a = (if a = i64_min then Inl Overflow_exception else Inr (- a))"

definition safe_inc :: "share_type \<Rightarrow> share_type result" where
  "safe_inc a = safe_add a 1"

definition safe_dec :: "share_type \<Rightarrow> share_type result" where
  "safe_dec a = safe_sub a 1"

lemma safe_add_eq_Inr:
  "in_i64 a \<Longrightarrow> in_i64 b \<Longrightarrow> safe_add a b = Inr c \<longleftrightarrow> c = a + b \<and> in_i64 c"
  by (auto simp: safe_add_def in_i64_def)

lemma safe_sub_eq_Inr:
  "in_i64 a \<Longrightarrow> in_i64 b \<Longrightarrow> safe_sub a b = Inr c \<longleftrightarrow> c = a - b \<and> in_i64 c"
  by (auto simp: safe_sub_def in_i64_def)

lemma safe_neg_eq_Inr:
  "in_i64 a \<Longrightarrow> safe_neg a = Inr c \<longleftrightarrow> c = - a \<and> in_i64 c"
  by (auto simp: safe_neg_def in_i64_def)

lemmas safe_eq_Inr = safe_add_eq_Inr safe_sub_eq_Inr safe_neg_eq_Inr

text \<open>Whatever the operands, a result that is returned is the mathematical one.\<close>

lemma safe_add_value: "safe_add a b = Inr c \<Longrightarrow> c = a + b"
  by (auto simp: safe_add_def split: if_splits)

lemma safe_sub_value: "safe_sub a b = Inr c \<Longrightarrow> c = a - b"
  by (auto simp: safe_sub_def split: if_splits)

lemma safe_neg_value: "safe_neg a = Inr c \<Longrightarrow> c = - a"
  by (auto simp: safe_neg_def split: if_splits)

lemma safe_mul_value: "safe_mul a b = Inr c \<Longrightarrow> c = a * b"
  by (auto simp: safe_mul_def split: if_splits)

lemmas safe_values = safe_add_value safe_sub_value safe_neg_value safe_mul_value

text \<open>The overflow tests of multiplication, on each sign pattern.\<close>

lemma sdiv_pos: "0 \<le> (a::int) \<Longrightarrow> 0 < b \<Longrightarrow> a sdiv b = a div b"
  by (simp add: signed_divide_int_def sgn_if)

lemma sdiv_neg_pos: "(a::int) < 0 \<Longrightarrow> 0 < b \<Longrightarrow> a sdiv b = - ((- a) div b)"
  by (simp add: signed_divide_int_def sgn_if)

lemma sdiv_pos_neg: "0 < (a::int) \<Longrightarrow> b < 0 \<Longrightarrow> a sdiv b = - (a div (- b))"
  by (simp add: signed_divide_int_def sgn_if)

lemma sdiv_zero [simp]: "0 sdiv (b::int) = 0"
  by (simp add: signed_divide_int_def)

lemma le_div_iff: "0 < (b::int) \<Longrightarrow> a \<le> m div b \<longleftrightarrow> a * b \<le> m"
proof
  assume b: "0 < b" and "a \<le> m div b"
  then have "a * b \<le> m div b * b" by (simp add: mult_right_mono)
  also have "\<dots> \<le> m" using b by (simp add: minus_mod_eq_div_mult [symmetric])
  finally show "a * b \<le> m" .
next
  assume b: "0 < b" and "a * b \<le> m"
  then show "a \<le> m div b" using zdiv_mono1 [of "a * b" m b] by simp
qed

lemma safe_mul_exact:
  assumes "in_i64 a" and "in_i64 b"
  shows "safe_mul a b = Inr c \<longleftrightarrow> c = a * b \<and> in_i64 (a * b)"
proof -
  consider "0 < a" "0 < b" | "0 < a" "b \<le> 0" | "a \<le> 0" "0 < b" | "a = 0" "b \<le> 0"
    | "a < 0" "b \<le> 0" by linarith
  then show ?thesis
  proof cases
    case 1
    then have "i64_min \<le> a * b" using mult_pos_pos [OF 1] by linarith
    moreover have "a \<le> i64_max sdiv b \<longleftrightarrow> a * b \<le> i64_max"
      using 1 le_div_iff [of b a i64_max] by (simp add: sdiv_pos)
    ultimately show ?thesis using 1 by (auto simp: safe_mul_def in_i64_def not_less)
  next
    case 2
    then have "a * b \<le> 0" by (simp add: mult_nonneg_nonpos)
    moreover have "i64_min sdiv a \<le> b \<longleftrightarrow> i64_min \<le> a * b"
      using 2 le_div_iff [of a "- b" "- i64_min"] by (simp add: sdiv_pos algebra_simps minus_le_iff)
    ultimately show ?thesis using 2 by (auto simp: safe_mul_def in_i64_def not_less)
  next
    case 3
    then have "a * b \<le> 0" by (simp add: mult_nonpos_nonneg)
    moreover have "i64_min sdiv b \<le> a \<longleftrightarrow> i64_min \<le> a * b"
      using 3 le_div_iff [of b "- a" "- i64_min"] by (simp add: sdiv_pos algebra_simps minus_le_iff)
    ultimately show ?thesis using 3 by (auto simp: safe_mul_def in_i64_def not_less)
  next
    case 4
    then show ?thesis by (auto simp: safe_mul_def)
  next
    case 5
    then have "0 \<le> a * b" by (simp add: mult_nonpos_nonpos)
    moreover have "i64_max sdiv a \<le> b \<longleftrightarrow> a * b \<le> i64_max"
      using 5 le_div_iff [of "- a" "- b" i64_max] by (simp add: sdiv_pos_neg algebra_simps minus_le_iff)
    ultimately show ?thesis using 5 by (auto simp: safe_mul_def in_i64_def not_less)
  qed
qed

lemma in_i64_sdiv:
  assumes "in_i64 a" and "b \<noteq> 0" and "\<not> (a = i64_min \<and> b = -1)"
  shows "in_i64 (a sdiv b)"
proof (cases "b = -1")
  case True
  then show ?thesis using assms by (auto simp: signed_divide_int_def in_i64_def sgn_if)
next
  case False
  have half: "\<bar>a\<bar> div \<bar>b\<bar> \<le> i64_max" if "\<bar>b\<bar> \<noteq> 1"
  proof -
    have "\<bar>a\<bar> div \<bar>b\<bar> \<le> \<bar>a\<bar> div 2"
      using that assms(2) by (intro zdiv_mono2) auto
    also have "\<dots> \<le> i64_max" using assms(1) by (auto simp: in_i64_def)
    finally show ?thesis .
  qed
  have nn: "0 \<le> \<bar>a\<bar> div \<bar>b\<bar>" by (simp add: pos_imp_zdiv_nonneg_iff assms(2))
  show ?thesis
  proof (cases "b = 1")
    case True
    then show ?thesis using assms(1) by (auto simp: signed_divide_int_def sgn_if)
  next
    case b: False
    have "\<bar>a sdiv b\<bar> \<le> i64_max"
      using half nn b False by (auto simp: signed_divide_int_def abs_mult sgn_if)
    then show ?thesis by (auto simp: in_i64_def)
  qed
qed

text \<open>
  C1: on operands of the type, every checked operation of \<^verbatim>\<open>fc::safe<int64_t>\<close> returns the
  mathematical result exactly when that result is an \<^verbatim>\<open>int64_t\<close> (quotients round towards zero), and
  throws otherwise; division throws on a zero divisor only besides.
\<close>

theorem safe_arithmetic_exact:
  assumes "in_i64 a" and "in_i64 b"
  shows "(safe_add a b = Inr c \<longleftrightarrow> c = a + b \<and> in_i64 (a + b)) \<and>
         (safe_sub a b = Inr c \<longleftrightarrow> c = a - b \<and> in_i64 (a - b)) \<and>
         (safe_mul a b = Inr c \<longleftrightarrow> c = a * b \<and> in_i64 (a * b)) \<and>
         (safe_div a b = Inr c \<longleftrightarrow> b \<noteq> 0 \<and> c = a sdiv b \<and> in_i64 (a sdiv b)) \<and>
         (safe_neg a = Inr c \<longleftrightarrow> c = - a \<and> in_i64 (- a))"
proof (intro conjI)
  show "safe_add a b = Inr c \<longleftrightarrow> c = a + b \<and> in_i64 (a + b)"
    using assms by (auto simp: safe_eq_Inr)
  show "safe_sub a b = Inr c \<longleftrightarrow> c = a - b \<and> in_i64 (a - b)"
    using assms by (auto simp: safe_eq_Inr)
  show "safe_mul a b = Inr c \<longleftrightarrow> c = a * b \<and> in_i64 (a * b)"
    using assms by (rule safe_mul_exact)
  have "\<not> in_i64 (i64_min sdiv (-1))" by (simp add: signed_divide_int_def in_i64_def)
  then show "safe_div a b = Inr c \<longleftrightarrow> b \<noteq> 0 \<and> c = a sdiv b \<and> in_i64 (a sdiv b)"
    using in_i64_sdiv [OF assms(1)] by (auto simp: safe_div_def)
  show "safe_neg a = Inr c \<longleftrightarrow> c = - a \<and> in_i64 (- a)"
    using assms by (auto simp: safe_eq_Inr)
qed

theorem safe_arithmetic_exact_witness:
  "in_i64 i64_max \<and> in_i64 2 \<and> safe_add i64_max 2 \<noteq> Inr (i64_max + 2) \<and>
   safe_mul i64_max 2 \<noteq> Inr (i64_max * 2) \<and> safe_sub i64_max 2 = Inr (i64_max - 2)"
proof -
  have h: "in_i64 i64_max" "in_i64 2" by (simp_all add: in_i64_def)
  show ?thesis
    using h safe_arithmetic_exact [OF h, of "i64_max + 2"]
      safe_arithmetic_exact [OF h, of "i64_max * 2"] safe_arithmetic_exact [OF h, of "i64_max - 2"]
    by (simp add: in_i64_def)
qed

section \<open>Saturating addition and subtraction\<close>

definition signed_sat_add :: "int \<Rightarrow> int \<Rightarrow> int" where
  "signed_sat_add x y =
     (let ux = word_of_int x :: 64 word; uy = word_of_int y; res = ux + uy;
          sat = (if x \<ge> 0 then word_of_int i64_max else word_of_int i64_min) :: 64 word
      in sint (if sint (NOT (ux XOR uy) AND (ux XOR res)) < 0 then sat else res))"

definition signed_sat_sub :: "int \<Rightarrow> int \<Rightarrow> int" where
  "signed_sat_sub x y =
     (let ux = word_of_int x :: 64 word; uy = word_of_int y; res = ux - uy;
          sat = (if x \<ge> 0 then word_of_int i64_max else word_of_int i64_min) :: 64 word
      in sint (if sint ((ux XOR uy) AND (ux XOR res)) < 0 then sat else res))"

definition saturate :: "int \<Rightarrow> int" where
  "saturate x = max i64_min (min i64_max x)"

lemma sint_neg_iff_bit: "sint (w :: 64 word) < 0 \<longleftrightarrow> bit w 63"
  using bit_last_iff [of w] by simp

lemma bit_of_i64: "in_i64 x \<Longrightarrow> bit (word_of_int x :: 64 word) 63 \<longleftrightarrow> x < 0"
  by (simp add: sint_neg_iff_bit [symmetric] sint_of_int_i64)

lemma wrap_64:
  assumes "- (2 ^ 64) \<le> z" and "z < 2 ^ 64"
  shows "sint (word_of_int z :: 64 word) =
     (if z > i64_max then z - 2 ^ 64 else if z < i64_min then z + 2 ^ 64 else z)"
proof -
  have eq: "sint (word_of_int z :: 64 word) = (z + 2 ^ 63) mod 2 ^ 64 - 2 ^ 63"
    by (simp add: sint_sbintrunc' signed_take_bit_eq_take_bit_shift take_bit_eq_mod)
  consider "z > i64_max" | "z < i64_min" | "i64_min \<le> z" "z \<le> i64_max" by linarith
  then show ?thesis
  proof cases
    case 1
    have "(z + 2 ^ 63) mod 2 ^ 64 = (z + 2 ^ 63 - 2 ^ 64) mod 2 ^ 64"
      by (simp only: minus_mod_self2)
    also have "\<dots> = z + 2 ^ 63 - 2 ^ 64" using 1 assms by (intro mod_pos_pos_trivial) simp_all
    finally show ?thesis using 1 unfolding eq by simp
  next
    case 2
    have "(z + 2 ^ 63) mod 2 ^ 64 = (z + 2 ^ 63 + 2 ^ 64) mod 2 ^ 64"
      by (simp only: mod_add_self2)
    also have "\<dots> = z + 2 ^ 63 + 2 ^ 64" using 2 assms by (intro mod_pos_pos_trivial) simp_all
    finally show ?thesis using 2 unfolding eq by simp
  next
    case 3
    then have "(z + 2 ^ 63) mod 2 ^ 64 = z + 2 ^ 63" by (intro mod_pos_pos_trivial) simp_all
    then show ?thesis using 3 unfolding eq by simp
  qed
qed

lemma sat_tests:
  assumes "in_i64 x" and "in_i64 y"
  defines "ux \<equiv> word_of_int x :: 64 word" and "uy \<equiv> word_of_int y :: 64 word"
  shows "sint (NOT (ux XOR uy) AND (ux XOR r)) < 0 \<longleftrightarrow> (x < 0) = (y < 0) \<and> (x < 0) \<noteq> (sint r < 0)"
    and "sint ((ux XOR uy) AND (ux XOR r)) < 0 \<longleftrightarrow> (x < 0) \<noteq> (y < 0) \<and> (x < 0) \<noteq> (sint r < 0)"
  using bit_of_i64 [OF assms(1)] bit_of_i64 [OF assms(2)]
  unfolding sint_neg_iff_bit ux_def uy_def by (auto simp: bit_simps)

lemma sint_i64_limits [simp]:
  "sint (word_of_int i64_max :: 64 word) = i64_max" "sint (word_of_int i64_min :: 64 word) = i64_min"
  using sint_of_int_i64 [of i64_max] sint_of_int_i64 [of i64_min] by (simp_all add: in_i64_def)

lemma signed_sat_value:
  assumes "in_i64 x" and "in_i64 y"
  shows "signed_sat_add x y = saturate (x + y)" "signed_sat_sub x y = saturate (x - y)"
proof -
  have b: "- (2 ^ 64) \<le> x + y" "x + y < 2 ^ 64" "- (2 ^ 64) \<le> x - y" "x - y < 2 ^ 64"
    using assms by (auto simp: in_i64_def)
  have "signed_sat_add x y = (if (x < 0) = (y < 0) \<and> (x < 0) \<noteq> (sint (word_of_int (x + y) :: 64 word) < 0)
     then (if x \<ge> 0 then i64_max else i64_min) else sint (word_of_int (x + y) :: 64 word))"
    unfolding signed_sat_add_def Let_def sat_tests(1) [OF assms] wi_hom_add by (simp split: if_splits)
  then show "signed_sat_add x y = saturate (x + y)"
    using assms unfolding wrap_64 [OF b(1,2)] by (simp add: saturate_def in_i64_def split: if_splits)
  have "signed_sat_sub x y = (if (x < 0) \<noteq> (y < 0) \<and> (x < 0) \<noteq> (sint (word_of_int (x - y) :: 64 word) < 0)
     then (if x \<ge> 0 then i64_max else i64_min) else sint (word_of_int (x - y) :: 64 word))"
    unfolding signed_sat_sub_def Let_def sat_tests(2) [OF assms] wi_hom_sub by (simp split: if_splits)
  then show "signed_sat_sub x y = saturate (x - y)"
    using assms unfolding wrap_64 [OF b(3,4)] by (simp add: saturate_def in_i64_def split: if_splits)
qed

text \<open>
  C4: \<^verbatim>\<open>signed_sat_add\<close> and \<^verbatim>\<open>signed_sat_sub\<close>, whose overflow test is bit arithmetic on the
  unsigned representations, compute the mathematical sum and difference clamped to the range of
  \<^verbatim>\<open>int64_t\<close>.
\<close>

theorem signed_sat_exact:
  assumes "in_i64 x" and "in_i64 y"
  shows "signed_sat_add x y = saturate (x + y) \<and> signed_sat_sub x y = saturate (x - y)"
  using signed_sat_value [OF assms] by blast

theorem signed_sat_exact_witness:
  "in_i64 i64_max \<and> in_i64 5 \<and> signed_sat_add i64_max 5 = i64_max \<and>
   signed_sat_sub i64_max 5 = i64_max - 5"
proof -
  have h: "in_i64 i64_max" "in_i64 5" by (simp_all add: in_i64_def)
  show ?thesis using h signed_sat_exact [OF h] by (simp add: saturate_def)
qed

end
