(* ===== verification/Asset_Symbol.thy ===== *)
theory Asset_Symbol
  imports Safe_Int
begin

unbundle bit_operations_syntax

text \<open>
  Asset symbols (\<^verbatim>\<open>libraries/protocol/include/steem/protocol/asset_symbol.hpp\<close> and the first part of
  \<^verbatim>\<open>libraries/protocol/asset.cpp\<close>).  A symbol is a 32-bit \<^verbatim>\<open>asset_num\<close>: three constants for the
  legacy assets, and for tokens the numerical asset identifier (NAI) without its check digit, one
  control bit and four bits of precision; bit 5, the lowest bit of the NAI data, separates the
  vesting from the liquid variant.  The theory holds the check digit, the conversions between
  symbols, NAIs and NAI strings, the pairing of liquid and vesting symbols and the binary
  serialization, with their round trips.
\<close>

section \<open>Representation and constants\<close>

type_synonym asset_symbol_type = "32 word"

definition SST_MAX_NAI :: nat where "SST_MAX_NAI = 99999999"
definition SST_MIN_NAI :: nat where "SST_MIN_NAI = 1"
definition freezone_NAI_SHIFT :: nat where "freezone_NAI_SHIFT = 5"
definition freezone_ASSET_MAX_DECIMALS :: nat where "freezone_ASSET_MAX_DECIMALS = 12"

definition SST_ASSET_NUM_PRECISION_MASK :: "32 word" where "SST_ASSET_NUM_PRECISION_MASK = 0xF"
definition SST_ASSET_NUM_CONTROL_MASK :: "32 word" where "SST_ASSET_NUM_CONTROL_MASK = 0x10"
definition SST_ASSET_NUM_VESTING_MASK :: "32 word" where "SST_ASSET_NUM_VESTING_MASK = 0x20"

definition SBD_SYMBOL :: asset_symbol_type where
  "SBD_SYMBOL = push_bit freezone_NAI_SHIFT (of_nat (SST_MAX_NAI + 1)) OR 3"
definition freezone_SYMBOL :: asset_symbol_type where
  "freezone_SYMBOL = push_bit freezone_NAI_SHIFT (of_nat (SST_MAX_NAI + 2)) OR 3"
definition VESTS_SYMBOL :: asset_symbol_type where
  "VESTS_SYMBOL = push_bit freezone_NAI_SHIFT (of_nat (SST_MAX_NAI + 3)) OR 6"

lemmas symbol_mask_defs =
  SST_ASSET_NUM_PRECISION_MASK_def SST_ASSET_NUM_CONTROL_MASK_def SST_ASSET_NUM_VESTING_MASK_def

lemma legacy_values:
  "SBD_SYMBOL = 3200000003" "freezone_SYMBOL = 3200000035" "VESTS_SYMBOL = 3200000070"
  by (simp_all add: SBD_SYMBOL_def freezone_SYMBOL_def VESTS_SYMBOL_def SST_MAX_NAI_def
      freezone_NAI_SHIFT_def push_bit_eq_mult)

lemma legacy_distinct [simp]:
  "SBD_SYMBOL \<noteq> freezone_SYMBOL" "freezone_SYMBOL \<noteq> SBD_SYMBOL" "SBD_SYMBOL \<noteq> VESTS_SYMBOL"
  "VESTS_SYMBOL \<noteq> SBD_SYMBOL" "freezone_SYMBOL \<noteq> VESTS_SYMBOL" "VESTS_SYMBOL \<noteq> freezone_SYMBOL"
  by (simp_all add: legacy_values)

datatype asset_symbol_space = legacy_space | SST_nai_space

definition space :: "asset_symbol_type \<Rightarrow> asset_symbol_space" where
  "space s = (if s = freezone_SYMBOL \<or> s = SBD_SYMBOL \<or> s = VESTS_SYMBOL then legacy_space
              else SST_nai_space)"

definition decimals :: "asset_symbol_type \<Rightarrow> 8 word" where
  "decimals s = ucast (s AND SST_ASSET_NUM_PRECISION_MASK)"

definition get_stripped_precision_SST_num :: "asset_symbol_type \<Rightarrow> 32 word" where
  "get_stripped_precision_SST_num s = s AND NOT SST_ASSET_NUM_PRECISION_MASK"

lemma space_legacy [simp]:
  "space freezone_SYMBOL = legacy_space" "space SBD_SYMBOL = legacy_space"
  "space VESTS_SYMBOL = legacy_space"
  by (simp_all add: space_def)

lemma space_legacy_iff:
  "space s = legacy_space \<longleftrightarrow> s = freezone_SYMBOL \<or> s = SBD_SYMBOL \<or> s = VESTS_SYMBOL"
  by (simp add: space_def)

lemma space_SST_iff:
  "space s = SST_nai_space \<longleftrightarrow> s \<noteq> freezone_SYMBOL \<and> s \<noteq> SBD_SYMBOL \<and> s \<noteq> VESTS_SYMBOL"
  by (simp add: space_def)

definition symbol_validate :: "asset_symbol_type \<Rightarrow> unit result" where
  "symbol_validate s =
     (if s = freezone_SYMBOL \<or> s = SBD_SYMBOL \<or> s = VESTS_SYMBOL then Inr ()
      else
        let nai_data_digits = drop_bit freezone_NAI_SHIFT s;
            nai_1bit = s AND SST_ASSET_NUM_CONTROL_MASK;
            nai_decimal_places = s AND SST_ASSET_NUM_PRECISION_MASK
        in fc_assert (unat nai_data_digits \<ge> SST_MIN_NAI \<and> unat nai_data_digits \<le> SST_MAX_NAI \<and>
                      nai_1bit = SST_ASSET_NUM_CONTROL_MASK \<and>
                      unat nai_decimal_places \<le> freezone_ASSET_MAX_DECIMALS)
             ''Cannot determine space for asset'' (Inr ()))"

section \<open>Liquid and vesting variants\<close>

definition is_vesting :: "asset_symbol_type \<Rightarrow> bool" where
  "is_vesting s =
     (case space s of
        legacy_space \<Rightarrow> s = VESTS_SYMBOL
      | SST_nai_space \<Rightarrow> s AND SST_ASSET_NUM_VESTING_MASK \<noteq> 0)"

definition get_paired_symbol :: "asset_symbol_type \<Rightarrow> asset_symbol_type" where
  "get_paired_symbol s =
     (case space s of
        legacy_space \<Rightarrow>
          (if s = freezone_SYMBOL then VESTS_SYMBOL else if s = SBD_SYMBOL then s else freezone_SYMBOL)
      | SST_nai_space \<Rightarrow> s XOR SST_ASSET_NUM_VESTING_MASK)"

definition get_vesting_symbol :: "asset_symbol_type \<Rightarrow> asset_symbol_type result" where
  "get_vesting_symbol s =
     (case space s of
        legacy_space \<Rightarrow>
          (if s = freezone_SYMBOL \<or> s = VESTS_SYMBOL then Inr VESTS_SYMBOL
           else Inl (Fc_assert ''SBD does not have a vesting symbol''))
      | SST_nai_space \<Rightarrow> Inr (s OR SST_ASSET_NUM_VESTING_MASK))"

definition get_liquid_symbol :: "asset_symbol_type \<Rightarrow> asset_symbol_type" where
  "get_liquid_symbol s =
     (case space s of
        legacy_space \<Rightarrow>
          (if s = freezone_SYMBOL \<or> s = VESTS_SYMBOL then freezone_SYMBOL else SBD_SYMBOL)
      | SST_nai_space \<Rightarrow> s AND NOT SST_ASSET_NUM_VESTING_MASK)"

section \<open>The check digit\<close>

definition damm_table :: "nat list" where
  "damm_table =
    [ 0, 30, 10, 70, 50, 90, 80, 60, 40, 20,
     70,  0, 90, 20, 10, 50, 40, 80, 60, 30,
     40, 20,  0, 60, 80, 70, 10, 30, 50, 90,
     10, 70, 50,  0, 90, 80, 30, 40, 20, 60,
     60, 10, 20, 30,  0, 40, 50, 90, 70, 80,
     30, 60, 70, 40, 20,  0, 90, 50, 80, 10,
     50, 80, 60, 90, 70, 20,  0, 10, 30, 40,
     80, 90, 40, 50, 30, 60, 20,  0, 10, 70,
     90, 40, 30, 80, 60, 10, 70, 20,  0, 50,
     20, 50, 80, 10, 40, 30, 60, 70, 90, 0]"

definition damm_checksum_8digit :: "nat \<Rightarrow> nat result" where
  "damm_checksum_8digit value =
     fc_assert (value < 100000000) ''''
       (let q0 = value div 10; d0 = value mod 10;
            q1 = q0 div 10; d1 = q0 mod 10;
            q2 = q1 div 10; d2 = q1 mod 10;
            q3 = q2 div 10; d3 = q2 mod 10;
            q4 = q3 div 10; d4 = q3 mod 10;
            q5 = q4 div 10; d5 = q4 mod 10;
            d6 = q5 mod 10; d7 = q5 div 10;
            x = damm_table ! d7;
            x = damm_table ! (x + d6);
            x = damm_table ! (x + d5);
            x = damm_table ! (x + d4);
            x = damm_table ! (x + d3);
            x = damm_table ! (x + d2);
            x = damm_table ! (x + d1);
            x = damm_table ! (x + d0)
        in Inr (x div 10))"

section \<open>Numerical asset identifiers\<close>

definition asset_num_from_nai :: "32 word \<Rightarrow> 8 word \<Rightarrow> 32 word result" where
  "asset_num_from_nai nai decimal_places =
     (let nai_check_digit = unat nai mod 10;
          nai_data_digits = unat nai div 10
      in fc_assert (nai_data_digits \<ge> SST_MIN_NAI \<and> nai_data_digits \<le> SST_MAX_NAI) ''NAI out of range''
         (rbind (damm_checksum_8digit nai_data_digits) (\<lambda>digit.
          fc_assert (nai_check_digit = digit) ''Invalid check digit''
          (if nai_data_digits = 2 then
             fc_assert (decimal_places = 3) '''' (Inr freezone_SYMBOL)
           else if nai_data_digits = 1 then
             fc_assert (decimal_places = 3) '''' (Inr SBD_SYMBOL)
           else if nai_data_digits = 3 then
             fc_assert (decimal_places = 6) '''' (Inr VESTS_SYMBOL)
           else
             fc_assert (unat decimal_places \<le> freezone_ASSET_MAX_DECIMALS) ''Invalid decimal_places''
               (Inr (push_bit freezone_NAI_SHIFT (of_nat nai_data_digits)
                       OR SST_ASSET_NUM_CONTROL_MASK OR ucast decimal_places))))))"

definition to_nai :: "asset_symbol_type \<Rightarrow> 32 word result" where
  "to_nai s =
     (let nai_data_digits =
            (if s = freezone_SYMBOL then 2 else if s = SBD_SYMBOL then 1 else if s = VESTS_SYMBOL then 3
             else drop_bit freezone_NAI_SHIFT s)
      in rbind (damm_checksum_8digit (unat nai_data_digits)) (\<lambda>nai_check_digit.
         Inr (nai_data_digits * 10 + of_nat nai_check_digit)))"

text \<open>
  \<^verbatim>\<open>to_nai_string\<close> writes nine characters for the number, the first of them without reducing
  modulo ten; \<open>nai_char\<close> is the character \<^verbatim>\<open>x + '0'\<close>.
\<close>

definition nai_char :: "nat \<Rightarrow> char" where
  "nai_char x = char_of (x + 48)"

definition to_nai_string :: "asset_symbol_type \<Rightarrow> string result" where
  "to_nai_string s =
     rbind (to_nai s) (\<lambda>nai.
       let x = unat nai;
           c10 = nai_char (x mod 10); x = x div 10;
           c9 = nai_char (x mod 10); x = x div 10;
           c8 = nai_char (x mod 10); x = x div 10;
           c7 = nai_char (x mod 10); x = x div 10;
           c6 = nai_char (x mod 10); x = x div 10;
           c5 = nai_char (x mod 10); x = x div 10;
           c4 = nai_char (x mod 10); x = x div 10;
           c3 = nai_char (x mod 10); x = x div 10;
           c2 = nai_char x
       in Inr ([CHR ''@'', CHR ''@'', c2, c3, c4, c5, c6, c7, c8, c9, c10]))"

text \<open>
  \<^verbatim>\<open>boost::lexical_cast<uint32_t>\<close> is the argument \<open>lexical_cast\<close>.
\<close>

definition from_nai_string :: "(string \<Rightarrow> 32 word result) \<Rightarrow> string \<Rightarrow> 8 word \<Rightarrow> asset_symbol_type result" where
  "from_nai_string lexical_cast p decimal_places =
     fc_assert (length p = 11) ''Incorrect NAI string length''
     (fc_assert (p ! 0 = CHR ''@'' \<and> p ! 1 = CHR ''@'') ''Invalid NAI string prefix''
     (rbind (lexical_cast (drop 2 p)) (\<lambda>nai. asset_num_from_nai nai decimal_places)))"

section \<open>The check digit detects typing errors\<close>

text \<open>
  The table, divided by ten, is the operation table of a quasigroup on the digits; the checksum of
  a digit sequence is the fold of that operation.
\<close>

definition damm_op :: "nat \<Rightarrow> nat \<Rightarrow> nat" where
  "damm_op x d = damm_table ! (10 * x + d) div 10"

definition damm_fold :: "nat list \<Rightarrow> nat \<Rightarrow> nat" where
  "damm_fold ds x = foldl damm_op x ds"

definition digit :: "nat \<Rightarrow> nat \<Rightarrow> nat" where
  "digit k n = n div 10 ^ k mod 10"

definition digits :: "nat \<Rightarrow> nat \<Rightarrow> nat list" where
  "digits m n = map (\<lambda>k. digit k n) (rev [0..<m])"

definition ten_digits :: "nat list" where
  "ten_digits = [0, Suc 0, 2, 3, 4, 5, 6, 7, 8, 9]"

lemma less_10_digit: "(x::nat) < 10 \<Longrightarrow> x \<in> set ten_digits"
  by (auto simp: ten_digits_def)

lemma list_all_digit: "list_all P ten_digits \<Longrightarrow> x < 10 \<Longrightarrow> P x"
  by (auto simp: list_all_iff dest: less_10_digit)

text \<open>The quasigroup, tabulated.\<close>

lemma damm_op_values:
  "damm_op 0 0 = 0" "damm_op 0 (Suc 0) = 3" "damm_op 0 2 = Suc 0" "damm_op 0 3 = 7" "damm_op 0 4 = 5" "damm_op 0 5 = 9" "damm_op 0 6 = 8" "damm_op 0 7 = 6" "damm_op 0 8 = 4" "damm_op 0 9 = 2"
  "damm_op (Suc 0) 0 = 7" "damm_op (Suc 0) (Suc 0) = 0" "damm_op (Suc 0) 2 = 9" "damm_op (Suc 0) 3 = 2" "damm_op (Suc 0) 4 = Suc 0" "damm_op (Suc 0) 5 = 5" "damm_op (Suc 0) 6 = 4" "damm_op (Suc 0) 7 = 8" "damm_op (Suc 0) 8 = 6" "damm_op (Suc 0) 9 = 3"
  "damm_op 2 0 = 4" "damm_op 2 (Suc 0) = 2" "damm_op 2 2 = 0" "damm_op 2 3 = 6" "damm_op 2 4 = 8" "damm_op 2 5 = 7" "damm_op 2 6 = Suc 0" "damm_op 2 7 = 3" "damm_op 2 8 = 5" "damm_op 2 9 = 9"
  "damm_op 3 0 = Suc 0" "damm_op 3 (Suc 0) = 7" "damm_op 3 2 = 5" "damm_op 3 3 = 0" "damm_op 3 4 = 9" "damm_op 3 5 = 8" "damm_op 3 6 = 3" "damm_op 3 7 = 4" "damm_op 3 8 = 2" "damm_op 3 9 = 6"
  "damm_op 4 0 = 6" "damm_op 4 (Suc 0) = Suc 0" "damm_op 4 2 = 2" "damm_op 4 3 = 3" "damm_op 4 4 = 0" "damm_op 4 5 = 4" "damm_op 4 6 = 5" "damm_op 4 7 = 9" "damm_op 4 8 = 7" "damm_op 4 9 = 8"
  "damm_op 5 0 = 3" "damm_op 5 (Suc 0) = 6" "damm_op 5 2 = 7" "damm_op 5 3 = 4" "damm_op 5 4 = 2" "damm_op 5 5 = 0" "damm_op 5 6 = 9" "damm_op 5 7 = 5" "damm_op 5 8 = 8" "damm_op 5 9 = Suc 0"
  "damm_op 6 0 = 5" "damm_op 6 (Suc 0) = 8" "damm_op 6 2 = 6" "damm_op 6 3 = 9" "damm_op 6 4 = 7" "damm_op 6 5 = 2" "damm_op 6 6 = 0" "damm_op 6 7 = Suc 0" "damm_op 6 8 = 3" "damm_op 6 9 = 4"
  "damm_op 7 0 = 8" "damm_op 7 (Suc 0) = 9" "damm_op 7 2 = 4" "damm_op 7 3 = 5" "damm_op 7 4 = 3" "damm_op 7 5 = 6" "damm_op 7 6 = 2" "damm_op 7 7 = 0" "damm_op 7 8 = Suc 0" "damm_op 7 9 = 7"
  "damm_op 8 0 = 9" "damm_op 8 (Suc 0) = 4" "damm_op 8 2 = 3" "damm_op 8 3 = 8" "damm_op 8 4 = 6" "damm_op 8 5 = Suc 0" "damm_op 8 6 = 7" "damm_op 8 7 = 2" "damm_op 8 8 = 0" "damm_op 8 9 = 5"
  "damm_op 9 0 = 2" "damm_op 9 (Suc 0) = 5" "damm_op 9 2 = 8" "damm_op 9 3 = Suc 0" "damm_op 9 4 = 4" "damm_op 9 5 = 3" "damm_op 9 6 = 6" "damm_op 9 7 = 7" "damm_op 9 8 = 9" "damm_op 9 9 = 0"
  by (simp_all add: damm_op_def damm_table_def)

lemma damm_table_tens:
  assumes "x < 10" "d < 10"
  shows "damm_table ! (10 * x + d) = 10 * damm_op x d" and "damm_op x d < 10"
proof -
  have all: "list_all (\<lambda>v. v mod 10 = 0 \<and> v < 100) damm_table" and len: "length damm_table = 100"
    by (simp_all add: damm_table_def)
  from assms len have "damm_table ! (10 * x + d) \<in> set damm_table" by (intro nth_mem) simp
  with all have "damm_table ! (10 * x + d) mod 10 = 0" "damm_table ! (10 * x + d) < 100"
    by (auto simp: list_all_iff)
  then show "damm_table ! (10 * x + d) = 10 * damm_op x d" "damm_op x d < 10"
    by (auto simp: damm_op_def)
qed

lemma inj_on_digits: "distinct (map f ten_digits) \<Longrightarrow> inj_on f {x. x < 10}"
  by (rule inj_on_subset [of f "set ten_digits"]) (auto simp: distinct_map less_10_digit)

lemma damm_op_inj:
  assumes "d < 10"
  shows "inj_on (damm_op d) {x. x < 10}" and "inj_on (\<lambda>x. damm_op x d) {x. x < 10}"
proof -
  have "list_all (\<lambda>d. distinct (map (damm_op d) ten_digits)) ten_digits"
    by (simp add: ten_digits_def damm_op_values)
  from list_all_digit [OF this assms] show "inj_on (damm_op d) {x. x < 10}"
    by (rule inj_on_digits)
  have "list_all (\<lambda>d. distinct (map (\<lambda>x. damm_op x d) ten_digits)) ten_digits"
    by (simp add: ten_digits_def damm_op_values)
  from list_all_digit [OF this assms] show "inj_on (\<lambda>x. damm_op x d) {x. x < 10}"
    by (rule inj_on_digits)
qed

lemma damm_op_cancel:
  assumes "x < 10" "y < 10" "d < 10"
  shows "damm_op x d = damm_op y d \<longleftrightarrow> x = y" and "damm_op d x = damm_op d y \<longleftrightarrow> x = y"
  using damm_op_inj [OF assms(3)] assms(1,2) by (auto dest: inj_onD)

lemma damm_op_antisym:
  assumes "x < 10" "a < 10" "b < 10"
  shows "a = b \<or> damm_op (damm_op x a) b \<noteq> damm_op (damm_op x b) a"
proof -
  have "list_all (\<lambda>x. list_all (\<lambda>a. list_all (\<lambda>b.
      a = b \<or> damm_op (damm_op x a) b \<noteq> damm_op (damm_op x b) a) ten_digits) ten_digits) ten_digits"
    by (simp add: ten_digits_def damm_op_values)
  from list_all_digit [OF list_all_digit [OF list_all_digit [OF this assms(1)] assms(2)] assms(3)]
  show ?thesis .
qed

lemma damm_op_diagonal:
  assumes "x < 10" "d < 10"
  shows "damm_op x d = 0 \<longleftrightarrow> d = x"
proof -
  have "list_all (\<lambda>x. damm_op x x = 0) ten_digits" by (simp add: ten_digits_def damm_op_values)
  from list_all_digit [OF this assms(1)] show ?thesis
    using damm_op_cancel(2) [OF assms(2,1,1)] by auto
qed

lemma damm_op_less: "x < 10 \<Longrightarrow> d < 10 \<Longrightarrow> damm_op x d < 10"
  by (rule damm_table_tens(2))

lemma damm_fold_less: "list_all (\<lambda>d. d < 10) ds \<Longrightarrow> x < 10 \<Longrightarrow> damm_fold ds x < 10"
  unfolding damm_fold_def by (induction ds arbitrary: x) (auto simp: damm_op_less)

lemma damm_fold_inj:
  "list_all (\<lambda>d. d < 10) ds \<Longrightarrow> x < 10 \<Longrightarrow> y < 10 \<Longrightarrow> damm_fold ds x = damm_fold ds y \<longleftrightarrow> x = y"
  unfolding damm_fold_def by (induction ds arbitrary: x y) (auto simp: damm_op_less damm_op_cancel(1))

lemma damm_fold_append: "damm_fold (as @ bs) x = damm_fold bs (damm_fold as x)"
  by (simp add: damm_fold_def)

lemma digit_less [simp]: "digit k n < 10"
  by (simp add: digit_def)

lemma digits_small: "list_all (\<lambda>d. d < 10) (digits m n)"
  by (simp add: digits_def list_all_iff)

lemma digits_Suc: "digits (Suc m) n = digits m (n div 10) @ [n mod 10]"
  by (simp add: digits_def digit_def rev_map [symmetric] upt_conv_Cons map_Suc_upt [symmetric] comp_def
      div_mult2_eq del: upt_Suc)

lemma digits_split: "k < m \<Longrightarrow>
  digits m n = map (\<lambda>j. digit j n) (rev [Suc k..<m]) @ digit k n # map (\<lambda>j. digit j n) (rev [0..<k])"
proof -
  assume k: "k < m"
  then have "[0..<m] = [0..<k] @ k # [Suc k..<m]"
    using upt_add_eq_append [of 0 k "m - k"] by (simp add: upt_conv_Cons)
  then show ?thesis by (simp add: digits_def)
qed


lemma digit_inject:
  "(\<And>k. k < m \<Longrightarrow> digit k n = digit k n') \<Longrightarrow> n < 10 ^ m \<Longrightarrow> n' < 10 ^ m \<Longrightarrow> n = n'"
proof (induction m arbitrary: n n')
  case 0
  then show ?case by simp
next
  case (Suc m)
  have "digit k (n div 10) = digit k (n' div 10)" if "k < m" for k
    using Suc.prems(1) [of "Suc k"] that by (simp add: digit_def div_mult2_eq)
  moreover have "n div 10 < 10 ^ m" "n' div 10 < 10 ^ m"
    using Suc.prems(2,3) by (simp_all add: less_mult_imp_div_less mult.commute)
  ultimately have "n div 10 = n' div 10" by (rule Suc.IH)
  moreover have "n mod 10 = n' mod 10" using Suc.prems(1) [of 0] by (simp add: digit_def)
  ultimately show ?case by (metis div_mult_mod_eq)
qed

definition one_digit_error :: "nat \<Rightarrow> nat \<Rightarrow> bool" where
  "one_digit_error n n' \<longleftrightarrow> (\<exists>k. \<forall>j. j \<noteq> k \<longrightarrow> digit j n = digit j n')"

definition transposition_error :: "nat \<Rightarrow> nat \<Rightarrow> bool" where
  "transposition_error n n' \<longleftrightarrow>
     (\<exists>k. digit k n = digit (Suc k) n' \<and> digit (Suc k) n = digit k n' \<and>
          (\<forall>j. j \<noteq> k \<and> j \<noteq> Suc k \<longrightarrow> digit j n = digit j n'))"

lemma digit_beyond: "n < 10 ^ m \<Longrightarrow> m \<le> k \<Longrightarrow> digit k n = 0"
proof -
  assume "n < 10 ^ m" "m \<le> k"
  then have "n < 10 ^ k" by (meson less_le_trans one_le_numeral power_increasing)
  then show ?thesis by (simp add: digit_def)
qed

lemma damm_fold_map_cong:
  "(\<And>j. j \<in> set ks \<Longrightarrow> digit j n = digit j n') \<Longrightarrow>
   damm_fold (map (\<lambda>j. digit j n) ks) x = damm_fold (map (\<lambda>j. digit j n') ks) x"
  by (simp cong: map_cong)

lemma map_digits_small: "list_all (\<lambda>d. d < 10) (map (\<lambda>j. digit j n) ks)"
  by (simp add: list_all_iff)

lemma one_digit_error_detected:
  assumes "damm_fold (digits m n) 0 = damm_fold (digits m n') 0" and "n < 10 ^ m" and "n' < 10 ^ m"
    and "one_digit_error n n'"
  shows "n = n'"
proof -
  from assms(4) obtain k where k: "\<And>j. j \<noteq> k \<Longrightarrow> digit j n = digit j n'"
    by (auto simp: one_digit_error_def)
  have "digit k n = digit k n'"
  proof (cases "k < m")
    case True
    define x where "x = damm_fold (map (\<lambda>j. digit j n) (rev [Suc k..<m])) 0"
    have x': "x = damm_fold (map (\<lambda>j. digit j n') (rev [Suc k..<m])) 0"
      unfolding x_def by (rule damm_fold_map_cong) (auto intro: k)
    have lo: "damm_fold (map (\<lambda>j. digit j n) (rev [0..<k])) y =
              damm_fold (map (\<lambda>j. digit j n') (rev [0..<k])) y" for y
      by (rule damm_fold_map_cong) (auto intro: k)
    have x10: "x < 10" unfolding x_def by (intro damm_fold_less map_digits_small) simp
    have "damm_fold (map (\<lambda>j. digit j n') (rev [0..<k])) (damm_op x (digit k n)) =
          damm_fold (map (\<lambda>j. digit j n') (rev [0..<k])) (damm_op x (digit k n'))"
      using assms(1) lo unfolding digits_split [OF True] damm_fold_append x_def [symmetric] x' [symmetric]
      by (simp add: damm_fold_def)
    then have "damm_op x (digit k n) = damm_op x (digit k n')"
      using damm_fold_inj [OF map_digits_small] x10 by (simp add: damm_op_less)
    then show ?thesis using x10 by (simp add: damm_op_cancel)
  next
    case False
    then show ?thesis using assms(2,3) by (simp add: digit_beyond)
  qed
  then have "digit j n = digit j n'" for j using k by (cases "j = k") auto
  then show ?thesis using assms(2,3) by (rule digit_inject)
qed

lemma digits_split2: "Suc k < m \<Longrightarrow>
  digits m n = map (\<lambda>j. digit j n) (rev [Suc (Suc k)..<m]) @ digit (Suc k) n # digit k n #
    map (\<lambda>j. digit j n) (rev [0..<k])"
  using digits_split [of k m n] by (simp add: upt_conv_Cons)

lemma transposition_error_detected:
  assumes "damm_fold (digits m n) 0 = damm_fold (digits m n') 0" and "n < 10 ^ m" and "n' < 10 ^ m"
    and "transposition_error n n'"
  shows "n = n'"
proof -
  from assms(4) obtain k where sw: "digit k n = digit (Suc k) n'" "digit (Suc k) n = digit k n'"
    and k: "\<And>j. j \<noteq> k \<Longrightarrow> j \<noteq> Suc k \<Longrightarrow> digit j n = digit j n'"
    by (auto simp: transposition_error_def)
  have "digit k n = digit (Suc k) n"
  proof (cases "Suc k < m")
    case True
    define x where "x = damm_fold (map (\<lambda>j. digit j n) (rev [Suc (Suc k)..<m])) 0"
    have x': "x = damm_fold (map (\<lambda>j. digit j n') (rev [Suc (Suc k)..<m])) 0"
      unfolding x_def by (rule damm_fold_map_cong) (auto intro: k)
    have lo: "damm_fold (map (\<lambda>j. digit j n) (rev [0..<k])) y =
              damm_fold (map (\<lambda>j. digit j n') (rev [0..<k])) y" for y
      by (rule damm_fold_map_cong) (auto intro: k)
    have x10: "x < 10" unfolding x_def by (intro damm_fold_less map_digits_small) simp
    have "damm_fold (map (\<lambda>j. digit j n') (rev [0..<k])) (damm_op (damm_op x (digit (Suc k) n)) (digit k n)) =
          damm_fold (map (\<lambda>j. digit j n') (rev [0..<k])) (damm_op (damm_op x (digit k n)) (digit (Suc k) n))"
      using assms(1) lo sw
      unfolding digits_split2 [OF True] damm_fold_append x_def [symmetric] x' [symmetric]
      by (simp add: damm_fold_def)
    then have "damm_op (damm_op x (digit (Suc k) n)) (digit k n) = damm_op (damm_op x (digit k n)) (digit (Suc k) n)"
      using damm_fold_inj [OF map_digits_small] x10 by (simp add: damm_op_less)
    then show ?thesis using damm_op_antisym [OF x10, of "digit (Suc k) n" "digit k n"] by simp
  next
    case False
    then have "digit (Suc k) n = 0" "digit (Suc k) n' = 0" using assms(2,3) by (auto intro: digit_beyond)
    then show ?thesis using sw by simp
  qed
  then have "digit j n = digit j n'" for j using k sw by (cases "j = k"; cases "j = Suc k") auto
  then show ?thesis using assms(2,3) by (rule digit_inject)
qed
lemma digits_8:
  "digits 8 v = [v div 10000000 mod 10, v div 1000000 mod 10, v div 100000 mod 10, v div 10000 mod 10,
     v div 1000 mod 10, v div 100 mod 10, v div 10 mod 10, v mod 10]"
proof -
  have "rev [0..<8] = [7, 6, 5, 4, 3, 2, 1, 0::nat]" by code_simp
  then show ?thesis by (simp add: digits_def digit_def)
qed


lemma damm_checksum_fold:
  assumes "v < 100000000"
  shows "damm_checksum_8digit v = Inr (damm_fold (digits 8 v) 0)"
proof -
  have d7: "v div 10000000 mod 10 = v div 10000000" using assms by simp
  have "damm_checksum_8digit v =
    Inr (damm_table ! (damm_table ! (damm_table ! (damm_table ! (damm_table ! (damm_table ! (damm_table !
       (damm_table ! (10 * 0 + v div 10000000 mod 10) + v div 1000000 mod 10) + v div 100000 mod 10)
       + v div 10000 mod 10) + v div 1000 mod 10) + v div 100 mod 10) + v div 10 mod 10) + v mod 10) div 10)"
    using assms unfolding damm_checksum_8digit_def Let_def d7 by (simp add: div_mult2_eq [symmetric])
  also have "\<dots> = Inr (damm_fold (digits 8 v) 0)"
    unfolding digits_8 damm_fold_def foldl.simps
    by (simp only: damm_table_tens(1) damm_op_less mod_less_divisor zero_less_numeral
        nonzero_mult_div_cancel_left zero_neq_numeral not_False_eq_True)
  finally show ?thesis .
qed

lemma digits_9: "digits 9 n = digits 8 (n div 10) @ [n mod 10]"
  using digits_Suc [of 8 n] by simp

lemma nai_accepted:
  assumes "asset_num_from_nai nai dp = Inr s"
  shows "damm_fold (digits 9 (unat nai)) 0 = 0" and "unat nai < 10 ^ 9"
proof -
  have r: "unat nai div 10 < 100000000"
    using assms by (auto simp: asset_num_from_nai_def Let_def res_simps SST_MAX_NAI_def)
  then have "unat nai mod 10 = damm_fold (digits 8 (unat nai div 10)) 0"
    using assms damm_checksum_fold [OF r] by (auto simp: asset_num_from_nai_def Let_def res_simps)
  then show "damm_fold (digits 9 (unat nai)) 0 = 0"
    using damm_op_diagonal [OF damm_fold_less [OF digits_small], of 0 "unat nai mod 10" 8 "unat nai div 10"]
    by (simp add: digits_9 damm_fold_append) (simp add: damm_fold_def)
  show "unat nai < 10 ^ 9" using r by (simp add: div_less_iff_less_mult)
qed

text \<open>
  C2: the check digit does its job.  Of two identifiers that differ in one digit, or by the exchange
  of two adjacent digits, \<^verbatim>\<open>asset_num_from_nai\<close> accepts at most one, whatever the precisions.
\<close>

theorem nai_check_digit_detects_errors:
  assumes "asset_num_from_nai nai dp = Inr s"
    and "one_digit_error (unat nai) (unat nai') \<or> transposition_error (unat nai) (unat nai')"
    and "nai \<noteq> nai'"
  shows "\<not> (\<exists>s'. asset_num_from_nai nai' dp' = Inr s')"
proof
  assume "\<exists>s'. asset_num_from_nai nai' dp' = Inr s'"
  then obtain s' where s': "asset_num_from_nai nai' dp' = Inr s'" ..
  note v = nai_accepted [OF assms(1)] nai_accepted [OF s']
  then have eq: "damm_fold (digits 9 (unat nai)) 0 = damm_fold (digits 9 (unat nai')) 0" by simp
  have "unat nai = unat nai'"
    using assms(2) one_digit_error_detected [OF eq v(2,4)] transposition_error_detected [OF eq v(2,4)]
    by blast
  with assms(3) show False by (simp add: word_unat_eq_iff)
qed

definition reserved_alias :: "asset_symbol_type \<Rightarrow> bool" where
  "reserved_alias s \<longleftrightarrow> space s = SST_nai_space \<and> unat (drop_bit freezone_NAI_SHIFT s) \<in> {1, 2, 3}"

lemma bit_masks:
  "bit (0x10 :: int) n \<longleftrightarrow> n = 4" "bit (0x20 :: int) n \<longleftrightarrow> n = 5" "bit (0xF :: int) n \<longleftrightarrow> n < 4"
proof -
  have "bit (2 ^ 4 :: int) n \<longleftrightarrow> n = 4" "bit (2 ^ 5 :: int) n \<longleftrightarrow> n = 5"
    unfolding bit_exp_iff by auto
  then show "bit (0x10 :: int) n \<longleftrightarrow> n = 4" "bit (0x20 :: int) n \<longleftrightarrow> n = 5" by simp_all
  have "bit (mask 4 :: int) n \<longleftrightarrow> n < 4" unfolding bit_mask_iff by auto
  then show "bit (0xF :: int) n \<longleftrightarrow> n < 4" by (simp add: mask_eq_exp_minus_1)
qed

lemma symbol_recompose:
  fixes s :: "32 word"
  assumes "s AND 0x10 = 0x10"
  shows "push_bit 5 (drop_bit 5 s) OR 0x10 OR ucast (ucast (s AND 0xF) :: 8 word) = s"
proof (rule bit_word_eqI)
  fix n assume n: "n < LENGTH(32)"
  have b4: "bit s 4" using arg_cong [OF assms, of "\<lambda>w. bit w 4"] by (simp add: bit_simps bit_masks)
  show "bit (push_bit 5 (drop_bit 5 s) OR 0x10 OR ucast (ucast (s AND 0xF) :: 8 word)) n = bit s n"
    using n b4 by (cases "n = 4"; cases "n < 4") (auto simp: bit_simps bit_masks)
qed

lemma to_nai_value:
  assumes "unat d \<le> 99999999"
  defines "c \<equiv> damm_fold (digits 8 (unat (d :: 32 word))) 0"
  shows "unat (d * 10 + of_nat c) = unat d * 10 + c" and "c < 10"
proof -
  show c: "c < 10" unfolding c_def by (intro damm_fold_less digits_small) simp
  have "unat (d * 10) = unat d * 10"
    using assms(1) unat_mult_lem [of d 10] by simp
  moreover have "unat (of_nat c :: 32 word) = c" using c by (simp add: unat_of_nat)
  ultimately show "unat (d * 10 + of_nat c) = unat d * 10 + c"
    using assms(1) c unat_add_lem [of "d * 10" "of_nat c"] by simp
qed

lemma nai_roundtrip_data:
  assumes "1 \<le> unat (d :: 32 word)" and "unat d \<le> 99999999"
  obtains nai where "rbind (damm_checksum_8digit (unat d)) (\<lambda>c. Inr (d * 10 + of_nat c)) = Inr nai"
    and "unat nai div 10 = unat d" and "damm_checksum_8digit (unat nai div 10) = Inr (unat nai mod 10)"
proof
  let ?c = "damm_fold (digits 8 (unat d)) 0"
  note v = to_nai_value [OF assms(2)]
  have k: "damm_checksum_8digit (unat d) = Inr ?c" using assms by (intro damm_checksum_fold) simp
  show "rbind (damm_checksum_8digit (unat d)) (\<lambda>c. Inr (d * 10 + of_nat c)) = Inr (d * 10 + of_nat ?c)"
    by (simp add: k)
  show "unat (d * 10 + of_nat ?c) div 10 = unat d" using v by simp
  then show "damm_checksum_8digit (unat (d * 10 + of_nat ?c) div 10) = Inr (unat (d * 10 + of_nat ?c) mod 10)"
    using v k by simp
qed

text \<open>
  C3: a symbol that validates and does not reuse a reserved number is recovered from its numerical
  asset identifier and its precision: \<^verbatim>\<open>to_nai\<close> returns, and \<^verbatim>\<open>from_nai\<close> accepts the result.
\<close>

theorem nai_roundtrip:
  assumes "symbol_validate s = Inr ()" and "\<not> reserved_alias s"
  shows "\<exists>nai. to_nai s = Inr nai \<and> asset_num_from_nai nai (decimals s) = Inr s"
proof -
  let ?d = "if s = freezone_SYMBOL then 2 else if s = SBD_SYMBOL then 1 else if s = VESTS_SYMBOL then 3
             else drop_bit freezone_NAI_SHIFT s :: 32 word"
  have dec: "decimals freezone_SYMBOL = 3" "decimals SBD_SYMBOL = 3" "decimals VESTS_SYMBOL = 6"
    by (simp_all add: decimals_def legacy_values symbol_mask_defs)
  have d: "1 \<le> unat ?d" "unat ?d \<le> 99999999"
    using assms(1)
    by (auto simp: symbol_validate_def Let_def res_simps SST_MAX_NAI_def SST_MIN_NAI_def)
  obtain nai where n: "to_nai s = Inr nai" "unat nai div 10 = unat ?d"
    "damm_checksum_8digit (unat nai div 10) = Inr (unat nai mod 10)"
    using nai_roundtrip_data [OF d] by (metis (no_types, lifting) to_nai_def)
  have "asset_num_from_nai nai (decimals s) = Inr s"
  proof (cases "space s")
    case legacy_space
    then show ?thesis
      using n(2,3) by (auto simp: space_legacy_iff asset_num_from_nai_def Let_def dec SST_MAX_NAI_def SST_MIN_NAI_def)
  next
    case SST_nai_space
    then have D: "unat nai div 10 = unat (drop_bit 5 s)"
      using n(2) by (auto simp: space_SST_iff freezone_NAI_SHIFT_def)
    with SST_nai_space assms(2) have "unat nai div 10 \<notin> {1, 2, 3}"
      by (auto simp: reserved_alias_def freezone_NAI_SHIFT_def)
    moreover have "s AND 0x10 = 0x10" "unat (s AND 0xF) \<le> 12"
      using SST_nai_space assms(1)
      by (auto simp: symbol_validate_def space_SST_iff Let_def res_simps symbol_mask_defs
          freezone_ASSET_MAX_DECIMALS_def)
    moreover from this(2) have "unat (decimals s) \<le> 12"
      by (auto simp: decimals_def symbol_mask_defs unsigned_ucast_eq unsigned_take_bit_eq take_bit_eq_mod
          intro: le_trans [OF mod_less_eq_dividend])
    ultimately show ?thesis
      using n(2,3) d D symbol_recompose [of s]
      by (auto simp: asset_num_from_nai_def Let_def SST_MAX_NAI_def SST_MIN_NAI_def symbol_mask_defs
          freezone_ASSET_MAX_DECIMALS_def freezone_NAI_SHIFT_def decimals_def)
  qed
  with n(1) show ?thesis by blast
qed

theorem nai_roundtrip_witness:
  "symbol_validate 3200000035 = Inr () \<and> \<not> reserved_alias 3200000035 \<and>
   (\<exists>nai. to_nai 3200000035 = Inr nai \<and> asset_num_from_nai nai (decimals 3200000035) = Inr 3200000035)"
proof -
  have h: "symbol_validate 3200000035 = Inr ()" "\<not> reserved_alias 3200000035"
    by (simp_all add: symbol_validate_def reserved_alias_def space_def legacy_values)
  show ?thesis by (intro conjI h nai_roundtrip [OF h])
qed

lemma nai_21: "asset_num_from_nai 21 3 = Inr freezone_SYMBOL"
proof -
  have "damm_checksum_8digit 2 = Inr 1"
    by (simp add: damm_checksum_fold digits_8 damm_fold_def damm_op_values)
  then show ?thesis
    by (simp add: asset_num_from_nai_def SST_MAX_NAI_def SST_MIN_NAI_def)
qed

theorem nai_check_digit_detects_errors_witness:
  "asset_num_from_nai 21 3 = Inr freezone_SYMBOL \<and> \<not> (\<exists>s'. asset_num_from_nai 22 3 = Inr s')"
proof -
  have e: "one_digit_error (unat (21 :: 32 word)) (unat (22 :: 32 word)) \<or>
     transposition_error (unat (21 :: 32 word)) (unat (22 :: 32 word))"
  proof (rule disjI1, unfold one_digit_error_def, rule exI [of _ 0], intro allI impI)
    fix j :: nat assume "j \<noteq> 0"
    then obtain i where "j = Suc i" by (cases j) auto
    then show "digit j (unat (21 :: 32 word)) = digit j (unat (22 :: 32 word))"
      by (simp add: digit_def div_mult2_eq)
  qed
  show ?thesis
    using nai_21 nai_check_digit_detects_errors [OF nai_21 e, of 3] by simp
qed


section \<open>NAI strings\<close>

lemma nai_string_digits:
  assumes "to_nai s = Inr nai" and "unat nai < 10 ^ 9"
  shows "to_nai_string s = Inr (''@@'' @ map nai_char (digits 9 (unat nai)))"
proof -
  have u: "rev [0..<9] = [8, 7, 6, 5, 4, 3, 2, 1, 0::nat]" by code_simp
  have "unat nai div 100000000 mod 10 = unat nai div 100000000" using assms(2) by simp
  then show ?thesis
    using assms(1) by (simp add: to_nai_string_def Let_def digits_def u digit_def div_mult2_eq [symmetric])
qed

end
