(* ===== verification/Asset.thy ===== *)
theory Asset
  imports Asset_Symbol Complex_Main
begin

text \<open>
  Amounts and exchange rates (\<^verbatim>\<open>struct asset\<close>, \<^verbatim>\<open>struct price\<close> of \<^verbatim>\<open>asset.hpp\<close> / \<^verbatim>\<open>asset.cpp\<close>) and
  the tick pricing rules of \<^verbatim>\<open>validation.hpp\<close>.  The checked operators on assets throw when the
  symbols differ; price comparison and conversion go through 128-bit products, kept at their width
  here, and are related to the rational number a price stands for.
\<close>

section \<open>Assets\<close>

record asset =
  amount :: share_type
  symbol :: asset_symbol_type

definition mk_asset :: "share_type \<Rightarrow> asset_symbol_type \<Rightarrow> asset" where
  "mk_asset a s = \<lparr>amount = a, symbol = s\<rparr>"

text \<open>The default constructor.\<close>

definition asset_default :: asset where
  "asset_default = mk_asset 0 freezone_SYMBOL"

definition freezone_MAX_SATOSHIS :: int where
  "freezone_MAX_SATOSHIS = 4611686018427387903"

definition asset_validate :: "asset \<Rightarrow> unit result" where
  "asset_validate a =
     rbind (symbol_validate (symbol a)) (\<lambda>_.
     fc_assert (amount a \<ge> 0) '''' (
     fc_assert (amount a \<le> freezone_MAX_SATOSHIS) '''' (Inr ())))"

definition asset_add :: "asset \<Rightarrow> asset \<Rightarrow> asset result" where
  "asset_add a b =
     fc_assert (symbol a = symbol b) ''''
       (rbind (safe_add (amount a) (amount b)) (\<lambda>x. Inr (mk_asset x (symbol a))))"

definition asset_sub :: "asset \<Rightarrow> asset \<Rightarrow> asset result" where
  "asset_sub a b =
     fc_assert (symbol a = symbol b) ''''
       (rbind (safe_sub (amount a) (amount b)) (\<lambda>x. Inr (mk_asset x (symbol a))))"

definition asset_mul :: "asset \<Rightarrow> asset \<Rightarrow> asset result" where
  "asset_mul a b =
     fc_assert (symbol a = symbol b) ''''
       (rbind (safe_mul (amount a) (amount b)) (\<lambda>x. Inr (mk_asset x (symbol a))))"

definition asset_neg :: "asset \<Rightarrow> asset result" where
  "asset_neg a = rbind (safe_neg (amount a)) (\<lambda>x. Inr (mk_asset x (symbol a)))"

definition asset_lt :: "asset \<Rightarrow> asset \<Rightarrow> bool result" where
  "asset_lt a b = fc_assert (symbol a = symbol b) '''' (Inr (amount a < amount b))"

definition asset_le :: "asset \<Rightarrow> asset \<Rightarrow> bool result" where
  "asset_le a b = fc_assert (symbol a = symbol b) '''' (Inr (amount a \<le> amount b))"

definition asset_ne :: "asset \<Rightarrow> asset \<Rightarrow> bool result" where
  "asset_ne a b = fc_assert (symbol a = symbol b) '''' (Inr (amount a \<noteq> amount b))"

definition asset_gt :: "asset \<Rightarrow> asset \<Rightarrow> bool result" where
  "asset_gt a b = fc_assert (symbol a = symbol b) '''' (Inr (amount a > amount b))"

definition asset_ge :: "asset \<Rightarrow> asset \<Rightarrow> bool result" where
  "asset_ge a b = fc_assert (symbol a = symbol b) '''' (Inr (amount a \<ge> amount b))"

section \<open>Prices\<close>

record price =
  base :: asset
  quote :: asset

definition price_default :: price where
  "price_default = \<lparr>base = asset_default, quote = asset_default\<rparr>"

definition price_validate :: "price \<Rightarrow> unit result" where
  "price_validate p =
     fc_assert (amount (base p) > 0) '''' (
     fc_assert (amount (quote p) > 0) '''' (
     fc_assert (symbol (base p) \<noteq> symbol (quote p)) '''' (Inr ())))"

text \<open>The two-argument constructor validates.\<close>

definition mk_price :: "asset \<Rightarrow> asset \<Rightarrow> price result" where
  "mk_price b q = (let p = \<lparr>base = b, quote = q\<rparr> in rbind (price_validate p) (\<lambda>_. Inr p))"

definition asset_div :: "asset \<Rightarrow> asset \<Rightarrow> price result" where
  "asset_div b q = fc_assert (symbol b \<noteq> symbol q) '''' (mk_price b q)"

definition price_inv :: "price \<Rightarrow> price result" where
  "price_inv p = mk_price (quote p) (base p)"

definition price_max :: "asset_symbol_type \<Rightarrow> asset_symbol_type \<Rightarrow> price result" where
  "price_max b q = asset_div (mk_asset freezone_MAX_SATOSHIS b) (mk_asset 1 q)"

definition price_min :: "asset_symbol_type \<Rightarrow> asset_symbol_type \<Rightarrow> price result" where
  "price_min b q = asset_div (mk_asset 1 b) (mk_asset freezone_MAX_SATOSHIS q)"

text \<open>
  The six comparison operators come from one macro: prices of different markets compare by the
  pair of symbols, prices of one market by the cross products, computed as \<^verbatim>\<open>uint128_t\<close>.
  \<open>u128_of_i64\<close> is the sign-extending constructor.
\<close>

definition u128_of_i64 :: "int \<Rightarrow> 128 word" where
  "u128_of_i64 x = word_of_int x"

definition bq_less :: "price \<Rightarrow> price \<Rightarrow> bool" where
  "bq_less a b \<longleftrightarrow>
     symbol (base a) < symbol (base b) \<or>
     symbol (base a) = symbol (base b) \<and> symbol (quote a) < symbol (quote b)"

definition same_bq :: "price \<Rightarrow> price \<Rightarrow> bool" where
  "same_bq a b \<longleftrightarrow> symbol (base a) = symbol (base b) \<and> symbol (quote a) = symbol (quote b)"

definition amult :: "price \<Rightarrow> price \<Rightarrow> 128 word" where
  "amult a b = u128_of_i64 (amount (quote b)) * u128_of_i64 (amount (base a))"

definition price_eq :: "price \<Rightarrow> price \<Rightarrow> bool" where
  "price_eq a b \<longleftrightarrow> (if \<not> same_bq a b then same_bq a b else amult a b = amult b a)"

definition price_ne :: "price \<Rightarrow> price \<Rightarrow> bool" where
  "price_ne a b \<longleftrightarrow> (if \<not> same_bq a b then \<not> same_bq a b else amult a b \<noteq> amult b a)"

definition price_lt :: "price \<Rightarrow> price \<Rightarrow> bool" where
  "price_lt a b \<longleftrightarrow> (if \<not> same_bq a b then bq_less a b else amult a b < amult b a)"

definition price_le :: "price \<Rightarrow> price \<Rightarrow> bool" where
  "price_le a b \<longleftrightarrow> (if \<not> same_bq a b then \<not> bq_less b a else amult a b \<le> amult b a)"

definition price_gt :: "price \<Rightarrow> price \<Rightarrow> bool" where
  "price_gt a b \<longleftrightarrow> (if \<not> same_bq a b then bq_less b a else amult a b > amult b a)"

definition price_ge :: "price \<Rightarrow> price \<Rightarrow> bool" where
  "price_ge a b \<longleftrightarrow> (if \<not> same_bq a b then \<not> bq_less a b else amult a b \<ge> amult b a)"

definition price_is_null :: "price \<Rightarrow> bool" where
  "price_is_null p \<longleftrightarrow> price_eq p price_default"

text \<open>
  Conversion of an amount.  The 128-bit quotient is required to have a zero high half and its low
  half becomes the amount: \<^verbatim>\<open>to_uint64\<close> returns an unsigned value that the constructor of
  \<^verbatim>\<open>share_type\<close> converts to a signed one.
\<close>

definition u128_hi :: "128 word \<Rightarrow> 64 word" where
  "u128_hi x = ucast (drop_bit 64 x)"

definition to_uint64 :: "128 word \<Rightarrow> 64 word result" where
  "to_uint64 x = fc_assert (u128_hi x = 0) '''' (Inr (ucast x))"

definition mul_div_amount :: "int \<Rightarrow> int \<Rightarrow> int \<Rightarrow> share_type result" where
  "mul_div_amount a n d =
     (let r = u128_of_i64 a * u128_of_i64 n div u128_of_i64 d
      in fc_assert (u128_hi r = 0) '''' (rbind (to_uint64 r) (\<lambda>x. Inr (i64_of_u64 x))))"

definition asset_mul_price :: "asset \<Rightarrow> price \<Rightarrow> asset result" where
  "asset_mul_price a b =
     (if symbol a = symbol (base b) then
        fc_assert (amount (base b) > 0) '''' (
          rbind (mul_div_amount (amount a) (amount (quote b)) (amount (base b))) (\<lambda>r.
          Inr (mk_asset r (symbol (quote b)))))
      else if symbol a = symbol (quote b) then
        fc_assert (amount (quote b) > 0) '''' (
          rbind (mul_div_amount (amount a) (amount (base b)) (amount (quote b))) (\<lambda>r.
          Inr (mk_asset r (symbol (base b)))))
      else Inl (Fc_assert ''invalid asset * price''))"

section \<open>Tick pricing\<close>

function strip_tens :: "share_type \<Rightarrow> share_type" where
  "strip_tens tmp = (if tmp > 9 \<and> tmp smod 10 = 0 then strip_tens (tmp sdiv 10) else tmp)"
  by auto

termination
  by (relation "measure nat") (auto simp: sdiv_pos)

declare strip_tens.simps [simp del]

definition is_tick_pricing :: "price \<Rightarrow> bool" where
  "is_tick_pricing p =
     (if symbol (base p) = SBD_SYMBOL then
        (if symbol (quote p) \<noteq> freezone_SYMBOL then False else strip_tens (amount (quote p)) = 1)
      else if symbol (base p) = freezone_SYMBOL then
        (if space (symbol (quote p)) \<noteq> SST_nai_space then False
         else if is_vesting (symbol (quote p)) then False
         else strip_tens (amount (quote p)) = 1)
      else False)"

definition validate_tick_pricing :: "price \<Rightarrow> unit result" where
  "validate_tick_pricing p =
     (let k = fc_assert (strip_tens (amount (quote p)) = 1) ''The quote amount must be a power of 10.'' (Inr ())
      in if symbol (base p) = SBD_SYMBOL then
           fc_assert (symbol (quote p) = freezone_SYMBOL) ''Only freezone can be paired with SBD as the base symbol.'' k
         else if symbol (base p) = freezone_SYMBOL then
           fc_assert (space (symbol (quote p)) = SST_nai_space)
             ''Only tokens can be paired with freezone as the base symbol.'' (
           fc_assert (is_vesting (symbol (quote p)) = False) ''Quote symbol cannot be a vesting symbol.'' k)
         else Inl (Fc_assert ''freezone and SBD are the only valid base symbols.''))"

section \<open>Lemmas on assets\<close>

lemma mk_asset_simps [simp]:
  "amount (mk_asset a s) = a" "symbol (mk_asset a s) = s"
  by (simp_all add: mk_asset_def)

lemma mk_asset_eta [simp]: "mk_asset (amount a) (symbol a) = a"
  by (simp add: mk_asset_def)

lemma mk_asset_eq_iff [simp]: "mk_asset a s = mk_asset b t \<longleftrightarrow> a = b \<and> s = t"
  by (simp add: mk_asset_def)

lemma asset_eqI: "amount a = amount b \<Longrightarrow> symbol a = symbol b \<Longrightarrow> a = (b :: asset)"
  by simp

lemma asset_add_eq_Inr:
  "asset_add a b = Inr c \<longleftrightarrow>
   symbol a = symbol b \<and> (\<exists>x. safe_add (amount a) (amount b) = Inr x \<and> c = mk_asset x (symbol a))"
  by (auto simp: asset_add_def res_simps)

lemma asset_sub_eq_Inr:
  "asset_sub a b = Inr c \<longleftrightarrow>
   symbol a = symbol b \<and> (\<exists>x. safe_sub (amount a) (amount b) = Inr x \<and> c = mk_asset x (symbol a))"
  by (auto simp: asset_sub_def res_simps)

lemma asset_neg_eq_Inr:
  "asset_neg a = Inr c \<longleftrightarrow> (\<exists>x. safe_neg (amount a) = Inr x \<and> c = mk_asset x (symbol a))"
  by (auto simp: asset_neg_def res_simps)

lemma asset_add_value: "asset_add a b = Inr c \<Longrightarrow> c = mk_asset (amount a + amount b) (symbol a) \<and> symbol b = symbol a"
  by (auto simp: asset_add_eq_Inr dest: safe_values)

lemma asset_sub_value: "asset_sub a b = Inr c \<Longrightarrow> c = mk_asset (amount a - amount b) (symbol a) \<and> symbol b = symbol a"
  by (auto simp: asset_sub_eq_Inr dest: safe_values)

lemma asset_neg_value: "asset_neg a = Inr c \<Longrightarrow> c = mk_asset (- amount a) (symbol a)"
  by (auto simp: asset_neg_eq_Inr dest: safe_values)

lemma asset_cmp_eq_Inr [res_simps]:
  "asset_lt a b = Inr c \<longleftrightarrow> symbol a = symbol b \<and> c = (amount a < amount b)"
  "asset_le a b = Inr c \<longleftrightarrow> symbol a = symbol b \<and> c = (amount a \<le> amount b)"
  "asset_ne a b = Inr c \<longleftrightarrow> symbol a = symbol b \<and> c = (amount a \<noteq> amount b)"
  "asset_gt a b = Inr c \<longleftrightarrow> symbol a = symbol b \<and> c = (amount a > amount b)"
  "asset_ge a b = Inr c \<longleftrightarrow> symbol a = symbol b \<and> c = (amount a \<ge> amount b)"
  by (auto simp: asset_lt_def asset_le_def asset_ne_def asset_gt_def asset_ge_def res_simps)

lemma price_validate_eq_Inr [res_simps]:
  "price_validate p = Inr u \<longleftrightarrow>
   amount (base p) > 0 \<and> amount (quote p) > 0 \<and> symbol (base p) \<noteq> symbol (quote p)"
  by (auto simp: price_validate_def res_simps)

lemma mk_price_eq_Inr [res_simps]:
  "mk_price b q = Inr p \<longleftrightarrow>
   amount b > 0 \<and> amount q > 0 \<and> symbol b \<noteq> symbol q \<and> p = \<lparr>base = b, quote = q\<rparr>"
  by (auto simp: mk_price_def Let_def res_simps)

section \<open>Products of amounts\<close>

lemma i64_product_bounds:
  assumes "0 \<le> a" "a \<le> i64_max" "0 \<le> b" "b \<le> i64_max"
  shows "0 \<le> a * b" and "a * b < 2 ^ 126"
proof -
  show "0 \<le> a * b" using assms by simp
  have "a * b \<le> i64_max * i64_max" using assms by (intro mult_mono) auto
  then show "a * b < 2 ^ 126" by simp
qed

lemma uint_u128_of_i64: "0 \<le> a \<Longrightarrow> a \<le> i64_max \<Longrightarrow> uint (u128_of_i64 a) = a"
  by (simp add: u128_of_i64_def uint_word_of_int take_bit_eq_mod)

lemma uint_u128_product:
  assumes "0 \<le> a" "a \<le> i64_max" "0 \<le> b" "b \<le> i64_max"
  shows "uint (u128_of_i64 a * u128_of_i64 b) = a * b"
proof -
  have "u128_of_i64 a * u128_of_i64 b = word_of_int (a * b)"
    by (simp add: u128_of_i64_def)
  then show ?thesis
    using i64_product_bounds [OF assms] by (simp add: uint_word_of_int take_bit_eq_mod del: of_int_mult)
qed

text \<open>A price with positive amounts in the range of the type, and the rational it stands for.\<close>

definition price_ok :: "price \<Rightarrow> bool" where
  "price_ok p \<longleftrightarrow> 0 < amount (base p) \<and> amount (base p) \<le> i64_max \<and>
                   0 < amount (quote p) \<and> amount (quote p) \<le> i64_max"

definition price_rat :: "price \<Rightarrow> rat" where
  "price_rat p = of_int (amount (base p)) / of_int (amount (quote p))"

lemma uint_amult:
  "price_ok a \<Longrightarrow> price_ok b \<Longrightarrow> uint (amult a b) = amount (quote b) * amount (base a)"
  by (simp add: amult_def price_ok_def uint_u128_product)

lemma amult_less_iff:
  assumes "price_ok a" "price_ok b"
  shows "amult a b < amult b a \<longleftrightarrow> price_rat a < price_rat b"
proof -
  have p: "(0::rat) < of_int (amount (quote a))" "(0::rat) < of_int (amount (quote b))"
    using assms by (auto simp: price_ok_def)
  have "amult a b < amult b a \<longleftrightarrow>
      amount (quote b) * amount (base a) < amount (quote a) * amount (base b)"
    by (simp add: word_less_def uint_amult assms)
  also have "\<dots> \<longleftrightarrow> (of_int (amount (quote b)) * of_int (amount (base a)) :: rat)
      < of_int (amount (quote a)) * of_int (amount (base b))"
    by (simp only: of_int_mult [symmetric] of_int_less_iff)
  also have "\<dots> \<longleftrightarrow> price_rat a < price_rat b"
    using p by (simp add: price_rat_def divide_simps mult.commute)
  finally show ?thesis .
qed

lemma amult_eq_iff:
  assumes "price_ok a" "price_ok b"
  shows "amult a b = amult b a \<longleftrightarrow> price_rat a = price_rat b"
  using amult_less_iff [OF assms] amult_less_iff [OF assms(2,1)] by (metis linorder_neqE less_irrefl)

text \<open>
  C6: prices of one market with positive amounts compare as the rational numbers base/quote,
  whatever their size (the 128-bit cross products do not wrap).
\<close>

theorem price_comparison_rational:
  assumes "same_bq a b" "price_ok a" "price_ok b"
  shows "(price_lt a b \<longleftrightarrow> price_rat a < price_rat b) \<and> (price_le a b \<longleftrightarrow> price_rat a \<le> price_rat b) \<and>
    (price_gt a b \<longleftrightarrow> price_rat a > price_rat b) \<and> (price_ge a b \<longleftrightarrow> price_rat a \<ge> price_rat b) \<and>
    (price_eq a b \<longleftrightarrow> price_rat a = price_rat b) \<and> (price_ne a b \<longleftrightarrow> price_rat a \<noteq> price_rat b)"
  using assms(1) amult_less_iff [OF assms(2,3)] amult_less_iff [OF assms(3,2)] amult_eq_iff [OF assms(2,3)]
  by (simp add: price_lt_def price_le_def price_gt_def price_ge_def price_eq_def price_ne_def
      not_less [symmetric])

theorem price_comparison_rational_witness:
  "same_bq \<lparr>base = mk_asset i64_max SBD_SYMBOL, quote = mk_asset 3 freezone_SYMBOL\<rparr>
           \<lparr>base = mk_asset i64_max SBD_SYMBOL, quote = mk_asset 2 freezone_SYMBOL\<rparr> \<and>
   price_lt \<lparr>base = mk_asset i64_max SBD_SYMBOL, quote = mk_asset 3 freezone_SYMBOL\<rparr>
            \<lparr>base = mk_asset i64_max SBD_SYMBOL, quote = mk_asset 2 freezone_SYMBOL\<rparr>"
proof -
  let ?a = "\<lparr>base = mk_asset i64_max SBD_SYMBOL, quote = mk_asset 3 freezone_SYMBOL\<rparr>"
  let ?b = "\<lparr>base = mk_asset i64_max SBD_SYMBOL, quote = mk_asset 2 freezone_SYMBOL\<rparr>"
  have h: "same_bq ?a ?b" "price_ok ?a" "price_ok ?b" by (simp_all add: same_bq_def price_ok_def)
  show ?thesis using price_comparison_rational [OF h] h(1) by (simp add: price_rat_def)
qed

section \<open>Conversion\<close>

text \<open>The value the conversion computes, whatever its size.\<close>

lemma mul_div_word:
  assumes "0 \<le> a" "a \<le> i64_max" "0 \<le> n" "n \<le> i64_max" "0 < d" "d \<le> i64_max"
  shows "uint (u128_of_i64 a * u128_of_i64 n div u128_of_i64 d) = a * n div d"
  using assms by (simp add: uint_div_distrib uint_u128_product uint_u128_of_i64)

lemma u128_hi_eq_0_iff: "u128_hi x = 0 \<longleftrightarrow> uint x < 2 ^ 64"
proof -
  have t: "take_bit 128 (uint x) = uint x"
    using uint_lt2p [of x] by (simp add: take_bit_int_eq_self)
  have "u128_hi x = 0 \<longleftrightarrow> uint (u128_hi x) = 0" by (simp add: uint_0_iff)
  also have "uint (u128_hi x) = take_bit 64 (drop_bit 64 (uint x))"
    by (simp only: u128_hi_def unsigned_ucast_eq unsigned_drop_bit_eq) (simp add: t)
  also have "\<dots> = uint x div 2 ^ 64"
  proof -
    have "uint x div 2 ^ 64 < 2 ^ 64" using uint_lt2p [of x] by simp
    then show ?thesis
      using uint_ge_0 [of x] by (simp add: take_bit_eq_mod drop_bit_eq_div pos_imp_zdiv_nonneg_iff)
  qed
  also have "\<dots> = 0 \<longleftrightarrow> uint x < 2 ^ 64"
    using uint_ge_0 [of x] by (auto simp: zdiv_eq_0_iff)
  finally show ?thesis .
qed

lemma mul_div_amount_eq:
  assumes "0 \<le> a" "a \<le> i64_max" "0 \<le> n" "n \<le> i64_max" "0 < d" "d \<le> i64_max"
  shows "mul_div_amount a n d =
     (if a * n div d < 2 ^ 64 then Inr (i64_of_u64 (word_of_int (a * n div d))) else Inl (Fc_assert ''''))"
proof -
  let ?r = "u128_of_i64 a * u128_of_i64 n div u128_of_i64 d"
  have u: "uint ?r = a * n div d" by (rule mul_div_word [OF assms])
  have c: "ucast ?r = (word_of_int (a * n div d) :: 64 word)" by (simp only: ucast_eq u)
  have h: "u128_hi ?r = 0 \<longleftrightarrow> a * n div d < 2 ^ 64" by (simp only: u128_hi_eq_0_iff u)
  show ?thesis
    by (simp only: mul_div_amount_def Let_def to_uint64_def h c fc_assert_def) simp
qed

lemma mul_div_amount_floor:
  assumes "0 \<le> a" "a \<le> i64_max" "0 \<le> n" "n \<le> i64_max" "0 < d" "d \<le> i64_max" "a * n div d \<le> i64_max"
  shows "mul_div_amount a n d = Inr (a * n div d)"
proof -
  have "0 \<le> a * n div d" using assms by (simp add: pos_imp_zdiv_nonneg_iff)
  then have "i64_of_u64 (word_of_int (a * n div d)) = a * n div d"
    using assms(7) by (simp add: i64_of_u64_def sint_of_int_i64 in_i64_def)
  then show ?thesis using assms by (simp add: mul_div_amount_eq)
qed

text \<open>A negative amount makes the 128-bit product huge, and the high half of the quotient nonzero.\<close>

lemma mul_div_amount_negative:
  assumes "i64_min \<le> a" "a < 0" "0 < n" "n \<le> i64_max" "0 < d" "d \<le> i64_max"
  shows "mul_div_amount a n d = Inl (Fc_assert '''')"
proof -
  let ?r = "u128_of_i64 a * u128_of_i64 n div u128_of_i64 d"
  have p: "- a * n \<le> 2 ^ 63 * 2 ^ 63" "0 < - a * n"
    using assms mult_mono [of "- a" "2 ^ 63" n "2 ^ 63"] by (auto simp: mult_neg_pos)
  have "uint (u128_of_i64 a * u128_of_i64 n) = (a * n) mod 2 ^ 128"
    by (simp add: u128_of_i64_def uint_word_of_int take_bit_eq_mod flip: of_int_mult)
  also have "\<dots> = (a * n + 2 ^ 128) mod 2 ^ 128" by simp
  also have "\<dots> = a * n + 2 ^ 128" using p by (intro mod_pos_pos_trivial) auto
  finally have "uint ?r = (a * n + 2 ^ 128) div d"
    using assms by (simp add: uint_div_distrib uint_u128_of_i64)
  moreover have "2 ^ 64 \<le> (a * n + 2 ^ 128) div d"
  proof -
    have "2 ^ 64 * d \<le> 2 ^ 64 * 2 ^ 63" using assms by simp
    also have "\<dots> \<le> a * n + 2 ^ 128" using p by simp
    finally show ?thesis using assms(5) by (simp add: le_div_iff)
  qed
  ultimately have "\<not> u128_hi ?r = 0" by (simp add: u128_hi_eq_0_iff)
  then show ?thesis by (simp add: mul_div_amount_def Let_def)
qed




section \<open>Tick pricing is a power of ten\<close>

lemma strip_tens_eq_1_iff:
  assumes "0 < t"
  shows "strip_tens t = 1 \<longleftrightarrow> (\<exists>k. t = 10 ^ k)"
  using assms
proof (induction t rule: strip_tens.induct)
  case (1 t)
  show ?case
  proof (cases "t > 9 \<and> t smod 10 = 0")
    case True
    then have d: "t mod 10 = 0" "t sdiv 10 = t div 10" "t = 10 * (t div 10)"
      by (auto simp: smod_int_alt_def sdiv_pos)
    then have "0 < t sdiv 10" using True by simp
    then have "strip_tens t = 1 \<longleftrightarrow> (\<exists>k. t sdiv 10 = 10 ^ k)"
      using True 1 by (simp add: strip_tens.simps [of t])
    also have "\<dots> \<longleftrightarrow> (\<exists>k. t = 10 ^ k)"
    proof
      assume "\<exists>k. t sdiv 10 = 10 ^ k"
      then obtain k where "t div 10 = 10 ^ k" using d by auto
      then have "t = 10 ^ Suc k" using d(3) by simp
      then show "\<exists>k. t = 10 ^ k" by blast
    next
      assume "\<exists>k. t = 10 ^ k"
      then obtain k where k: "t = 10 ^ k" by blast
      then have "k \<noteq> 0" using True by (cases k) auto
      then have "t sdiv 10 = 10 ^ (k - 1)" using k d(2) by (cases k) auto
      then show "\<exists>k. t sdiv 10 = 10 ^ k" by blast
    qed
    finally show ?thesis .
  next
    case False
    have "t = 1" if "t = 10 ^ k" for k
    proof (cases k)
      case (Suc n)
      then have t: "t = 10 * 10 ^ n" using that by simp
      moreover have "1 \<le> (10::int) ^ n" by simp
      ultimately have "t > 9" by linarith
      then show ?thesis using False t by (simp add: smod_int_alt_def)
    qed (use that in simp)
    then show ?thesis using False strip_tens.simps [of t] by (auto intro: exI [of _ 0])
  qed
qed

text \<open>
  C9: the tick pricing predicate and the throwing validator agree, and on a price with a positive
  quote amount they accept exactly the prices of a permitted pair whose quote is a power of ten.
\<close>

theorem tick_pricing_iff:
  assumes "0 < amount (quote p)"
  shows "(validate_tick_pricing p = Inr () \<longleftrightarrow> is_tick_pricing p) \<and>
    (is_tick_pricing p \<longleftrightarrow>
      (symbol (base p) = SBD_SYMBOL \<and> symbol (quote p) = freezone_SYMBOL \<or>
       symbol (base p) = freezone_SYMBOL \<and> space (symbol (quote p)) = SST_nai_space \<and> \<not> is_vesting (symbol (quote p))) \<and>
      (\<exists>k. amount (quote p) = 10 ^ k))"
  using strip_tens_eq_1_iff [OF assms]
  by (auto simp: validate_tick_pricing_def is_tick_pricing_def Let_def res_simps)

theorem tick_pricing_iff_witness:
  "is_tick_pricing \<lparr>base = mk_asset 7 SBD_SYMBOL, quote = mk_asset 1000 freezone_SYMBOL\<rparr> \<and>
   validate_tick_pricing \<lparr>base = mk_asset 7 SBD_SYMBOL, quote = mk_asset 1000 freezone_SYMBOL\<rparr> = Inr ()"
proof -
  have "\<exists>k. (1000::int) = 10 ^ k" by (rule exI [of _ 3]) simp
  then show ?thesis
    using tick_pricing_iff [of "\<lparr>base = mk_asset 7 SBD_SYMBOL, quote = mk_asset 1000 freezone_SYMBOL\<rparr>"] by simp
qed

end
