(* ===== verification/Objects.thy ===== *)
theory Objects
  imports Asset
begin

text \<open>
  The objects of the chain database: one record per \<^verbatim>\<open>multi_index\<close> object class, with the fields of
  the class (prefixed by a short name of the class, since record fields are global constants) and
  the default values of its member initialisers.  Object ids are not stored (an account id is represented by the name of the account): a container is the
  list of its objects in the order of their ids, and is searched by its other unique keys.
\<close>

type_synonym account_name_type = string
type_synonym public_key_type = string
type_synonym time_point_sec = "32 word"

section \<open>Configuration constants\<close>

definition freezone_NULL_ACCOUNT :: account_name_type where "freezone_NULL_ACCOUNT = ''null''"
definition freezone_PROXY_TO_SELF_ACCOUNT :: account_name_type where "freezone_PROXY_TO_SELF_ACCOUNT = ''''"
definition freezone_TREASURY_ACCOUNT :: account_name_type where "freezone_TREASURY_ACCOUNT = ''freezone.dao''"
definition freezone_100_PERCENT :: int where "freezone_100_PERCENT = 10000"
definition freezone_MAX_PROXY_RECURSION_DEPTH :: nat where "freezone_MAX_PROXY_RECURSION_DEPTH = 4"
definition freezone_SECONDS_PER_YEAR :: int where "freezone_SECONDS_PER_YEAR = 60 * 60 * 24 * 365"
definition freezone_SBD_INTEREST_COMPOUND_INTERVAL_SEC :: int where
  "freezone_SBD_INTEREST_COMPOUND_INTERVAL_SEC = 60 * 60 * 24 * 30"
definition freezone_BLOCKS_PER_DAY :: int where "freezone_BLOCKS_PER_DAY = 24 * 60 * 60 div 3"
definition freezone_VOTING_MANA_REGENERATION_SECONDS :: int where
  "freezone_VOTING_MANA_REGENERATION_SECONDS = 5 * 60 * 60 * 24"

definition time_point_sec_maximum :: time_point_sec where "time_point_sec_maximum = 0xffffffff"

text \<open>
  The difference of two times in seconds, an \<^verbatim>\<open>int64_t\<close>; it may be negative.
\<close>

definition seconds_between :: "time_point_sec \<Rightarrow> time_point_sec \<Rightarrow> int" where
  "seconds_between later earlier = uint later - uint earlier"

section \<open>Accounts\<close>

record manabar =
  current_mana :: int
  last_update_time :: "32 word"

definition manabar_default :: manabar where
  "manabar_default = \<lparr>current_mana = 0, last_update_time = 0\<rparr>"

record account_object =
  acc_name :: account_name_type
  acc_memo_key :: public_key_type
  acc_proxy :: account_name_type
  acc_last_account_update :: time_point_sec
  acc_created :: time_point_sec
  acc_mined :: bool
  acc_recovery_account :: account_name_type
  acc_reset_account :: account_name_type
  acc_last_account_recovery :: time_point_sec
  acc_comment_count :: "32 word"
  acc_lifetime_vote_count :: "32 word"
  acc_post_count :: "32 word"
  acc_can_vote :: bool
  acc_voting_manabar :: manabar
  acc_downvote_manabar :: manabar
  acc_balance :: asset
  acc_savings_balance :: asset
  acc_sbd_balance :: asset
  acc_sbd_seconds :: "128 word"
  acc_sbd_seconds_last_update :: time_point_sec
  acc_sbd_last_interest_payment :: time_point_sec
  acc_savings_sbd_balance :: asset
  acc_savings_sbd_seconds :: "128 word"
  acc_savings_sbd_seconds_last_update :: time_point_sec
  acc_savings_sbd_last_interest_payment :: time_point_sec
  acc_savings_withdraw_requests :: "8 word"
  acc_reward_sbd_balance :: asset
  acc_reward_freezone_balance :: asset
  acc_reward_vesting_balance :: asset
  acc_reward_vesting_freezone :: asset
  acc_curation_rewards :: share_type
  acc_posting_rewards :: share_type
  acc_vesting_shares :: asset
  acc_delegated_vesting_shares :: asset
  acc_received_vesting_shares :: asset
  acc_vesting_withdraw_rate :: asset
  acc_next_vesting_withdrawal :: time_point_sec
  acc_withdrawn :: share_type
  acc_to_withdraw :: share_type
  acc_withdraw_routes :: "16 word"
  acc_proxied_vsf_votes :: "share_type list"
  acc_witnesses_voted_for :: "16 word"
  acc_last_post :: time_point_sec
  acc_last_root_post :: time_point_sec
  acc_last_post_edit :: time_point_sec
  acc_last_vote_time :: time_point_sec
  acc_post_bandwidth :: "32 word"
  acc_pending_claimed_accounts :: share_type

definition account_object_default :: account_object where
  "account_object_default = \<lparr>
     acc_name = '''', acc_memo_key = '''', acc_proxy = '''',
     acc_last_account_update = 0, acc_created = 0, acc_mined = True,
     acc_recovery_account = '''', acc_reset_account = freezone_NULL_ACCOUNT, acc_last_account_recovery = 0,
     acc_comment_count = 0, acc_lifetime_vote_count = 0, acc_post_count = 0,
     acc_can_vote = True, acc_voting_manabar = manabar_default, acc_downvote_manabar = manabar_default,
     acc_balance = mk_asset 0 freezone_SYMBOL, acc_savings_balance = mk_asset 0 freezone_SYMBOL,
     acc_sbd_balance = mk_asset 0 SBD_SYMBOL, acc_sbd_seconds = 0,
     acc_sbd_seconds_last_update = 0, acc_sbd_last_interest_payment = 0,
     acc_savings_sbd_balance = mk_asset 0 SBD_SYMBOL, acc_savings_sbd_seconds = 0,
     acc_savings_sbd_seconds_last_update = 0, acc_savings_sbd_last_interest_payment = 0,
     acc_savings_withdraw_requests = 0,
     acc_reward_sbd_balance = mk_asset 0 SBD_SYMBOL, acc_reward_freezone_balance = mk_asset 0 freezone_SYMBOL,
     acc_reward_vesting_balance = mk_asset 0 VESTS_SYMBOL, acc_reward_vesting_freezone = mk_asset 0 freezone_SYMBOL,
     acc_curation_rewards = 0, acc_posting_rewards = 0,
     acc_vesting_shares = mk_asset 0 VESTS_SYMBOL, acc_delegated_vesting_shares = mk_asset 0 VESTS_SYMBOL,
     acc_received_vesting_shares = mk_asset 0 VESTS_SYMBOL, acc_vesting_withdraw_rate = mk_asset 0 VESTS_SYMBOL,
     acc_next_vesting_withdrawal = time_point_sec_maximum, acc_withdrawn = 0, acc_to_withdraw = 0,
     acc_withdraw_routes = 0, acc_proxied_vsf_votes = [0, 0, 0, 0], acc_witnesses_voted_for = 0,
     acc_last_post = 0, acc_last_root_post = 0, acc_last_post_edit = 0, acc_last_vote_time = 0,
     acc_post_bandwidth = 0, acc_pending_claimed_accounts = 0\<rparr>"

text \<open>\<^verbatim>\<open>std::accumulate\<close> over the proxied votes, with the checked addition of \<^verbatim>\<open>share_type\<close>.\<close>

definition accumulate :: "share_type list \<Rightarrow> share_type \<Rightarrow> share_type result" where
  "accumulate xs init = rfold (\<lambda>x acc. safe_add acc x) xs init"

definition witness_vote_weight :: "account_object \<Rightarrow> share_type result" where
  "witness_vote_weight a = accumulate (acc_proxied_vsf_votes a) (amount (acc_vesting_shares a))"

definition proxied_vsf_votes_total :: "account_object \<Rightarrow> share_type result" where
  "proxied_vsf_votes_total a = accumulate (acc_proxied_vsf_votes a) 0"

record vesting_delegation_object =
  vd_delegator :: account_name_type
  vd_delegatee :: account_name_type
  vd_vesting_shares :: asset
  vd_min_delegation_time :: time_point_sec

record vesting_delegation_expiration_object =
  vde_delegator :: account_name_type
  vde_vesting_shares :: asset
  vde_expiration :: time_point_sec

section \<open>Global properties\<close>

record dynamic_global_property_object =
  gp_head_block_number :: "32 word"
  gp_head_block_id :: "8 word list"
  gp_time :: time_point_sec
  gp_current_witness :: account_name_type
  gp_total_pow :: "64 word"
  gp_num_pow_witnesses :: "32 word"
  gp_virtual_supply :: asset
  gp_current_supply :: asset
  gp_confidential_supply :: asset
  gp_init_sbd_supply :: asset
  gp_current_sbd_supply :: asset
  gp_confidential_sbd_supply :: asset
  gp_total_vesting_fund_freezone :: asset
  gp_total_vesting_shares :: asset
  gp_total_reward_fund_freezone :: asset
  gp_total_reward_shares2 :: "128 word"
  gp_pending_rewarded_vesting_shares :: asset
  gp_pending_rewarded_vesting_freezone :: asset
  gp_sbd_interest_rate :: "16 word"
  gp_sbd_print_rate :: "16 word"
  gp_maximum_block_size :: "32 word"
  gp_required_actions_partition_percent :: "16 word"
  gp_current_aslot :: "64 word"
  gp_recent_slots_filled :: "128 word"
  gp_participation_count :: "8 word"
  gp_last_irreversible_block_num :: "32 word"
  gp_target_votes_per_period :: "32 word"
  gp_delegation_return_period :: "32 word"
  gp_reverse_auction_seconds :: "64 word"
  gp_available_account_subsidies :: int
  gp_sbd_stop_percent :: "16 word"
  gp_sbd_start_percent :: "16 word"
  gp_next_maintenance_time :: time_point_sec
  gp_last_budget_time :: time_point_sec
  gp_content_reward_percent :: "16 word"
  gp_vesting_reward_percent :: "16 word"
  gp_sps_fund_percent :: "16 word"
  gp_sps_interval_ledger :: asset
  gp_downvote_pool_percent :: "16 word"
  gp_SST_creation_fee :: asset

definition dynamic_global_property_object_default :: dynamic_global_property_object where
  "dynamic_global_property_object_default = \<lparr>
     gp_head_block_number = 0, gp_head_block_id = replicate 20 0, gp_time = 0, gp_current_witness = '''',
     gp_total_pow = -1, gp_num_pow_witnesses = 0,
     gp_virtual_supply = mk_asset 0 freezone_SYMBOL, gp_current_supply = mk_asset 0 freezone_SYMBOL,
     gp_confidential_supply = mk_asset 0 freezone_SYMBOL, gp_init_sbd_supply = mk_asset 0 SBD_SYMBOL,
     gp_current_sbd_supply = mk_asset 0 SBD_SYMBOL, gp_confidential_sbd_supply = mk_asset 0 SBD_SYMBOL,
     gp_total_vesting_fund_freezone = mk_asset 0 freezone_SYMBOL, gp_total_vesting_shares = mk_asset 0 VESTS_SYMBOL,
     gp_total_reward_fund_freezone = mk_asset 0 freezone_SYMBOL, gp_total_reward_shares2 = 0,
     gp_pending_rewarded_vesting_shares = mk_asset 0 VESTS_SYMBOL,
     gp_pending_rewarded_vesting_freezone = mk_asset 0 freezone_SYMBOL,
     gp_sbd_interest_rate = 0, gp_sbd_print_rate = 10000, gp_maximum_block_size = 0,
     gp_required_actions_partition_percent = 0, gp_current_aslot = 0, gp_recent_slots_filled = 0,
     gp_participation_count = 0, gp_last_irreversible_block_num = 0, gp_target_votes_per_period = 40,
     gp_delegation_return_period = 604800, gp_reverse_auction_seconds = 0, gp_available_account_subsidies = 0,
     gp_sbd_stop_percent = 0, gp_sbd_start_percent = 0, gp_next_maintenance_time = 0, gp_last_budget_time = 0,
     gp_content_reward_percent = 7500, gp_vesting_reward_percent = 1500, gp_sps_fund_percent = 0,
     gp_sps_interval_ledger = mk_asset 0 SBD_SYMBOL, gp_downvote_pool_percent = 0,
     gp_SST_creation_fee = mk_asset 1000 SBD_SYMBOL\<rparr>"

definition get_vesting_share_price :: "dynamic_global_property_object \<Rightarrow> price result" where
  "get_vesting_share_price g =
     (if amount (gp_total_vesting_fund_freezone g) = 0 \<or> amount (gp_total_vesting_shares g) = 0
      then mk_price (mk_asset 1000 freezone_SYMBOL) (mk_asset 1000000 VESTS_SYMBOL)
      else mk_price (gp_total_vesting_shares g) (gp_total_vesting_fund_freezone g))"

definition get_reward_vesting_share_price :: "dynamic_global_property_object \<Rightarrow> price result" where
  "get_reward_vesting_share_price g =
     rbind (asset_add (gp_total_vesting_shares g) (gp_pending_rewarded_vesting_shares g)) (\<lambda>b.
     rbind (asset_add (gp_total_vesting_fund_freezone g) (gp_pending_rewarded_vesting_freezone g)) (\<lambda>q.
     mk_price b q))"

section \<open>Requests, orders and escrows\<close>

record convert_request_object =
  cr_owner :: account_name_type
  cr_requestid :: "32 word"
  cr_amount :: asset
  cr_conversion_date :: time_point_sec

record escrow_object =
  esc_escrow_id :: "32 word"
  esc_from :: account_name_type
  esc_to :: account_name_type
  esc_agent :: account_name_type
  esc_ratification_deadline :: time_point_sec
  esc_escrow_expiration :: time_point_sec
  esc_sbd_balance :: asset
  esc_freezone_balance :: asset
  esc_pending_fee :: asset
  esc_to_approved :: bool
  esc_agent_approved :: bool
  esc_disputed :: bool

definition esc_is_approved :: "escrow_object \<Rightarrow> bool" where
  "esc_is_approved e \<longleftrightarrow> esc_to_approved e \<and> esc_agent_approved e"

record savings_withdraw_object =
  sw_from :: account_name_type
  sw_to :: account_name_type
  sw_memo :: string
  sw_request_id :: "32 word"
  sw_amount :: asset
  sw_complete :: time_point_sec

record limit_order_object =
  lo_created :: time_point_sec
  lo_expiration :: time_point_sec
  lo_seller :: account_name_type
  lo_orderid :: "32 word"
  lo_for_sale :: share_type
  lo_sell_price :: price

definition get_market :: "limit_order_object \<Rightarrow> asset_symbol_type \<times> asset_symbol_type" where
  "get_market lo =
     (let p = lo_sell_price lo in
      if symbol (base p) < symbol (quote p) then (symbol (base p), symbol (quote p))
      else (symbol (quote p), symbol (base p)))"

definition amount_for_sale :: "limit_order_object \<Rightarrow> asset" where
  "amount_for_sale lo = mk_asset (lo_for_sale lo) (symbol (base (lo_sell_price lo)))"

definition amount_to_receive :: "limit_order_object \<Rightarrow> asset result" where
  "amount_to_receive lo = asset_mul_price (amount_for_sale lo) (lo_sell_price lo)"

record liquidity_reward_balance_object =
  lr_owner :: account_name_type
  lr_freezone_volume :: int
  lr_sbd_volume :: int
  lr_weight :: "128 word"
  lr_last_update :: time_point_sec

record withdraw_vesting_route_object =
  wr_from_account :: account_name_type
  wr_to_account :: account_name_type
  wr_percent :: "16 word"
  wr_auto_vest :: bool

record decline_voting_rights_request_object =
  dv_account :: account_name_type
  dv_effective_date :: time_point_sec

datatype curve_id =
    curve_quadratic | curve_bounded | curve_linear | curve_square_root | curve_convergent_linear | curve_convergent_square_root

record reward_fund_object =
  rf_name :: string
  rf_reward_balance :: asset
  rf_recent_claims :: "128 word"
  rf_last_update :: time_point_sec
  rf_content_constant :: "128 word"
  rf_percent_curation_rewards :: "16 word"
  rf_percent_content_rewards :: "16 word"
  rf_author_reward_curve :: curve_id
  rf_curation_reward_curve :: curve_id

record feed_history_object =
  fh_current_median_history :: price
  fh_price_history :: "price list"

section \<open>Token objects\<close>

datatype SST_phase =
    phase_setup | phase_setup_completed | phase_ico | phase_ico_completed | phase_launch_failed | phase_launch_success

text \<open>The comparison \<^verbatim>\<open>phase <= SST_phase::launch_failed\<close> on the enumeration values.\<close>

definition phase_le_launch_failed :: "SST_phase \<Rightarrow> bool" where
  "phase_le_launch_failed p \<longleftrightarrow> p \<noteq> phase_launch_success"

record SST_market_maker_state =
  mm_freezone_balance :: asset
  mm_token_balance :: asset
  mm_reserve_ratio :: "32 word"

record SST_token_object =
  tok_liquid_symbol :: asset_symbol_type
  tok_control_account :: account_name_type
  tok_desired_ticker :: string
  tok_phase :: SST_phase
  tok_current_supply :: share_type
  tok_total_vesting_fund_SST :: share_type
  tok_total_vesting_shares :: share_type
  tok_total_vesting_fund_ballast :: share_type
  tok_total_vesting_shares_ballast :: share_type
  tok_pending_rewarded_vesting_shares :: share_type
  tok_pending_rewarded_vesting_SST :: share_type
  tok_reward_balance :: asset
  tok_recent_claims :: "128 word"
  tok_last_reward_update :: time_point_sec
  tok_last_virtual_emission_time :: time_point_sec
  tok_market_maker :: SST_market_maker_state
  tok_allow_voting :: bool
  tok_cashout_window_seconds :: "32 word"
  tok_reverse_auction_window_seconds :: "32 word"
  tok_vote_regeneration_period_seconds :: "32 word"
  tok_votes_per_regeneration_period :: "32 word"
  tok_content_constant :: "128 word"
  tok_percent_curation_rewards :: "16 word"
  tok_author_reward_curve :: curve_id
  tok_curation_reward_curve :: curve_id
  tok_allow_downvotes :: bool
  tok_max_supply :: int

definition SST_INITIAL_VESTING_PER_UNIT :: int where "SST_INITIAL_VESTING_PER_UNIT = 1000000"

text \<open>
  \<^verbatim>\<open>std::pow( 10, decimals )\<close> is exact for the decimals a symbol can have; the product with the
  initial vesting ratio is plain \<^verbatim>\<open>int64_t\<close> arithmetic and does not overflow for them.
\<close>

definition initial_vesting_share_price :: "SST_token_object \<Rightarrow> price result" where
  "initial_vesting_share_price t =
     (let one_SST = 10 ^ unat (decimals (tok_liquid_symbol t))
      in mk_price (mk_asset (one_SST * SST_INITIAL_VESTING_PER_UNIT) (get_paired_symbol (tok_liquid_symbol t)))
                  (mk_asset one_SST (tok_liquid_symbol t)))"

definition tok_get_vesting_share_price :: "SST_token_object \<Rightarrow> price result" where
  "tok_get_vesting_share_price t =
     (if tok_total_vesting_fund_ballast t = 0 \<or> tok_total_vesting_shares_ballast t = 0
      then initial_vesting_share_price t
      else
        rbind (safe_add (tok_total_vesting_shares_ballast t) (tok_total_vesting_shares t)) (\<lambda>sh.
        rbind (safe_add (tok_total_vesting_fund_ballast t) (tok_total_vesting_fund_SST t)) (\<lambda>fund.
        mk_price (mk_asset sh (get_paired_symbol (tok_liquid_symbol t))) (mk_asset fund (tok_liquid_symbol t)))))"

definition tok_get_reward_vesting_share_price :: "SST_token_object \<Rightarrow> price result" where
  "tok_get_reward_vesting_share_price t =
     (if tok_total_vesting_fund_ballast t = 0 \<or> tok_total_vesting_shares_ballast t = 0
      then initial_vesting_share_price t
      else
        rbind (safe_add (tok_total_vesting_shares_ballast t) (tok_total_vesting_shares t)) (\<lambda>sh1.
        rbind (safe_add sh1 (tok_pending_rewarded_vesting_shares t)) (\<lambda>sh.
        rbind (safe_add (tok_total_vesting_fund_ballast t) (tok_total_vesting_fund_SST t)) (\<lambda>fund1.
        rbind (safe_add fund1 (tok_pending_rewarded_vesting_SST t)) (\<lambda>fund.
        mk_price (mk_asset sh (get_paired_symbol (tok_liquid_symbol t))) (mk_asset fund (tok_liquid_symbol t)))))))"

record SST_ico_object =
  ico_symbol :: asset_symbol_type
  ico_contribution_begin_time :: time_point_sec
  ico_contribution_end_time :: time_point_sec
  ico_launch_time :: time_point_sec
  ico_freezone_satoshi_min :: share_type
  ico_min_unit_ratio :: "32 word"
  ico_max_unit_ratio :: "32 word"
  ico_contributed :: asset
  ico_processed_contributions :: share_type

record account_regular_balance_object =
  arb_name :: account_name_type
  arb_liquid :: asset
  arb_vesting_shares :: asset
  arb_delegated_vesting_shares :: asset
  arb_received_vesting_shares :: asset
  arb_vesting_withdraw_rate :: asset
  arb_next_vesting_withdrawal :: time_point_sec
  arb_withdrawn :: share_type
  arb_to_withdraw :: share_type
  arb_voting_manabar :: manabar
  arb_downvote_manabar :: manabar
  arb_last_vote_time :: time_point_sec

definition arb_default :: account_regular_balance_object where
  "arb_default = \<lparr>
     arb_name = '''', arb_liquid = asset_default, arb_vesting_shares = asset_default,
     arb_delegated_vesting_shares = asset_default, arb_received_vesting_shares = asset_default,
     arb_vesting_withdraw_rate = asset_default, arb_next_vesting_withdrawal = time_point_sec_maximum,
     arb_withdrawn = 0, arb_to_withdraw = 0, arb_voting_manabar = manabar_default,
     arb_downvote_manabar = manabar_default, arb_last_vote_time = 0\<rparr>"

definition arb_initialize_assets ::
    "asset_symbol_type \<Rightarrow> account_regular_balance_object \<Rightarrow> account_regular_balance_object" where
  "arb_initialize_assets s b = b\<lparr>
     arb_liquid := mk_asset 0 s,
     arb_vesting_shares := mk_asset 0 (get_paired_symbol s),
     arb_delegated_vesting_shares := mk_asset 0 (get_paired_symbol s),
     arb_received_vesting_shares := mk_asset 0 (get_paired_symbol s),
     arb_vesting_withdraw_rate := mk_asset 0 (get_paired_symbol s)\<rparr>"

definition arb_key :: "account_regular_balance_object \<Rightarrow> account_name_type \<times> asset_symbol_type" where
  "arb_key b = (arb_name b, symbol (arb_liquid b))"

record account_rewards_balance_object =
  arw_name :: account_name_type
  arw_pending_liquid :: asset
  arw_pending_vesting_shares :: asset
  arw_pending_vesting_value :: asset

definition arw_initialize_assets ::
    "asset_symbol_type \<Rightarrow> account_rewards_balance_object \<Rightarrow> account_rewards_balance_object" where
  "arw_initialize_assets s b = b\<lparr>
     arw_pending_liquid := mk_asset 0 s,
     arw_pending_vesting_shares := mk_asset 0 (get_paired_symbol s),
     arw_pending_vesting_value := mk_asset 0 s\<rparr>"

definition arw_key :: "account_rewards_balance_object \<Rightarrow> account_name_type \<times> asset_symbol_type" where
  "arw_key b = (arw_name b, symbol (arw_pending_liquid b))"

section \<open>Witnesses\<close>

record chain_properties =
  cp_account_creation_fee :: asset
  cp_maximum_block_size :: "32 word"
  cp_sbd_interest_rate :: "16 word"
  cp_account_subsidy_budget :: int
  cp_account_subsidy_decay :: "32 word"

datatype witness_schedule_type = sched_elected | sched_timeshare | sched_miner | sched_none

record witness_object =
  wit_owner :: account_name_type
  wit_created :: time_point_sec
  wit_url :: string
  wit_total_missed :: "32 word"
  wit_last_aslot :: "64 word"
  wit_last_confirmed_block_num :: "64 word"
  wit_pow_worker :: "64 word"
  wit_signing_key :: public_key_type
  wit_props :: chain_properties
  wit_sbd_exchange_rate :: price
  wit_last_sbd_exchange_update :: time_point_sec
  wit_votes :: share_type
  wit_schedule :: witness_schedule_type
  wit_virtual_last_update :: "128 word"
  wit_virtual_position :: "128 word"
  wit_virtual_scheduled_time :: "128 word"
  wit_last_work :: string
  wit_running_version :: "32 word"
  wit_hardfork_version_vote :: "32 word"
  wit_hardfork_time_vote :: time_point_sec
  wit_available_witness_account_subsidies :: int

record witness_vote_object =
  wv_witness :: account_name_type
  wv_account :: account_name_type

end
