(* ===== verification/Database.thy ===== *)
theory Database
  imports Objects
begin

text \<open>
  The chain state (\<^verbatim>\<open>chain::database\<close>) and its accessors: the object containers the modelled code
  reads and writes, the number of processed hardforks and the log of virtual operations.  A C++
  reference to an object is the key of the object: it is read again from the current state where
  the code reads through the reference.
\<close>

datatype virtual_operation =
    interest_operation account_name_type asset
  | fill_order_operation account_name_type "32 word" asset account_name_type "32 word" asset
  | fill_convert_request_operation account_name_type "32 word" asset asset
  | fill_transfer_from_savings_operation account_name_type account_name_type asset "32 word" string
  | fill_vesting_withdraw_operation account_name_type account_name_type asset asset
  | return_vesting_delegation_operation account_name_type asset
  | clear_null_account_balance_operation "asset list"

record witness_schedule_object =
  wso_current_virtual_time :: "128 word"
  wso_next_shuffle_block_num :: "32 word"
  wso_current_shuffled_witnesses :: "account_name_type list"
  wso_num_scheduled_witnesses :: "8 word"
  wso_elected_weight :: "8 word"
  wso_timeshare_weight :: "8 word"
  wso_miner_weight :: "8 word"
  wso_witness_pay_normalization_factor :: "32 word"
  wso_median_props :: chain_properties
  wso_majority_version :: "32 word"
  wso_max_voted_witnesses :: "8 word"
  wso_max_miner_witnesses :: "8 word"
  wso_max_runner_witnesses :: "8 word"
  wso_hardfork_required_witnesses :: "8 word"

record database =
  accounts :: "account_object list"
  dgpo :: dynamic_global_property_object
  feed_history :: feed_history_object
  processed_hardforks :: nat
  limit_orders :: "limit_order_object list"
  convert_requests :: "convert_request_object list"
  escrows :: "escrow_object list"
  savings_withdraws :: "savings_withdraw_object list"
  reward_funds :: "reward_fund_object list"
  SST_tokens :: "SST_token_object list"
  SST_icos :: "SST_ico_object list"
  regular_balances :: "account_regular_balance_object list"
  rewards_balances :: "account_rewards_balance_object list"
  liquidity_reward_balances :: "liquidity_reward_balance_object list"
  vesting_delegations :: "vesting_delegation_object list"
  delegation_expirations :: "vesting_delegation_expiration_object list"
  withdraw_vesting_routes :: "withdraw_vesting_route_object list"
  decline_requests :: "decline_voting_rights_request_object list"
  witnesses :: "witness_object list"
  witness_votes :: "witness_vote_object list"
  witness_schedule :: witness_schedule_object
  vops :: "virtual_operation list"

definition head_block_time :: "database \<Rightarrow> time_point_sec" where
  "head_block_time db = gp_time (dgpo db)"

definition has_hardfork :: "database \<Rightarrow> nat \<Rightarrow> bool" where
  "has_hardfork db hardfork \<longleftrightarrow> processed_hardforks db > hardfork"

definition current_median_history :: "database \<Rightarrow> price" where
  "current_median_history db = fh_current_median_history (feed_history db)"

definition push_virtual_operation :: "database \<Rightarrow> virtual_operation \<Rightarrow> database" where
  "push_virtual_operation db op = db\<lparr>vops := vops db @ [op]\<rparr>"

definition get_account :: "database \<Rightarrow> account_name_type \<Rightarrow> account_object result" where
  "get_account db name = get_row acc_name name (accounts db)"

definition set_account :: "account_object \<Rightarrow> database \<Rightarrow> database" where
  "set_account a db = db\<lparr>accounts := update_row acc_name (acc_name a) a (accounts db)\<rparr>"

definition cr_key :: "convert_request_object \<Rightarrow> account_name_type \<times> 32 word" where
  "cr_key c = (cr_owner c, cr_requestid c)"

definition esc_key :: "escrow_object \<Rightarrow> account_name_type \<times> 32 word" where
  "esc_key e = (esc_from e, esc_escrow_id e)"

definition sw_key :: "savings_withdraw_object \<Rightarrow> account_name_type \<times> 32 word" where
  "sw_key s = (sw_from s, sw_request_id s)"

definition lo_key :: "limit_order_object \<Rightarrow> account_name_type \<times> 32 word" where
  "lo_key lo = (lo_seller lo, lo_orderid lo)"

definition get_escrow :: "database \<Rightarrow> account_name_type \<Rightarrow> 32 word \<Rightarrow> escrow_object result" where
  "get_escrow db name escrow_id = get_row esc_key (name, escrow_id) (escrows db)"

definition get_limit_order :: "database \<Rightarrow> account_name_type \<Rightarrow> 32 word \<Rightarrow> limit_order_object result" where
  "get_limit_order db name orderid =
     get_row lo_key (name, if has_hardfork db 6 then orderid else and orderid 0x0000FFFF) (limit_orders db)"

definition get_savings_withdraw :: "database \<Rightarrow> account_name_type \<Rightarrow> 32 word \<Rightarrow> savings_withdraw_object result" where
  "get_savings_withdraw db owner request_id = get_row sw_key (owner, request_id) (savings_withdraws db)"

definition get_token :: "database \<Rightarrow> asset_symbol_type \<Rightarrow> SST_token_object result" where
  "get_token db s = get_row tok_liquid_symbol s (SST_tokens db)"

definition set_token :: "SST_token_object \<Rightarrow> database \<Rightarrow> database" where
  "set_token t db = db\<lparr>SST_tokens := update_row tok_liquid_symbol (tok_liquid_symbol t) t (SST_tokens db)\<rparr>"

definition get_witness :: "database \<Rightarrow> account_name_type \<Rightarrow> witness_object result" where
  "get_witness db name = get_row wit_owner name (witnesses db)"

definition set_witness :: "witness_object \<Rightarrow> database \<Rightarrow> database" where
  "set_witness w db = db\<lparr>witnesses := update_row wit_owner (wit_owner w) w (witnesses db)\<rparr>"

lemma get_account_eq_Inr [res_simps]:
  "get_account db name = Inr a \<longleftrightarrow> find_row acc_name name (accounts db) = Some a"
  by (simp add: get_account_def res_simps)

lemma get_token_eq_Inr [res_simps]:
  "get_token db s = Inr t \<longleftrightarrow> find_row tok_liquid_symbol s (SST_tokens db) = Some t"
  by (simp add: get_token_def res_simps)

lemma get_account_name: "get_account db name = Inr a \<Longrightarrow> acc_name a = name"
  by (auto simp: res_simps dest: find_row_key)

text \<open>The database before any object has been created, used to build concrete states.\<close>

definition empty_database :: database where
  "empty_database = \<lparr>
     accounts = [], dgpo = dynamic_global_property_object_default,
     feed_history = \<lparr>fh_current_median_history = price_default, fh_price_history = []\<rparr>,
     processed_hardforks = 0, limit_orders = [], convert_requests = [], escrows = [],
     savings_withdraws = [], reward_funds = [], SST_tokens = [], SST_icos = [], regular_balances = [],
     rewards_balances = [], liquidity_reward_balances = [], vesting_delegations = [],
     delegation_expirations = [], withdraw_vesting_routes = [], decline_requests = [], witnesses = [],
     witness_votes = [],
     witness_schedule = \<lparr>wso_current_virtual_time = 0, wso_next_shuffle_block_num = 1,
       wso_current_shuffled_witnesses = replicate 21 '''', wso_num_scheduled_witnesses = 1,
       wso_elected_weight = 1, wso_timeshare_weight = 5, wso_miner_weight = 1,
       wso_witness_pay_normalization_factor = 25,
       wso_median_props = \<lparr>cp_account_creation_fee = mk_asset 1 freezone_SYMBOL,
         cp_maximum_block_size = 131072, cp_sbd_interest_rate = 1000,
         cp_account_subsidy_budget = 797, cp_account_subsidy_decay = 347321\<rparr>,
       wso_majority_version = 0, wso_max_voted_witnesses = 19, wso_max_miner_witnesses = 1,
       wso_max_runner_witnesses = 1, wso_hardfork_required_witnesses = 17\<rparr>,
     vops = []\<rparr>"

section \<open>Holdings and supplies\<close>

text \<open>
  The quantities \<^verbatim>\<open>validate_invariants\<close> and \<^verbatim>\<open>validate_SST_invariants\<close> compare, for any symbol: \<open>held\<close>
  sums the amounts of the symbol in every object that owns some, \<open>issued\<close> what the global counters
  say exists, \<open>surplus\<close> is the difference, which is zero in a sound state.
\<close>

definition amt :: "asset_symbol_type \<Rightarrow> asset \<Rightarrow> int" where
  "amt s a = (if symbol a = s then amount a else 0)"

definition account_held :: "asset_symbol_type \<Rightarrow> account_object \<Rightarrow> int" where
  "account_held s a =
     amt s (acc_balance a) + amt s (acc_savings_balance a) + amt s (acc_reward_freezone_balance a) +
     amt s (acc_sbd_balance a) + amt s (acc_savings_sbd_balance a) + amt s (acc_reward_sbd_balance a) +
     amt s (acc_vesting_shares a) + amt s (acc_reward_vesting_balance a)"

definition escrow_held :: "asset_symbol_type \<Rightarrow> escrow_object \<Rightarrow> int" where
  "escrow_held s e = amt s (esc_freezone_balance e) + amt s (esc_sbd_balance e) + amt s (esc_pending_fee e)"

definition token_held :: "asset_symbol_type \<Rightarrow> SST_token_object \<Rightarrow> int" where
  "token_held s t =
     amt s (mm_freezone_balance (tok_market_maker t)) + amt s (mm_token_balance (tok_market_maker t)) +
     amt s (tok_reward_balance t) +
     amt s (mk_asset (tok_total_vesting_fund_SST t) (tok_liquid_symbol t)) +
     amt s (mk_asset (tok_pending_rewarded_vesting_SST t) (tok_liquid_symbol t))"

definition token_issued :: "asset_symbol_type \<Rightarrow> SST_token_object \<Rightarrow> int" where
  "token_issued s t =
     amt s (mk_asset (tok_current_supply t) (tok_liquid_symbol t)) +
     amt s (mk_asset (tok_total_vesting_shares t) (get_paired_symbol (tok_liquid_symbol t))) +
     amt s (mk_asset (tok_pending_rewarded_vesting_shares t) (get_paired_symbol (tok_liquid_symbol t)))"

definition ico_held :: "SST_token_object list \<Rightarrow> asset_symbol_type \<Rightarrow> SST_ico_object \<Rightarrow> int" where
  "ico_held toks s i =
     (case find_row tok_liquid_symbol (ico_symbol i) toks of
        None \<Rightarrow> 0
      | Some t \<Rightarrow>
          if phase_le_launch_failed (tok_phase t)
          then amt s (mk_asset (amount (ico_contributed i) - ico_processed_contributions i) freezone_SYMBOL)
          else amt s (mk_asset (amount (ico_contributed i)) freezone_SYMBOL))"

definition gp_held :: "asset_symbol_type \<Rightarrow> dynamic_global_property_object \<Rightarrow> int" where
  "gp_held s g =
     amt s (gp_total_vesting_fund_freezone g) + amt s (gp_total_reward_fund_freezone g) +
     amt s (gp_pending_rewarded_vesting_freezone g)"

definition gp_issued :: "asset_symbol_type \<Rightarrow> dynamic_global_property_object \<Rightarrow> int" where
  "gp_issued s g =
     amt s (gp_current_supply g) + amt s (gp_current_sbd_supply g) + amt s (gp_init_sbd_supply g) +
     amt s (gp_total_vesting_shares g) + amt s (gp_pending_rewarded_vesting_shares g)"

definition arb_held :: "asset_symbol_type \<Rightarrow> account_regular_balance_object \<Rightarrow> int" where
  "arb_held s b = amt s (arb_liquid b) + amt s (arb_vesting_shares b)"

definition arw_held :: "asset_symbol_type \<Rightarrow> account_rewards_balance_object \<Rightarrow> int" where
  "arw_held s b = amt s (arw_pending_liquid b) + amt s (arw_pending_vesting_shares b)"

definition held :: "asset_symbol_type \<Rightarrow> database \<Rightarrow> int" where
  "held s db =
     sum_rows (account_held s) (accounts db) +
     sum_rows (\<lambda>c. amt s (cr_amount c)) (convert_requests db) +
     sum_rows (\<lambda>lo. amt s (amount_for_sale lo)) (limit_orders db) +
     sum_rows (escrow_held s) (escrows db) +
     sum_rows (\<lambda>w. amt s (sw_amount w)) (savings_withdraws db) +
     sum_rows (\<lambda>r. amt s (rf_reward_balance r)) (reward_funds db) +
     sum_rows (ico_held (SST_tokens db) s) (SST_icos db) +
     sum_rows (token_held s) (SST_tokens db) +
     sum_rows (arb_held s) (regular_balances db) +
     sum_rows (arw_held s) (rewards_balances db) +
     gp_held s (dgpo db)"

definition issued :: "asset_symbol_type \<Rightarrow> database \<Rightarrow> int" where
  "issued s db = gp_issued s (dgpo db) + sum_rows (token_issued s) (SST_tokens db)"

definition surplus :: "asset_symbol_type \<Rightarrow> database \<Rightarrow> int" where
  "surplus s db = held s db - issued s db"

lemma amt_mk_asset [simp]: "amt s (mk_asset a t) = (if t = s then a else 0)"
  by (simp add: amt_def)

lemma amt_zero [simp]: "amount a = 0 \<Longrightarrow> amt s a = 0"
  by (simp add: amt_def)

lemma amt_add: "asset_add a b = Inr c \<Longrightarrow> amt s c = amt s a + amt s b"
  by (auto simp: amt_def dest!: asset_add_value)

lemma amt_sub: "asset_sub a b = Inr c \<Longrightarrow> amt s c = amt s a - amt s b"
  by (auto simp: amt_def dest!: asset_sub_value)

lemma amt_neg: "asset_neg a = Inr c \<Longrightarrow> amt s c = - amt s a"
  by (auto simp: amt_def dest!: asset_neg_value)

lemmas amt_ops = amt_add amt_sub amt_neg

lemma surplus_vops [simp]: "surplus s (db\<lparr>vops := v\<rparr>) = surplus s db"
  by (simp add: surplus_def held_def issued_def)

lemma surplus_push [simp]: "surplus s (push_virtual_operation db v) = surplus s db"
  by (simp add: push_virtual_operation_def)

text \<open>Effect of replacing one object of a table.\<close>

lemma surplus_set_account [ledger_simps]:
  "find_row acc_name (acc_name a) (accounts db) = Some a0 \<Longrightarrow>
   surplus s (set_account a db) = surplus s db + account_held s a - account_held s a0"
  by (simp add: surplus_def held_def issued_def set_account_def table_simps)

lemma surplus_dgpo [ledger_simps]:
  "surplus s (db\<lparr>dgpo := g\<rparr>) = surplus s db + (gp_held s g - gp_issued s g) - (gp_held s (dgpo db) - gp_issued s (dgpo db))"
  by (simp add: surplus_def held_def issued_def)

lemma ico_held_set_token:
  assumes "find_row tok_liquid_symbol (tok_liquid_symbol t) toks = Some t0" "tok_phase t = tok_phase t0"
  shows "ico_held (update_row tok_liquid_symbol (tok_liquid_symbol t) t toks) s i = ico_held toks s i"
  using assms by (auto simp: ico_held_def table_simps split: option.splits)

lemma surplus_set_token [ledger_simps]:
  assumes "find_row tok_liquid_symbol (tok_liquid_symbol t) (SST_tokens db) = Some t0" "tok_phase t = tok_phase t0"
  shows "surplus s (set_token t db) =
     surplus s db + (token_held s t - token_issued s t) - (token_held s t0 - token_issued s t0)"
proof -
  have "ico_held (update_row tok_liquid_symbol (tok_liquid_symbol t) t (SST_tokens db)) s = ico_held (SST_tokens db) s"
    by (rule ext) (rule ico_held_set_token [OF assms])
  then show ?thesis
    using assms(1) by (simp add: surplus_def held_def issued_def set_token_def table_simps)
qed

end
