(* ===== verification/Balances.thy ===== *)
theory Balances
  imports Database
begin

text \<open>
  The balance functions of \<^verbatim>\<open>chain/database.cpp\<close>, through which every evaluator moves funds:
  \<^verbatim>\<open>get_balance\<close>, \<^verbatim>\<open>adjust_balance\<close>, \<^verbatim>\<open>adjust_savings_balance\<close>, \<^verbatim>\<open>adjust_reward_balance\<close>,
  \<^verbatim>\<open>adjust_supply\<close> and what they call.  Each is shown to change the surplus of every symbol by
  exactly the amount it is asked to add (interest that is paid on the way is issued in the same
  step), which is the contract of the locale of credits below; the client lemmas of the
  evaluators are proved once from that contract.
\<close>

section \<open>Reading balances\<close>

definition sst_key :: "account_name_type \<Rightarrow> asset_symbol_type \<Rightarrow> account_name_type \<times> asset_symbol_type" where
  "sst_key name s = (name, if is_vesting s then get_paired_symbol s else s)"

definition get_balance_SST :: "database \<Rightarrow> account_name_type \<Rightarrow> asset_symbol_type \<Rightarrow> asset" where
  "get_balance_SST db name s =
     (case find_row arb_key (sst_key name s) (regular_balances db) of
        None \<Rightarrow> mk_asset 0 s
      | Some arbo \<Rightarrow> if is_vesting s then arb_vesting_shares arbo else arb_liquid arbo)"

definition get_balance_of :: "database \<Rightarrow> account_object \<Rightarrow> asset_symbol_type \<Rightarrow> asset result" where
  "get_balance_of db a s =
     (if s = freezone_SYMBOL then Inr (acc_balance a)
      else if s = SBD_SYMBOL then Inr (acc_sbd_balance a)
      else fc_assert (space s = SST_nai_space) ''Invalid symbol: ${s}''
             (Inr (get_balance_SST db (acc_name a) s)))"

definition get_balance :: "database \<Rightarrow> account_name_type \<Rightarrow> asset_symbol_type \<Rightarrow> asset result" where
  "get_balance db name s =
     (if space s = SST_nai_space then Inr (get_balance_SST db name s)
      else rbind (get_account db name) (\<lambda>a. get_balance_of db a s))"

definition get_savings_balance :: "account_object \<Rightarrow> asset_symbol_type \<Rightarrow> asset result" where
  "get_savings_balance a s =
     (if s = freezone_SYMBOL then Inr (acc_savings_balance a)
      else if s = SBD_SYMBOL then Inr (acc_savings_sbd_balance a)
      else Inl (Fc_assert ''!\"invalid symbol\"''))"

section \<open>Interest\<close>

text \<open>
  The interest block that \<^verbatim>\<open>modify_balance\<close> and \<^verbatim>\<open>adjust_savings_balance\<close> share, on the four
  fields of the account it works on (balance, SBD seconds, their last update, last payment).
\<close>

definition interest_on :: "128 word \<Rightarrow> 16 word \<Rightarrow> 128 word" where
  "interest_on secs rate =
     (secs div u128_of_i64 freezone_SECONDS_PER_YEAR) * ucast rate div u128_of_i64 freezone_100_PERCENT"

definition issue_interest :: "database \<Rightarrow> asset \<Rightarrow> database result" where
  "issue_interest db interest_paid =
     (let g = dgpo db in
      rbind (asset_add (gp_current_sbd_supply g) interest_paid) (\<lambda>sbd_supply.
      rbind (asset_mul_price interest_paid (current_median_history db)) (\<lambda>v.
      rbind (asset_add (gp_virtual_supply g) v) (\<lambda>virtual_supply.
      Inr (db\<lparr>dgpo := g\<lparr>gp_current_sbd_supply := sbd_supply, gp_virtual_supply := virtual_supply\<rparr>\<rparr>)))))"

definition accrue_interest ::
    "database \<Rightarrow> account_name_type \<Rightarrow> asset \<Rightarrow> 128 word \<Rightarrow> time_point_sec \<Rightarrow> time_point_sec
     \<Rightarrow> ((asset \<times> 128 word \<times> time_point_sec \<times> time_point_sec) \<times> database) result" where
  "accrue_interest db name bal seconds last_update last_payment =
     (let now = head_block_time db in
      if last_update \<noteq> now then
        (let secs = seconds + u128_of_i64 (amount bal) * u128_of_i64 (seconds_between now last_update) in
         if secs > 0 \<and> seconds_between now last_payment > freezone_SBD_INTEREST_COMPOUND_INTERVAL_SEC then
           (let interest = interest_on secs (gp_sbd_interest_rate (dgpo db)) in
            rbind (to_uint64 interest) (\<lambda>i.
            let interest_paid = mk_asset (i64_of_u64 i) SBD_SYMBOL in
            rbind (asset_add bal interest_paid) (\<lambda>bal'.
            let db' = (if interest > 0 then push_virtual_operation db (interest_operation name interest_paid) else db) in
            rbind (issue_interest db' interest_paid) (\<lambda>db''.
            Inr ((bal', 0, now, now), db'')))))
         else Inr ((bal, secs, now, last_payment), db))
      else Inr ((bal, seconds, last_update, last_payment), db))"

section \<open>Changing balances\<close>

definition modify_balance :: "database \<Rightarrow> account_name_type \<Rightarrow> asset \<Rightarrow> bool \<Rightarrow> database result" where
  "modify_balance db name delta check_balance =
     rbind (get_account db name) (\<lambda>a.
     if symbol delta = freezone_SYMBOL then
       rbind (asset_add (acc_balance a) delta) (\<lambda>b.
       fc_assert (\<not> check_balance \<or> amount b \<ge> 0) ''Insufficient freezone funds''
         (Inr (set_account (a\<lparr>acc_balance := b\<rparr>) db)))
     else if symbol delta = SBD_SYMBOL then
       rbind (accrue_interest db name (acc_sbd_balance a) (acc_sbd_seconds a)
                (acc_sbd_seconds_last_update a) (acc_sbd_last_interest_payment a))
         (\<lambda>((bal, secs, last_update, last_payment), db').
       rbind (asset_add bal delta) (\<lambda>b.
       fc_assert (\<not> check_balance \<or> amount b \<ge> 0) ''Insufficient SBD funds''
         (Inr (set_account (a\<lparr>acc_sbd_balance := b, acc_sbd_seconds := secs,
            acc_sbd_seconds_last_update := last_update, acc_sbd_last_interest_payment := last_payment\<rparr>) db'))))
     else if symbol delta = VESTS_SYMBOL then
       rbind (asset_add (acc_vesting_shares a) delta) (\<lambda>b.
       fc_assert (\<not> check_balance \<or> amount b \<ge> 0) ''Insufficient VESTS funds''
         (Inr (set_account (a\<lparr>acc_vesting_shares := b\<rparr>) db)))
     else Inl (Fc_assert ''invalid symbol''))"

text \<open>
  Token balances live in objects of their own.  \<open>regular_add\<close> and \<open>rewards_add\<close> are the
  \<^verbatim>\<open>add_to_balance\<close> of the two balance operators; \<^verbatim>\<open>get_combined_balance\<close> is the sum the caller
  checks.  The object of the first positive credit is created on the fly.
\<close>

definition regular_add :: "asset \<Rightarrow> account_regular_balance_object \<Rightarrow> account_regular_balance_object result" where
  "regular_add delta b =
     (if is_vesting (symbol delta)
      then rbind (asset_add (arb_vesting_shares b) delta) (\<lambda>v. Inr (b\<lparr>arb_vesting_shares := v\<rparr>))
      else rbind (asset_add (arb_liquid b) delta) (\<lambda>v. Inr (b\<lparr>arb_liquid := v\<rparr>)))"

definition regular_combined :: "asset \<Rightarrow> account_regular_balance_object \<Rightarrow> share_type result" where
  "regular_combined delta b =
     rbind (asset_add (if is_vesting (symbol delta) then arb_vesting_shares b else arb_liquid b) delta) (\<lambda>r.
     Inr (amount r))"

definition adjust_SST_regular :: "database \<Rightarrow> account_name_type \<Rightarrow> asset \<Rightarrow> bool \<Rightarrow> database result" where
  "adjust_SST_regular db name delta check_account =
     (let liquid_symbol = (if is_vesting (symbol delta) then get_paired_symbol (symbol delta) else symbol delta) in
      case find_row arb_key (name, liquid_symbol) (regular_balances db) of
        None \<Rightarrow>
          fc_assert (amount delta \<ge> 0) ''Insufficient SST ${SST} funds'' (
          if amount delta = 0 then Inr db
          else
            rbind (if check_account then rbind (get_account db name) (\<lambda>_. Inr ()) else Inr ()) (\<lambda>_.
            rbind (regular_add delta ((arb_initialize_assets liquid_symbol arb_default)\<lparr>arb_name := name\<rparr>)) (\<lambda>b.
            rbind (insert_row arb_key b (regular_balances db)) (\<lambda>bs.
            Inr (db\<lparr>regular_balances := bs\<rparr>)))))
      | Some bo \<Rightarrow>
          rbind (regular_combined delta bo) (\<lambda>r.
          fc_assert (r \<ge> 0) ''Insufficient SST ${SST} funds'' (
          rbind (regular_add delta bo) (\<lambda>b.
          Inr (db\<lparr>regular_balances := update_row arb_key (name, liquid_symbol) b (regular_balances db)\<rparr>)))))"

definition rewards_add :: "asset \<Rightarrow> asset \<Rightarrow> account_rewards_balance_object \<Rightarrow> account_rewards_balance_object result" where
  "rewards_add value_delta share_delta b =
     (if amount share_delta \<noteq> 0
      then rbind (asset_add (arw_pending_vesting_value b) value_delta) (\<lambda>v.
           rbind (asset_add (arw_pending_vesting_shares b) share_delta) (\<lambda>sh.
           Inr (b\<lparr>arw_pending_vesting_value := v, arw_pending_vesting_shares := sh\<rparr>)))
      else rbind (asset_add (arw_pending_liquid b) value_delta) (\<lambda>v. Inr (b\<lparr>arw_pending_liquid := v\<rparr>)))"

definition rewards_combined :: "asset \<Rightarrow> asset \<Rightarrow> account_rewards_balance_object \<Rightarrow> share_type result" where
  "rewards_combined value_delta share_delta b =
     rbind (asset_add (if amount share_delta \<noteq> 0 then arw_pending_vesting_value b else arw_pending_liquid b) value_delta)
       (\<lambda>r. Inr (amount r))"

definition adjust_SST_rewards :: "database \<Rightarrow> account_name_type \<Rightarrow> asset \<Rightarrow> asset \<Rightarrow> bool \<Rightarrow> database result" where
  "adjust_SST_rewards db name value_delta share_delta check_account =
     fc_assert (\<not> is_vesting (symbol value_delta) \<and> is_vesting (symbol share_delta)) '''' (
     let liquid_symbol = (if is_vesting (symbol value_delta) then get_paired_symbol (symbol value_delta) else symbol value_delta) in
     case find_row arw_key (name, liquid_symbol) (rewards_balances db) of
       None \<Rightarrow>
         fc_assert (amount value_delta \<ge> 0) ''Insufficient SST ${SST} funds'' (
         if amount value_delta = 0 then Inr db
         else
           rbind (if check_account then rbind (get_account db name) (\<lambda>_. Inr ()) else Inr ()) (\<lambda>_.
           rbind (rewards_add value_delta share_delta
                    ((arw_initialize_assets liquid_symbol
                       \<lparr>arw_name = '''', arw_pending_liquid = asset_default,
                        arw_pending_vesting_shares = asset_default, arw_pending_vesting_value = asset_default\<rparr>)
                     \<lparr>arw_name := name\<rparr>)) (\<lambda>b.
           rbind (insert_row arw_key b (rewards_balances db)) (\<lambda>bs.
           Inr (db\<lparr>rewards_balances := bs\<rparr>)))))
     | Some bo \<Rightarrow>
         rbind (rewards_combined value_delta share_delta bo) (\<lambda>r.
         fc_assert (r \<ge> 0) ''Insufficient SST ${SST} funds'' (
         rbind (rewards_add value_delta share_delta bo) (\<lambda>b.
         Inr (db\<lparr>rewards_balances := update_row arw_key (name, liquid_symbol) b (rewards_balances db)\<rparr>)))))"

definition adjust_supply :: "database \<Rightarrow> asset \<Rightarrow> bool \<Rightarrow> database result" where
  "adjust_supply db delta adjust_vesting =
     (if space (symbol delta) = SST_nai_space then
        rbind (get_token db (symbol delta)) (\<lambda>t.
        rbind (safe_add (tok_current_supply t) (amount delta)) (\<lambda>n.
        fc_assert (n \<ge> 0) '''' (Inr (set_token (t\<lparr>tok_current_supply := n\<rparr>) db))))
      else
        (let check_supply = has_hardfork db 20; g = dgpo db;
             adjust_vesting = (if uint (gp_head_block_number g) < freezone_BLOCKS_PER_DAY * 7 then False else adjust_vesting)
         in
         if symbol delta = freezone_SYMBOL then
           rbind (if adjust_vesting \<and> amount delta > 0 then safe_mul (amount delta) 9 else Inr 0) (\<lambda>nv.
           let new_vesting = mk_asset nv freezone_SYMBOL in
           rbind (asset_add delta new_vesting) (\<lambda>d.
           rbind (asset_add (gp_current_supply g) d) (\<lambda>cs.
           rbind (asset_add (gp_virtual_supply g) d) (\<lambda>vs.
           rbind (asset_add (gp_total_vesting_fund_freezone g) new_vesting) (\<lambda>vf.
           fc_assert (\<not> check_supply \<or> amount cs \<ge> 0) '''' (
           Inr (db\<lparr>dgpo := g\<lparr>gp_current_supply := cs, gp_virtual_supply := vs,
                              gp_total_vesting_fund_freezone := vf\<rparr>\<rparr>)))))))
         else if symbol delta = SBD_SYMBOL then
           rbind (asset_add (gp_current_sbd_supply g) delta) (\<lambda>ss.
           rbind (asset_mul_price ss (current_median_history db)) (\<lambda>v.
           rbind (asset_add v (gp_current_supply g)) (\<lambda>vs.
           fc_assert (\<not> check_supply \<or> amount ss \<ge> 0) '''' (
           Inr (db\<lparr>dgpo := g\<lparr>gp_current_sbd_supply := ss, gp_virtual_supply := vs\<rparr>\<rparr>)))))
         else Inl (Fc_assert ''invalid symbol'')))"

definition check_available :: "asset result \<Rightarrow> asset \<Rightarrow> unit result" where
  "check_available balance delta =
     (if amount delta < 0 then
        rbind balance (\<lambda>available.
        rbind (asset_neg delta) (\<lambda>required.
        rbind (asset_ge available required) (\<lambda>ok.
        fc_assert ok ''Account ${acc} does not have sufficient funds for balance adjustment.'' (Inr ()))))
      else Inr ())"

text \<open>The overload on a name, and the overload on an account object (here its name).\<close>

definition adjust_balance :: "database \<Rightarrow> account_name_type \<Rightarrow> asset \<Rightarrow> database result" where
  "adjust_balance db name delta =
     rbind (check_available (get_balance db name (symbol delta)) delta) (\<lambda>_.
     if space (symbol delta) = SST_nai_space then
       (if name = freezone_NULL_ACCOUNT then rbind (asset_neg delta) (\<lambda>d. adjust_supply db d False)
        else adjust_SST_regular db name delta False)
     else modify_balance db name delta (has_hardfork db 20))"

definition adjust_balance_of :: "database \<Rightarrow> account_name_type \<Rightarrow> asset \<Rightarrow> database result" where
  "adjust_balance_of db name delta =
     rbind (get_account db name) (\<lambda>a.
     rbind (check_available (get_balance_of db a (symbol delta)) delta) (\<lambda>_.
     if space (symbol delta) = SST_nai_space then
       (if name = freezone_NULL_ACCOUNT then rbind (asset_neg delta) (\<lambda>d. adjust_supply db d False)
        else adjust_SST_regular db name delta False)
     else modify_balance db name delta (has_hardfork db 20)))"

definition adjust_savings_balance :: "database \<Rightarrow> account_name_type \<Rightarrow> asset \<Rightarrow> database result" where
  "adjust_savings_balance db name delta =
     rbind (get_account db name) (\<lambda>a.
     let check_balance = has_hardfork db 20 in
     if symbol delta = freezone_SYMBOL then
       rbind (asset_add (acc_savings_balance a) delta) (\<lambda>b.
       fc_assert (\<not> check_balance \<or> amount b \<ge> 0) ''Insufficient savings freezone funds''
         (Inr (set_account (a\<lparr>acc_savings_balance := b\<rparr>) db)))
     else if symbol delta = SBD_SYMBOL then
       rbind (accrue_interest db name (acc_savings_sbd_balance a) (acc_savings_sbd_seconds a)
                (acc_savings_sbd_seconds_last_update a) (acc_savings_sbd_last_interest_payment a))
         (\<lambda>((bal, secs, last_update, last_payment), db').
       rbind (asset_add bal delta) (\<lambda>b.
       fc_assert (\<not> check_balance \<or> amount b \<ge> 0) ''Insufficient savings SBD funds''
         (Inr (set_account (a\<lparr>acc_savings_sbd_balance := b, acc_savings_sbd_seconds := secs,
            acc_savings_sbd_seconds_last_update := last_update,
            acc_savings_sbd_last_interest_payment := last_payment\<rparr>) db'))))
     else Inl (Fc_assert ''!\"invalid symbol\"''))"

definition modify_reward_balance :: "database \<Rightarrow> account_name_type \<Rightarrow> asset \<Rightarrow> asset \<Rightarrow> bool \<Rightarrow> database result" where
  "modify_reward_balance db name value_delta share_delta check_balance =
     rbind (get_account db name) (\<lambda>a.
     if symbol value_delta = freezone_SYMBOL then
       (if amount share_delta = 0 then
          rbind (asset_add (acc_reward_freezone_balance a) value_delta) (\<lambda>b.
          fc_assert (\<not> check_balance \<or> amount b \<ge> 0) ''Insufficient reward freezone funds''
            (Inr (set_account (a\<lparr>acc_reward_freezone_balance := b\<rparr>) db)))
        else
          rbind (asset_add (acc_reward_vesting_freezone a) value_delta) (\<lambda>v.
          rbind (asset_add (acc_reward_vesting_balance a) share_delta) (\<lambda>b.
          fc_assert (\<not> check_balance \<or> amount b \<ge> 0) ''Insufficient reward VESTS funds''
            (Inr (set_account (a\<lparr>acc_reward_vesting_freezone := v, acc_reward_vesting_balance := b\<rparr>) db)))))
     else if symbol value_delta = SBD_SYMBOL then
       fc_assert (amount share_delta = 0) '''' (
       rbind (asset_add (acc_reward_sbd_balance a) value_delta) (\<lambda>b.
       fc_assert (\<not> check_balance \<or> amount b \<ge> 0) ''Insufficient reward SBD funds''
         (Inr (set_account (a\<lparr>acc_reward_sbd_balance := b\<rparr>) db))))
     else Inl (Fc_assert ''invalid symbol''))"

definition adjust_reward_balance :: "database \<Rightarrow> account_name_type \<Rightarrow> asset \<Rightarrow> asset \<Rightarrow> database result" where
  "adjust_reward_balance db name value_delta share_delta =
     fc_assert (\<not> is_vesting (symbol value_delta) \<and> is_vesting (symbol share_delta)) '''' (
     if space (symbol value_delta) = SST_nai_space then
       (if name = freezone_NULL_ACCOUNT then rbind (asset_neg value_delta) (\<lambda>d. adjust_supply db d False)
        else adjust_SST_rewards db name value_delta share_delta False)
     else modify_reward_balance db name value_delta share_delta (has_hardfork db 20))"

definition no_shares :: asset where "no_shares = mk_asset 0 VESTS_SYMBOL"

section \<open>What each function does to the surplus\<close>

lemma legacy_space_symbols:
  "space s \<noteq> SST_nai_space \<Longrightarrow> s = freezone_SYMBOL \<or> s = SBD_SYMBOL \<or> s = VESTS_SYMBOL"
  by (auto simp: space_def split: if_splits)

lemma issue_interest_surplus:
  "issue_interest db x = Inr db' \<Longrightarrow> surplus s db' = surplus s db - amt s x"
  by (auto simp: issue_interest_def Let_def res_simps ledger_simps gp_held_def gp_issued_def
      dest!: amt_ops [where s = s])

lemma issue_interest_accounts:
  "issue_interest db x = Inr db' \<Longrightarrow> accounts db' = accounts db"
  by (auto simp: issue_interest_def Let_def res_simps)

lemma push_accounts [simp]: "accounts (push_virtual_operation db v) = accounts db"
  by (simp add: push_virtual_operation_def)

lemma accrue_interest_accounts:
  "accrue_interest db name bal secs lu lp = Inr (r, db') \<Longrightarrow> accounts db' = accounts db"
  by (auto simp: accrue_interest_def Let_def res_simps split: if_splits dest: issue_interest_accounts)

lemma accrue_interest_surplus:
  "accrue_interest db name bal secs lu lp = Inr ((bal', r), db') \<Longrightarrow>
   surplus s db' = surplus s db - (amt s bal' - amt s bal)"
  by (auto simp: accrue_interest_def Let_def res_simps issue_interest_surplus split: if_splits
      dest!: amt_ops [where s = s])

lemma accrue_interest_effect:
  "accrue_interest db name bal secs lu lp = Inr ((bal', r), db') \<Longrightarrow>
   accounts db' = accounts db \<and> surplus s db' = surplus s db - (amt s bal' - amt s bal)"
  by (simp add: accrue_interest_accounts accrue_interest_surplus)

lemma modify_balance_surplus:
  assumes "modify_balance db name delta cb = Inr db'"
  shows "surplus s db' = surplus s db + amt s delta"
proof -
  obtain a where a: "find_row acc_name name (accounts db) = Some a"
    using assms by (auto simp: modify_balance_def res_simps)
  note n [simp] = find_row_key [OF a]
  show ?thesis
    using assms a
    by (auto simp: modify_balance_def res_simps ledger_simps account_held_def
        split: if_splits dest!: amt_ops [where s = s] accrue_interest_effect [where s = s])
qed

lemma adjust_savings_balance_surplus:
  assumes "adjust_savings_balance db name delta = Inr db'"
  shows "surplus s db' = surplus s db + amt s delta"
proof -
  obtain a where a: "find_row acc_name name (accounts db) = Some a"
    using assms by (auto simp: adjust_savings_balance_def Let_def res_simps)
  note n [simp] = find_row_key [OF a]
  show ?thesis
    using assms a
    by (auto simp: adjust_savings_balance_def Let_def res_simps ledger_simps account_held_def
        split: if_splits dest!: amt_ops [where s = s] accrue_interest_effect [where s = s])
qed

lemma surplus_regular_balances [ledger_simps]:
  "surplus s (db\<lparr>regular_balances := bs\<rparr>) =
   surplus s db + sum_rows (arb_held s) bs - sum_rows (arb_held s) (regular_balances db)"
  by (simp add: surplus_def held_def issued_def)

lemma surplus_rewards_balances [ledger_simps]:
  "surplus s (db\<lparr>rewards_balances := bs\<rparr>) =
   surplus s db + sum_rows (arw_held s) bs - sum_rows (arw_held s) (rewards_balances db)"
  by (simp add: surplus_def held_def issued_def)

lemma regular_add_held:
  "regular_add delta b = Inr b' \<Longrightarrow> arb_held s b' = arb_held s b + amt s delta"
  by (auto simp: regular_add_def res_simps arb_held_def split: if_splits dest!: amt_ops [where s = s])

lemma arb_held_fresh: "arb_held s ((arb_initialize_assets ls arb_default)\<lparr>arb_name := name\<rparr>) = 0"
  by (simp add: arb_held_def arb_initialize_assets_def)

lemma adjust_SST_regular_surplus:
  assumes "adjust_SST_regular db name delta ca = Inr db'"
  shows "surplus s db' = surplus s db + amt s delta"
  using assms
  by (auto simp: adjust_SST_regular_def Let_def res_simps ledger_simps table_simps arb_held_fresh
      split: option.splits if_splits dest!: regular_add_held [where s = s])

lemma adjust_supply_surplus:
  assumes "adjust_supply db delta av = Inr db'"
  shows "surplus s db' = surplus s db - amt s delta"
proof (cases "space (symbol delta) = SST_nai_space")
  case True
  then obtain t where t: "find_row tok_liquid_symbol (symbol delta) (SST_tokens db) = Some t"
    using assms by (auto simp: adjust_supply_def res_simps)
  note n [simp] = find_row_key [OF t]
  show ?thesis
    using True assms t
    by (auto simp: adjust_supply_def res_simps ledger_simps token_held_def token_issued_def amt_def
        dest!: safe_values)
next
  case False
  then show ?thesis
    using assms
    by (auto simp: adjust_supply_def Let_def res_simps ledger_simps gp_held_def gp_issued_def
        split: if_splits dest!: amt_ops [where s = s])
qed

lemma adjust_balance_surplus:
  assumes "adjust_balance db name delta = Inr db'"
  shows "surplus s db' = surplus s db + amt s delta"
  using assms
  by (auto simp: adjust_balance_def res_simps split: if_splits
      dest!: amt_neg [where s = s] adjust_supply_surplus [where s = s] adjust_SST_regular_surplus [where s = s]
        modify_balance_surplus [where s = s])

lemma adjust_balance_of_surplus:
  assumes "adjust_balance_of db name delta = Inr db'"
  shows "surplus s db' = surplus s db + amt s delta"
  using assms
  by (auto simp: adjust_balance_of_def res_simps split: if_splits
      dest!: amt_neg [where s = s] adjust_supply_surplus [where s = s] adjust_SST_regular_surplus [where s = s]
        modify_balance_surplus [where s = s])

lemma rewards_add_held:
  assumes "rewards_add v sh b = Inr b'"
  shows "arw_held s b' = arw_held s b + (if amount sh = 0 then amt s v else amt s sh)"
  using assms
  by (auto simp: rewards_add_def res_simps arw_held_def split: if_splits dest!: amt_ops [where s = s])

lemma adjust_reward_balance_surplus:
  assumes "adjust_reward_balance db name v sh = Inr db'" "amount sh = 0"
  shows "surplus s db' = surplus s db + amt s v"
proof (cases "space (symbol v) = SST_nai_space")
  case True
  then show ?thesis
    using assms
    by (auto simp: adjust_reward_balance_def adjust_SST_rewards_def Let_def res_simps ledger_simps table_simps
        arw_held_def arw_initialize_assets_def split: if_splits option.splits
        dest!: amt_neg [where s = s] adjust_supply_surplus [where s = s] rewards_add_held [where s = s])
next
  case False
  then obtain a where a: "find_row acc_name name (accounts db) = Some a"
    using assms by (auto simp: adjust_reward_balance_def modify_reward_balance_def res_simps)
  note n [simp] = find_row_key [OF a]
  show ?thesis
    using assms a False
    by (auto simp: adjust_reward_balance_def modify_reward_balance_def res_simps ledger_simps account_held_def
        split: if_splits dest!: amt_ops [where s = s])
qed

section \<open>The interface of the balance functions\<close>

text \<open>
  What a balance function promises: the amount it is asked to add is the amount by which the
  surplus of every symbol grows, and it changes no account name, no hardfork, no time and no
  container other than those that hold balances.
\<close>

definition same_frame :: "database \<Rightarrow> database \<Rightarrow> bool" where
  "same_frame db db' \<longleftrightarrow>
     processed_hardforks db' = processed_hardforks db \<and> head_block_time db' = head_block_time db \<and>
     feed_history db' = feed_history db \<and> limit_orders db' = limit_orders db \<and>
     convert_requests db' = convert_requests db \<and> escrows db' = escrows db \<and>
     savings_withdraws db' = savings_withdraws db \<and> reward_funds db' = reward_funds db \<and>
     SST_icos db' = SST_icos db \<and> vesting_delegations db' = vesting_delegations db \<and>
     delegation_expirations db' = delegation_expirations db \<and>
     withdraw_vesting_routes db' = withdraw_vesting_routes db \<and> witnesses db' = witnesses db \<and>
     witness_votes db' = witness_votes db \<and> map acc_name (accounts db') = map acc_name (accounts db)"

lemma same_frame_refl [simp]: "same_frame db db"
  by (simp add: same_frame_def)

lemma same_frame_trans: "same_frame db db1 \<Longrightarrow> same_frame db1 db2 \<Longrightarrow> same_frame db db2"
  by (simp add: same_frame_def)

locale credit =
  fixes credit :: "database \<Rightarrow> account_name_type \<Rightarrow> asset \<Rightarrow> database result"
  assumes credit_surplus: "credit db name x = Inr db' \<Longrightarrow> surplus s db' = surplus s db + amt s x"
    and credit_frame: "credit db name x = Inr db' \<Longrightarrow> same_frame db db'"
begin

text \<open>Taking an amount: the code credits its negation.\<close>

lemma debit_surplus:
  "rbind (asset_neg x) (credit db name) = Inr db' \<Longrightarrow> surplus s db' = surplus s db - amt s x"
  by (auto simp: res_simps dest!: amt_neg [where s = s] credit_surplus [where s = s])

lemma credit_all_surplus:
  "rfold (\<lambda>(n, x) d. credit d n x) xs db = Inr db' \<Longrightarrow>
   surplus s db' = surplus s db + sum_list (map (\<lambda>(n, x). amt s x) xs)"
  by (induction xs arbitrary: db) (auto simp: res_simps dest!: credit_surplus [where s = s])

end

text \<open>Two balance functions, of the debited and of the credited side: moving funds conserves.\<close>

locale movement = src: credit debit + dst: credit credit
  for debit :: "database \<Rightarrow> account_name_type \<Rightarrow> asset \<Rightarrow> database result"
    and credit :: "database \<Rightarrow> account_name_type \<Rightarrow> asset \<Rightarrow> database result"
begin

lemma move_conserves:
  assumes "rbind (asset_neg x) (\<lambda>m. rbind (debit db a m) (\<lambda>db1. credit db1 b x)) = Inr db'"
  shows "surplus s db' = surplus s db"
  using assms
  by (auto simp: res_simps dest!: amt_neg [where s = s] src.credit_surplus [where s = s] dst.credit_surplus [where s = s])

lemma move_frame:
  assumes "rbind (asset_neg x) (\<lambda>m. rbind (debit db a m) (\<lambda>db1. credit db1 b x)) = Inr db'"
  shows "same_frame db db'"
  using assms by (auto simp: res_simps dest!: src.credit_frame dst.credit_frame intro: same_frame_trans)

end

lemmas frame_defs = same_frame_def head_block_time_def set_account_def set_token_def push_virtual_operation_def

lemma issue_interest_frame: "issue_interest db x = Inr db' \<Longrightarrow> same_frame db db'"
  by (auto simp: issue_interest_def Let_def res_simps frame_defs)

lemma push_frame: "same_frame (push_virtual_operation db v) db' \<longleftrightarrow> same_frame db db'"
  by (simp add: frame_defs)

lemma accrue_interest_frame: "accrue_interest db name bal secs lu lp = Inr (r, db') \<Longrightarrow> same_frame db db'"
  by (auto simp: accrue_interest_def Let_def res_simps push_frame split: if_splits dest!: issue_interest_frame)

lemma set_account_frame [simp]: "same_frame db (set_account a db') \<longleftrightarrow> same_frame db db'"
  by (simp add: frame_defs table_simps)

lemma modify_balance_frame: "modify_balance db name delta cb = Inr db' \<Longrightarrow> same_frame db db'"
  by (auto simp: modify_balance_def res_simps split: if_splits dest!: accrue_interest_frame)

lemma adjust_supply_frame: "adjust_supply db delta av = Inr db' \<Longrightarrow> same_frame db db'"
  by (auto simp: adjust_supply_def Let_def res_simps frame_defs split: if_splits)

lemma adjust_SST_regular_frame: "adjust_SST_regular db name delta ca = Inr db' \<Longrightarrow> same_frame db db'"
  by (auto simp: adjust_SST_regular_def Let_def res_simps frame_defs split: if_splits option.splits)

lemma adjust_balance_frame: "adjust_balance db name delta = Inr db' \<Longrightarrow> same_frame db db'"
  by (auto simp: adjust_balance_def res_simps split: if_splits
      dest: adjust_supply_frame adjust_SST_regular_frame modify_balance_frame)

lemma adjust_balance_of_frame: "adjust_balance_of db name delta = Inr db' \<Longrightarrow> same_frame db db'"
  by (auto simp: adjust_balance_of_def res_simps split: if_splits
      dest: adjust_supply_frame adjust_SST_regular_frame modify_balance_frame)

lemma adjust_savings_balance_frame: "adjust_savings_balance db name delta = Inr db' \<Longrightarrow> same_frame db db'"
  by (auto simp: adjust_savings_balance_def Let_def res_simps split: if_splits dest!: accrue_interest_frame)

lemma adjust_reward_balance_frame: "adjust_reward_balance db name v sh = Inr db' \<Longrightarrow> same_frame db db'"
  by (auto simp: adjust_reward_balance_def modify_reward_balance_def adjust_SST_rewards_def Let_def res_simps frame_defs
      table_simps split: if_splits option.splits dest!: adjust_supply_frame)

interpretation balance: credit adjust_balance
  by unfold_locales (rule adjust_balance_surplus adjust_balance_frame, assumption)+

interpretation balance_of: credit adjust_balance_of
  by unfold_locales (rule adjust_balance_of_surplus adjust_balance_of_frame, assumption)+

interpretation savings: credit adjust_savings_balance
  by unfold_locales (rule adjust_savings_balance_surplus adjust_savings_balance_frame, assumption)+

interpretation rewards: credit "\<lambda>db name x. adjust_reward_balance db name x no_shares"
  by unfold_locales
    (auto simp: no_shares_def intro: adjust_reward_balance_surplus adjust_reward_balance_frame)

interpretation transfer: movement adjust_balance adjust_balance ..

interpretation to_savings: movement adjust_balance_of adjust_savings_balance ..

section \<open>Solvency\<close>

text \<open>No account and no token balance object owes anything.\<close>

definition account_solvent :: "account_object \<Rightarrow> bool" where
  "account_solvent a \<longleftrightarrow>
     0 \<le> amount (acc_balance a) \<and> 0 \<le> amount (acc_savings_balance a) \<and>
     0 \<le> amount (acc_sbd_balance a) \<and> 0 \<le> amount (acc_savings_sbd_balance a) \<and>
     0 \<le> amount (acc_vesting_shares a) \<and> 0 \<le> amount (acc_reward_freezone_balance a) \<and>
     0 \<le> amount (acc_reward_sbd_balance a) \<and> 0 \<le> amount (acc_reward_vesting_balance a)"

definition solvent :: "database \<Rightarrow> bool" where
  "solvent db \<longleftrightarrow>
     (\<forall>a \<in> set (accounts db). account_solvent a) \<and>
     (\<forall>b \<in> set (regular_balances db). 0 \<le> amount (arb_liquid b) \<and> 0 \<le> amount (arb_vesting_shares b))"

lemma solvent_set_account:
  "solvent db \<Longrightarrow> account_solvent a \<Longrightarrow> solvent (set_account a db)"
  using set_update_row [of acc_name "acc_name a" a "accounts db"]
  by (auto simp: solvent_def set_account_def)

lemma solvent_account: "solvent db \<Longrightarrow> find_row acc_name name (accounts db) = Some a \<Longrightarrow> account_solvent a"
  by (auto simp: solvent_def dest: find_row_in_set)

lemma solvent_cong:
  "accounts db' = accounts db \<Longrightarrow> regular_balances db' = regular_balances db \<Longrightarrow> solvent db' = solvent db"
  by (simp add: solvent_def)

lemma solvent_push [simp]: "solvent (push_virtual_operation db v) = solvent db"
  by (simp add: solvent_def push_virtual_operation_def)

lemma issue_interest_solvent: "issue_interest db x = Inr db' \<Longrightarrow> solvent db' = solvent db"
  by (auto simp: issue_interest_def Let_def res_simps solvent_def)

lemma accrue_interest_solvent:
  "accrue_interest db name bal secs lu lp = Inr (r, db') \<Longrightarrow> solvent db' = solvent db"
  by (auto simp: accrue_interest_def Let_def res_simps split: if_splits dest!: issue_interest_solvent)

lemma modify_balance_solvent:
  assumes "modify_balance db name delta True = Inr db'" "solvent db"
  shows "solvent db'"
proof -
  obtain a where a: "find_row acc_name name (accounts db) = Some a"
    using assms by (auto simp: modify_balance_def res_simps)
  have "account_solvent a" using solvent_account [OF assms(2) a] .
  then show ?thesis
    using assms a
    by (auto simp: modify_balance_def res_simps account_solvent_def split: if_splits
        intro!: solvent_set_account dest!: accrue_interest_solvent)
qed

lemma adjust_supply_solvent: "adjust_supply db delta av = Inr db' \<Longrightarrow> solvent db' = solvent db"
  by (auto simp: adjust_supply_def Let_def res_simps solvent_def set_token_def split: if_splits)

lemma asset_add_nonneg:
  "asset_add a b = Inr c \<Longrightarrow> 0 \<le> amount a \<Longrightarrow> 0 \<le> amount b \<Longrightarrow> 0 \<le> amount c"
  by (auto dest: asset_add_value)

lemma regular_add_nonneg:
  "regular_add delta b = Inr b' \<Longrightarrow> 0 \<le> amount delta \<Longrightarrow> 0 \<le> amount (arb_liquid b) \<Longrightarrow> 0 \<le> amount (arb_vesting_shares b)
   \<Longrightarrow> 0 \<le> amount (arb_liquid b') \<and> 0 \<le> amount (arb_vesting_shares b')"
  by (auto simp: regular_add_def res_simps split: if_splits intro: asset_add_nonneg)

lemma arb_fresh_amounts:
  "amount (arb_liquid (arb_initialize_assets ls b)) = 0"
  "amount (arb_vesting_shares (arb_initialize_assets ls b)) = 0"
  by (simp_all add: arb_initialize_assets_def)

lemma solvent_rewards_balances [simp]: "solvent (db\<lparr>rewards_balances := bs\<rparr>) = solvent db"
  by (simp add: solvent_def)

lemma solvent_update_regular:
  assumes "solvent db" "0 \<le> amount (arb_liquid b) \<and> 0 \<le> amount (arb_vesting_shares b)"
  shows "solvent (db\<lparr>regular_balances := update_row arb_key k b (regular_balances db)\<rparr>)"
  using set_update_row [of arb_key k b "regular_balances db"] assms by (auto simp: solvent_def)

lemma solvent_insert_regular:
  assumes "solvent db" "0 \<le> amount (arb_liquid b) \<and> 0 \<le> amount (arb_vesting_shares b)"
  shows "solvent (db\<lparr>regular_balances := regular_balances db @ [b]\<rparr>)"
  using assms by (auto simp: solvent_def)

lemma regular_combined_nonneg:
  "regular_combined delta b = Inr r \<Longrightarrow> regular_add delta b = Inr b' \<Longrightarrow> 0 \<le> r \<Longrightarrow>
   0 \<le> amount (arb_liquid b) \<Longrightarrow> 0 \<le> amount (arb_vesting_shares b) \<Longrightarrow>
   0 \<le> amount (arb_liquid b') \<and> 0 \<le> amount (arb_vesting_shares b')"
  by (auto simp: regular_add_def regular_combined_def res_simps split: if_splits)

lemma adjust_SST_regular_solvent:
  assumes "adjust_SST_regular db name delta ca = Inr db'" "solvent db"
  shows "solvent db'"
proof (cases "find_row arb_key (name, if is_vesting (symbol delta) then get_paired_symbol (symbol delta) else symbol delta)
    (regular_balances db)")
  case None
  then show ?thesis
    using assms unfolding adjust_SST_regular_def Let_def None option.case res_simps
    by (auto simp: res_simps arb_fresh_amounts split: if_splits intro!: solvent_insert_regular dest!: regular_add_nonneg)
next
  case (Some bo)
  have "0 \<le> amount (arb_liquid bo)" "0 \<le> amount (arb_vesting_shares bo)"
    using assms(2) find_row_in_set [OF Some] by (auto simp: solvent_def)
  then show ?thesis
    using assms unfolding adjust_SST_regular_def Let_def Some option.case
    by (auto simp: res_simps intro!: solvent_update_regular dest!: regular_combined_nonneg)
qed

lemma adjust_balance_solvent:
  assumes "adjust_balance db name delta = Inr db'" "has_hardfork db 20" "solvent db"
  shows "solvent db'"
  using assms
  by (auto simp: adjust_balance_def res_simps adjust_supply_solvent split: if_splits
      dest: adjust_SST_regular_solvent modify_balance_solvent)

lemma adjust_balance_of_solvent:
  assumes "adjust_balance_of db name delta = Inr db'" "has_hardfork db 20" "solvent db"
  shows "solvent db'"
  using assms
  by (auto simp: adjust_balance_of_def res_simps adjust_supply_solvent split: if_splits
      dest: adjust_SST_regular_solvent modify_balance_solvent)

lemma adjust_savings_balance_solvent:
  assumes "adjust_savings_balance db name delta = Inr db'" "has_hardfork db 20" "solvent db"
  shows "solvent db'"
proof -
  obtain a where a: "find_row acc_name name (accounts db) = Some a"
    using assms by (auto simp: adjust_savings_balance_def Let_def res_simps)
  have "account_solvent a" using solvent_account [OF assms(3) a] .
  then show ?thesis
    using assms a
    by (auto simp: adjust_savings_balance_def Let_def res_simps account_solvent_def split: if_splits
        intro!: solvent_set_account dest!: accrue_interest_solvent)
qed

lemma adjust_reward_balance_solvent:
  assumes "adjust_reward_balance db name v sh = Inr db'" "has_hardfork db 20" "solvent db"
  shows "solvent db'"
proof (cases "space (symbol v) = SST_nai_space")
  case True
  then show ?thesis
    using assms
    by (auto simp: adjust_reward_balance_def adjust_SST_rewards_def Let_def res_simps adjust_supply_solvent
        split: if_splits option.splits)
next
  case False
  then obtain a where a: "find_row acc_name name (accounts db) = Some a"
    using assms by (auto simp: adjust_reward_balance_def modify_reward_balance_def res_simps)
  have "account_solvent a" using solvent_account [OF assms(3) a] .
  then show ?thesis
    using assms a False
    by (auto simp: adjust_reward_balance_def modify_reward_balance_def res_simps account_solvent_def
        split: if_splits intro!: solvent_set_account)
qed

text \<open>The contract with solvency, from the hardfork on that checks balances.\<close>

locale solvent_credit = credit +
  assumes credit_solvent: "credit db name x = Inr db' \<Longrightarrow> has_hardfork db 20 \<Longrightarrow> solvent db \<Longrightarrow> solvent db'"
begin

lemma credit_all_solvent:
  "rfold (\<lambda>(n, x) d. credit d n x) xs db = Inr db' \<Longrightarrow> has_hardfork db 20 \<Longrightarrow> solvent db \<Longrightarrow> solvent db'"
proof (induction xs arbitrary: db)
  case (Cons p xs)
  obtain n x where p: "p = (n, x)" by (cases p)
  obtain db1 where 1: "credit db n x = Inr db1" "rfold (\<lambda>(n, x) d. credit d n x) xs db1 = Inr db'"
    using Cons.prems(1) by (auto simp: p res_simps)
  have "has_hardfork db1 20"
    using credit_frame [OF 1(1)] Cons.prems(2) by (simp add: has_hardfork_def same_frame_def)
  then show ?case using Cons.IH [OF 1(2)] credit_solvent [OF 1(1)] Cons.prems by blast
qed simp

end

interpretation balance: solvent_credit adjust_balance
  by unfold_locales (rule adjust_balance_solvent)

interpretation balance_of: solvent_credit adjust_balance_of
  by unfold_locales (rule adjust_balance_of_solvent)

interpretation savings: solvent_credit adjust_savings_balance
  by unfold_locales (rule adjust_savings_balance_solvent)

interpretation rewards: solvent_credit "\<lambda>db name x. adjust_reward_balance db name x no_shares"
  by unfold_locales (rule adjust_reward_balance_solvent)

lemma frame_hardfork: "same_frame db db' \<Longrightarrow> has_hardfork db' n = has_hardfork db n"
  by (simp add: same_frame_def has_hardfork_def)

locale solvent_movement = src: solvent_credit debit + dst: solvent_credit credit
  for debit :: "database \<Rightarrow> account_name_type \<Rightarrow> asset \<Rightarrow> database result"
    and credit :: "database \<Rightarrow> account_name_type \<Rightarrow> asset \<Rightarrow> database result"
begin

lemma move_solvent:
  assumes "rbind (asset_neg x) (\<lambda>m. rbind (debit db a m) (\<lambda>db1. credit db1 b x)) = Inr db'" "has_hardfork db 20" "solvent db"
  shows "solvent db'"
proof -
  obtain m db1 where 1: "debit db a m = Inr db1" "credit db1 b x = Inr db'"
    using assms(1) by (auto simp: res_simps)
  show ?thesis
    using dst.credit_solvent [OF 1(2)] src.credit_solvent [OF 1(1) assms(2,3)]
      frame_hardfork [OF src.credit_frame [OF 1(1)]] assms(2) by simp
qed

end

interpretation transfer: solvent_movement adjust_balance adjust_balance ..

interpretation to_savings: solvent_movement adjust_balance_of adjust_savings_balance ..

end
