(* ===== verification/Ledger.thy ===== *)
theory Ledger
  imports Balances
begin

text \<open>
  The abstract ledger that the balance functions implement: an account holds an integer of each
  symbol, and \<^verbatim>\<open>adjust_balance\<close> adds to one entry and changes no other, across the two
  representations the code uses (fields of the account for the native symbols, balance objects
  for tokens).
\<close>

unbundle bit_operations_syntax

section \<open>The abstract ledger\<close>

text \<open>
  The abstract view of the balances: what an account holds of a symbol, as an integer.
\<close>

definition ledger :: "database \<Rightarrow> account_name_type \<Rightarrow> asset_symbol_type \<Rightarrow> int" where
  "ledger db name s =
     (if space s = SST_nai_space then amount (get_balance_SST db name s)
      else case find_row acc_name name (accounts db) of
          None \<Rightarrow> 0
        | Some a \<Rightarrow>
            if s = freezone_SYMBOL then amount (acc_balance a)
            else if s = SBD_SYMBOL then amount (acc_sbd_balance a)
            else amount (acc_vesting_shares a))"

lemma paired_SST: "space s = SST_nai_space \<Longrightarrow> get_paired_symbol s = s XOR SST_ASSET_NUM_VESTING_MASK"
  by (simp add: get_paired_symbol_def)

lemma xor_right_cancel: "(a :: 'a :: len word) XOR m = b XOR m \<longleftrightarrow> a = b"
proof
  assume "a XOR m = b XOR m"
  then have "(a XOR m) XOR m = (b XOR m) XOR m" by simp
  then show "a = b" by (simp add: xor.assoc)
qed simp

lemma paired_inj:
  "space s = SST_nai_space \<Longrightarrow> space t = SST_nai_space \<Longrightarrow> get_paired_symbol s = get_paired_symbol t \<longleftrightarrow> s = t"
  by (simp add: paired_SST xor_right_cancel)

lemma sst_key_inj:
  assumes "space s = SST_nai_space" "space t = SST_nai_space" "is_vesting s = is_vesting t"
  shows "sst_key n s = sst_key m t \<longleftrightarrow> n = m \<and> s = t"
  using assms paired_inj by (auto simp: sst_key_def)

lemma regular_add_effect:
  assumes "regular_add delta b = Inr b'"
  shows "arb_key b' = arb_key b \<and>
    amount (if v then arb_vesting_shares b' else arb_liquid b') =
    amount (if v then arb_vesting_shares b else arb_liquid b) + (if v = is_vesting (symbol delta) then amount delta else 0)"
  using assms by (auto simp: regular_add_def arb_key_def res_simps split: if_splits dest!: asset_add_value)

lemma get_balance_SST_update:
  assumes "find_row arb_key k (regular_balances db) = Some b" "arb_key b' = arb_key b"
  shows "amount (get_balance_SST (db\<lparr>regular_balances := update_row arb_key k b' (regular_balances db)\<rparr>) n s) =
    (if sst_key n s = k then amount (if is_vesting s then arb_vesting_shares b' else arb_liquid b')
     else amount (get_balance_SST db n s))"
  using assms find_row_key [OF assms(1)]
  by (auto simp: get_balance_SST_def table_simps split: option.splits)

lemma get_balance_SST_insert:
  assumes "find_row arb_key (arb_key b) (regular_balances db) = None"
  shows "amount (get_balance_SST (db\<lparr>regular_balances := regular_balances db @ [b]\<rparr>) n s) =
    (if sst_key n s = arb_key b then amount (if is_vesting s then arb_vesting_shares b else arb_liquid b)
     else amount (get_balance_SST db n s))"
  using assms by (auto simp: get_balance_SST_def find_row_append split: option.splits)

lemma adjust_SST_regular_ledger:
  assumes "adjust_SST_regular db name delta ca = Inr db'" "space (symbol delta) = SST_nai_space" "space s = SST_nai_space"
  shows "amount (get_balance_SST db' n s) =
     amount (get_balance_SST db n s) + (if n = name \<and> s = symbol delta then amount delta else 0)"
proof -
  have key: "n = name \<and> s = symbol delta \<longleftrightarrow>
      sst_key n s = sst_key name (symbol delta) \<and> is_vesting s = is_vesting (symbol delta)"
    using sst_key_inj [OF assms(3,2), of n name] by auto
  show ?thesis
proof (cases "find_row arb_key (sst_key name (symbol delta)) (regular_balances db)")
  case None
  let ?ls = "if is_vesting (symbol delta) then get_paired_symbol (symbol delta) else symbol delta"
  let ?b0 = "(arb_initialize_assets ?ls arb_default)\<lparr>arb_name := name\<rparr>"
  have k0: "arb_key ?b0 = sst_key name (symbol delta)"
    by (simp add: arb_key_def sst_key_def arb_initialize_assets_def)
  consider "amount delta = 0" "db' = db"
    | b where "regular_add delta ?b0 = Inr b" "db' = db\<lparr>regular_balances := regular_balances db @ [b]\<rparr>"
    using assms(1) None unfolding adjust_SST_regular_def Let_def sst_key_def
    by (auto simp: res_simps split: if_splits)
  then show ?thesis
  proof cases
    case 2
    note e = regular_add_effect [OF 2(1)]
    have "arb_key b = sst_key name (symbol delta)" using e k0 by simp
    then have "amount (get_balance_SST db' n s) =
        (if sst_key n s = sst_key name (symbol delta)
         then if is_vesting s = is_vesting (symbol delta) then amount delta else 0
         else amount (get_balance_SST db n s))"
      using None e [of "is_vesting s"] by (simp add: 2(2) get_balance_SST_insert arb_fresh_amounts)
    moreover have "sst_key n s = sst_key name (symbol delta) \<Longrightarrow> amount (get_balance_SST db n s) = 0"
      using None by (simp add: get_balance_SST_def)
    ultimately show ?thesis using key by auto
  qed simp
next
  case (Some bo)
  then obtain b where b: "regular_add delta bo = Inr b"
    and db': "db' = db\<lparr>regular_balances := update_row arb_key (sst_key name (symbol delta)) b (regular_balances db)\<rparr>"
    using assms(1) unfolding adjust_SST_regular_def Let_def sst_key_def by (auto simp: res_simps)
  have "arb_key b = arb_key bo" using regular_add_effect [OF b] by simp
  then have "amount (get_balance_SST db' n s) =
      (if sst_key n s = sst_key name (symbol delta)
       then amount (get_balance_SST db n s) + (if is_vesting s = is_vesting (symbol delta) then amount delta else 0)
       else amount (get_balance_SST db n s))"
    using Some regular_add_effect [OF b, of "is_vesting s"]
    by (simp only: db' get_balance_SST_update) (auto simp: get_balance_SST_def)
  then show ?thesis using key by auto
qed
qed

lemma find_set_account:
  assumes "find_row acc_name name (accounts db) = Some a0" "acc_name a = name"
  shows "find_row acc_name n (accounts (set_account a db)) = (if n = name then Some a else find_row acc_name n (accounts db))"
  using assms by (auto simp: set_account_def table_simps)

lemma set_account_tables [simp]:
  "regular_balances (set_account a db) = regular_balances db" "SST_tokens (set_account a db) = SST_tokens db"
  "dgpo (set_account a db) = dgpo db" "limit_orders (set_account a db) = limit_orders db"
  "escrows (set_account a db) = escrows db" "savings_withdraws (set_account a db) = savings_withdraws db"
  "processed_hardforks (set_account a db) = processed_hardforks db"
  by (simp_all add: set_account_def)

lemma get_balance_SST_cong:
  "regular_balances db' = regular_balances db \<Longrightarrow> get_balance_SST db' n s = get_balance_SST db n s"
  by (simp add: get_balance_SST_def)

lemma accrue_interest_regular:
  "accrue_interest db name bal secs lu lp = Inr (r, db') \<Longrightarrow> regular_balances db' = regular_balances db"
  by (auto simp: accrue_interest_def issue_interest_def push_virtual_operation_def Let_def res_simps split: if_splits)

text \<open>Legacy balances other than SBD, which earns interest.\<close>

lemma modify_balance_ledger:
  assumes "modify_balance db name delta cb = Inr db'" "symbol delta \<noteq> SBD_SYMBOL" "space (symbol delta) \<noteq> SST_nai_space"
  shows "ledger db' n s = ledger db n s + (if n = name \<and> s = symbol delta then amount delta else 0)"
proof -
  obtain a where a: "find_row acc_name name (accounts db) = Some a"
    using assms(1) by (auto simp: modify_balance_def res_simps)
  note n = find_row_key [OF a]
  consider b where "symbol delta = freezone_SYMBOL" "asset_add (acc_balance a) delta = Inr b"
      "db' = set_account (a\<lparr>acc_balance := b\<rparr>) db"
    | b where "symbol delta = VESTS_SYMBOL" "asset_add (acc_vesting_shares a) delta = Inr b"
      "db' = set_account (a\<lparr>acc_vesting_shares := b\<rparr>) db"
    using assms a by (auto simp: modify_balance_def res_simps split: if_splits)
  then show ?thesis
  proof cases
    case 1
    have "find_row acc_name m (accounts db') =
        (if m = name then Some (a\<lparr>acc_balance := b\<rparr>) else find_row acc_name m (accounts db))" for m
      unfolding 1(3) using a n by (intro find_set_account) auto
    then show ?thesis
      using a 1(1) asset_add_value [OF 1(2)] by (auto simp: ledger_def 1(3) get_balance_SST_def)
  next
    case 2
    have "find_row acc_name m (accounts db') =
        (if m = name then Some (a\<lparr>acc_vesting_shares := b\<rparr>) else find_row acc_name m (accounts db))" for m
      unfolding 2(3) using a n by (intro find_set_account) auto
    then show ?thesis
      using a 2(1) asset_add_value [OF 2(2)] legacy_space_symbols [of s] by (auto simp: ledger_def 2(3) get_balance_SST_def)
  qed
qed

lemma adjust_SST_regular_accounts:
  "adjust_SST_regular db name delta ca = Inr db' \<Longrightarrow> accounts db' = accounts db"
  by (auto simp: adjust_SST_regular_def Let_def res_simps split: if_splits option.splits)

text \<open>The symbols and accounts for which a credit is exactly an addition on the ledger.\<close>

definition plain_credit :: "account_name_type \<Rightarrow> asset_symbol_type \<Rightarrow> bool" where
  "plain_credit name s \<longleftrightarrow> s \<noteq> SBD_SYMBOL \<and> (space s = SST_nai_space \<longrightarrow> name \<noteq> freezone_NULL_ACCOUNT)"

lemma adjust_balance_ledger:
  assumes "adjust_balance db name delta = Inr db'" "plain_credit name (symbol delta)"
  shows "ledger db' n s = ledger db n s + (if n = name \<and> s = symbol delta then amount delta else 0)"
proof (cases "space (symbol delta) = SST_nai_space")
  case True
  then have adj: "adjust_SST_regular db name delta False = Inr db'"
    using assms by (auto simp: adjust_balance_def plain_credit_def res_simps)
  show ?thesis
  proof (cases "space s = SST_nai_space")
    case t: True
    show ?thesis using adjust_SST_regular_ledger [OF adj True t] t by (simp add: ledger_def)
  next
    case False
    then have "s \<noteq> symbol delta" using True by auto
    then show ?thesis using False adjust_SST_regular_accounts [OF adj] by (simp add: ledger_def)
  qed
next
  case False
  then have "modify_balance db name delta (has_hardfork db 20) = Inr db'"
    using assms by (auto simp: adjust_balance_def res_simps)
  then show ?thesis using assms(2) False by (intro modify_balance_ledger) (auto simp: plain_credit_def)
qed

text \<open>A debit that succeeds was covered, and vesting shares cannot be debited this way at all.\<close>

lemma check_available_covered:
  "check_available r delta = Inr u \<Longrightarrow> amount delta < 0 \<Longrightarrow>
   \<exists>available. r = Inr available \<and> - amount delta \<le> amount available"
  by (auto simp: check_available_def res_simps dest!: asset_neg_value)

lemma adjust_balance_covered:
  assumes "adjust_balance db name delta = Inr db'" "amount delta < 0"
  shows "symbol delta \<noteq> VESTS_SYMBOL \<and> - amount delta \<le> ledger db name (symbol delta)"
proof -
  obtain av where av: "get_balance db name (symbol delta) = Inr av" "- amount delta \<le> amount av"
    using assms by (auto simp: adjust_balance_def res_simps dest!: check_available_covered)
  have "symbol delta \<noteq> VESTS_SYMBOL"
  proof
    assume "symbol delta = VESTS_SYMBOL"
    then show False using av by (auto simp: get_balance_def get_balance_of_def res_simps)
  qed
  moreover have "amount av = ledger db name (symbol delta)"
    using av(1) by (auto simp: get_balance_def get_balance_of_def ledger_def res_simps split: if_splits)
  ultimately show ?thesis using av(2) by simp
qed

end
