(* ===== verification/Transfers.thy ===== *)
theory Transfers
  imports Ledger "HOL-Library.List_Lexorder" "HOL-Library.Char_ord" "HOL-Library.Product_Lexorder"
begin

text \<open>
  Transfers, savings and conversion requests: the evaluators \<^verbatim>\<open>transfer\<close>, \<^verbatim>\<open>transfer_to_savings\<close>,
  \<^verbatim>\<open>transfer_from_savings\<close>, \<^verbatim>\<open>cancel_transfer_from_savings\<close> and \<^verbatim>\<open>convert\<close> of
  \<^verbatim>\<open>chain/steem_evaluator.cpp\<close> and the per-block functions \<^verbatim>\<open>process_savings_withdraws\<close> and
  \<^verbatim>\<open>process_conversions\<close> of \<^verbatim>\<open>chain/database.cpp\<close>.  Each conserves every symbol.
\<close>

section \<open>Operations\<close>

record transfer_operation =
  xfer_from :: account_name_type
  xfer_to :: account_name_type
  xfer_amount :: asset
  xfer_memo :: string

record transfer_to_savings_operation =
  tsav_from :: account_name_type
  tsav_to :: account_name_type
  tsav_amount :: asset
  tsav_memo :: string

record transfer_from_savings_operation =
  fsav_from :: account_name_type
  fsav_request_id :: "32 word"
  fsav_to :: account_name_type
  fsav_amount :: asset
  fsav_memo :: string

record cancel_transfer_from_savings_operation =
  csav_from :: account_name_type
  csav_request_id :: "32 word"

record convert_operation =
  conv_owner :: account_name_type
  conv_requestid :: "32 word"
  conv_amount :: asset

section \<open>Evaluators\<close>

definition transfer_apply :: "database \<Rightarrow> transfer_operation \<Rightarrow> database result" where
  "transfer_apply db op =
     fc_assert (\<not> has_hardfork db 21 \<or> symbol (xfer_amount op) = SBD_SYMBOL \<or> xfer_to op \<noteq> freezone_TREASURY_ACCOUNT)
       ''Can only transfer SBD to ${s}'' (
     rbind (asset_neg (xfer_amount op)) (\<lambda>m.
     rbind (adjust_balance db (xfer_from op) m) (\<lambda>db1.
     adjust_balance db1 (xfer_to op) (xfer_amount op))))"

definition transfer_to_savings_apply :: "database \<Rightarrow> transfer_to_savings_operation \<Rightarrow> database result" where
  "transfer_to_savings_apply db op =
     rbind (get_account db (tsav_from op)) (\<lambda>_.
     rbind (get_account db (tsav_to op)) (\<lambda>_.
     fc_assert (\<not> has_hardfork db 21 \<or> tsav_to op \<noteq> freezone_TREASURY_ACCOUNT) ''Cannot transfer savings to ${s}'' (
     rbind (asset_neg (tsav_amount op)) (\<lambda>m.
     rbind (adjust_balance_of db (tsav_from op) m) (\<lambda>db1.
     adjust_savings_balance db1 (tsav_to op) (tsav_amount op))))))"

definition freezone_SAVINGS_WITHDRAW_REQUEST_LIMIT :: int where "freezone_SAVINGS_WITHDRAW_REQUEST_LIMIT = 100"
definition freezone_SAVINGS_WITHDRAW_TIME :: "32 word" where "freezone_SAVINGS_WITHDRAW_TIME = 3 * 24 * 60 * 60"

definition modify_account :: "database \<Rightarrow> account_name_type \<Rightarrow> (account_object \<Rightarrow> account_object) \<Rightarrow> database result" where
  "modify_account db name f = rbind (get_account db name) (\<lambda>a. Inr (set_account (f a) db))"

definition transfer_from_savings_apply :: "database \<Rightarrow> transfer_from_savings_operation \<Rightarrow> database result" where
  "transfer_from_savings_apply db op =
     rbind (get_account db (fsav_from op)) (\<lambda>from.
     rbind (get_account db (fsav_to op)) (\<lambda>_.
     fc_assert (uint (acc_savings_withdraw_requests from) < freezone_SAVINGS_WITHDRAW_REQUEST_LIMIT)
       ''Account has reached limit for pending withdraw requests.'' (
     fc_assert (\<not> has_hardfork db 21 \<or> symbol (fsav_amount op) = SBD_SYMBOL \<or> fsav_to op \<noteq> freezone_TREASURY_ACCOUNT)
       ''Can only transfer SBD to ${s}'' (
     rbind (get_savings_balance from (symbol (fsav_amount op))) (\<lambda>available.
     rbind (asset_ge available (fsav_amount op)) (\<lambda>ok.
     fc_assert ok '''' (
     rbind (asset_neg (fsav_amount op)) (\<lambda>m.
     rbind (adjust_savings_balance db (fsav_from op) m) (\<lambda>db1.
     rbind (insert_row sw_key
              \<lparr>sw_from = fsav_from op, sw_to = fsav_to op, sw_memo = fsav_memo op,
               sw_request_id = fsav_request_id op, sw_amount = fsav_amount op,
               sw_complete = head_block_time db1 + freezone_SAVINGS_WITHDRAW_TIME\<rparr> (savings_withdraws db1)) (\<lambda>sws.
     modify_account (db1\<lparr>savings_withdraws := sws\<rparr>) (fsav_from op)
       (\<lambda>a. a\<lparr>acc_savings_withdraw_requests := acc_savings_withdraw_requests a + 1\<rparr>)))))))))))"

definition cancel_transfer_from_savings_apply ::
    "database \<Rightarrow> cancel_transfer_from_savings_operation \<Rightarrow> database result" where
  "cancel_transfer_from_savings_apply db op =
     rbind (get_savings_withdraw db (csav_from op) (csav_request_id op)) (\<lambda>swo.
     rbind (adjust_savings_balance db (sw_from swo) (sw_amount swo)) (\<lambda>db1.
     modify_account (db1\<lparr>savings_withdraws := remove_row sw_key (sw_key swo) (savings_withdraws db1)\<rparr>) (csav_from op)
       (\<lambda>a. a\<lparr>acc_savings_withdraw_requests := acc_savings_withdraw_requests a - 1\<rparr>)))"

definition freezone_CONVERSION_DELAY_PRE_HF_16 :: "32 word" where
  "freezone_CONVERSION_DELAY_PRE_HF_16 = 7 * 24 * 60 * 60"
definition freezone_CONVERSION_DELAY :: "32 word" where
  "freezone_CONVERSION_DELAY = 12 * 7 * 60 * 60"

definition convert_apply :: "database \<Rightarrow> convert_operation \<Rightarrow> database result" where
  "convert_apply db op =
     rbind (asset_neg (conv_amount op)) (\<lambda>m.
     rbind (adjust_balance db (conv_owner op) m) (\<lambda>db1.
     fc_assert (\<not> price_is_null (current_median_history db1)) ''Cannot convert SBD because there is no price feed.'' (
     let delay = (if has_hardfork db1 16 then freezone_CONVERSION_DELAY else freezone_CONVERSION_DELAY_PRE_HF_16) in
     rbind (insert_row cr_key
              \<lparr>cr_owner = conv_owner op, cr_requestid = conv_requestid op, cr_amount = conv_amount op,
               cr_conversion_date = head_block_time db1 + delay\<rparr> (convert_requests db1)) (\<lambda>crs.
     Inr (db1\<lparr>convert_requests := crs\<rparr>)))))"

section \<open>Per-block processing\<close>

text \<open>
  Both loops take the first object of an ordered index while it is due, act on it and remove it.
  The bodies create no object of the index, so the objects handled are the due ones at the
  start, in the order of the index.
\<close>

definition due_savings_withdraws :: "database \<Rightarrow> savings_withdraw_object list" where
  "due_savings_withdraws db =
     sort_key (\<lambda>w. (sw_complete w, sw_from w, sw_request_id w))
       (filter (\<lambda>w. sw_complete w \<le> head_block_time db) (savings_withdraws db))"

definition complete_savings_withdraw :: "savings_withdraw_object \<Rightarrow> database \<Rightarrow> database result" where
  "complete_savings_withdraw w db =
     rbind (adjust_balance_of db (sw_to w) (sw_amount w)) (\<lambda>db1.
     rbind (modify_account db1 (sw_from w)
              (\<lambda>a. a\<lparr>acc_savings_withdraw_requests := acc_savings_withdraw_requests a - 1\<rparr>)) (\<lambda>db2.
     let db3 = push_virtual_operation db2
                 (fill_transfer_from_savings_operation (sw_from w) (sw_to w) (sw_amount w) (sw_request_id w) (sw_memo w))
     in Inr (db3\<lparr>savings_withdraws := remove_row sw_key (sw_key w) (savings_withdraws db3)\<rparr>)))"

definition process_savings_withdraws :: "database \<Rightarrow> database result" where
  "process_savings_withdraws db = rfold complete_savings_withdraw (due_savings_withdraws db) db"

definition due_conversions :: "database \<Rightarrow> convert_request_object list" where
  "due_conversions db =
     sort_key cr_conversion_date
       (filter (\<lambda>c. cr_conversion_date c \<le> head_block_time db) (convert_requests db))"

definition complete_conversion ::
    "convert_request_object \<Rightarrow> database \<times> asset \<times> asset \<Rightarrow> (database \<times> asset \<times> asset) result" where
  "complete_conversion c = (\<lambda>(db, net_sbd, net_freezone).
     rbind (asset_mul_price (cr_amount c) (current_median_history db)) (\<lambda>amount_to_issue.
     rbind (adjust_balance db (cr_owner c) amount_to_issue) (\<lambda>db1.
     rbind (asset_add net_sbd (cr_amount c)) (\<lambda>net_sbd'.
     rbind (asset_add net_freezone amount_to_issue) (\<lambda>net_freezone'.
     let db2 = push_virtual_operation db1
                 (fill_convert_request_operation (cr_owner c) (cr_requestid c) (cr_amount c) amount_to_issue)
     in Inr (db2\<lparr>convert_requests := remove_row cr_key (cr_key c) (convert_requests db2)\<rparr>, net_sbd', net_freezone'))))))"

definition process_conversions :: "database \<Rightarrow> database result" where
  "process_conversions db =
     (if price_is_null (current_median_history db) then Inr db
      else
        rbind (rfold complete_conversion (due_conversions db)
                 (db, mk_asset 0 SBD_SYMBOL, mk_asset 0 freezone_SYMBOL)) (\<lambda>(db1, net_sbd, net_freezone).
        let g = dgpo db1 in
        rbind (asset_add (gp_current_supply g) net_freezone) (\<lambda>cs.
        rbind (asset_sub (gp_current_sbd_supply g) net_sbd) (\<lambda>ss.
        rbind (asset_add (gp_virtual_supply g) net_freezone) (\<lambda>vs1.
        rbind (asset_mul_price net_sbd (current_median_history db1)) (\<lambda>v.
        rbind (asset_sub vs1 v) (\<lambda>vs.
        Inr (db1\<lparr>dgpo := g\<lparr>gp_current_supply := cs, gp_current_sbd_supply := ss, gp_virtual_supply := vs\<rparr>\<rparr>))))))))"

section \<open>Conservation\<close>

lemma modify_account_surplus:
  assumes "modify_account db name f = Inr db'" "\<And>a. acc_name (f a) = acc_name a" "\<And>a. account_held s (f a) = account_held s a"
  shows "surplus s db' = surplus s db"
proof -
  obtain a where a: "find_row acc_name name (accounts db) = Some a" "db' = set_account (f a) db"
    using assms(1) by (auto simp: modify_account_def res_simps)
  then have "find_row acc_name (acc_name (f a)) (accounts db) = Some a"
    using assms(2) find_row_key by fastforce
  then show ?thesis using assms(3) by (simp add: a(2) ledger_simps)
qed

lemma requests_held [simp]:
  "account_held s (a\<lparr>acc_savings_withdraw_requests := n\<rparr>) = account_held s a"
  by (simp add: account_held_def)

lemma surplus_savings_withdraws [ledger_simps]:
  "surplus s (db\<lparr>savings_withdraws := ws\<rparr>) =
   surplus s db + sum_rows (\<lambda>w. amt s (sw_amount w)) ws - sum_rows (\<lambda>w. amt s (sw_amount w)) (savings_withdraws db)"
  by (simp add: surplus_def held_def issued_def)

lemma surplus_convert_requests [ledger_simps]:
  "surplus s (db\<lparr>convert_requests := cs\<rparr>) =
   surplus s db + sum_rows (\<lambda>c. amt s (cr_amount c)) cs - sum_rows (\<lambda>c. amt s (cr_amount c)) (convert_requests db)"
  by (simp add: surplus_def held_def issued_def)

lemma transfer_conserves:
  "transfer_apply db op = Inr db' \<Longrightarrow> surplus s db' = surplus s db"
  unfolding transfer_apply_def fc_assert_eq_Inr by (blast intro: transfer.move_conserves)

lemma transfer_to_savings_conserves:
  "transfer_to_savings_apply db op = Inr db' \<Longrightarrow> surplus s db' = surplus s db"
  unfolding transfer_to_savings_apply_def
  by (auto simp: fc_assert_eq_Inr rbind_eq_Inr [of "get_account _ _"] intro: to_savings.move_conserves)

lemma transfer_from_savings_conserves:
  assumes "transfer_from_savings_apply db op = Inr db'"
  shows "surplus s db' = surplus s db"
  using assms
  by (auto simp: transfer_from_savings_apply_def res_simps ledger_simps table_simps
      dest!: amt_neg [where s = s] savings.credit_surplus [where s = s] modify_account_surplus [where s = s])

lemma cancel_transfer_from_savings_conserves:
  assumes "cancel_transfer_from_savings_apply db op = Inr db'"
  shows "surplus s db' = surplus s db"
proof -
  obtain swo db1 where 1: "find_row sw_key (csav_from op, csav_request_id op) (savings_withdraws db) = Some swo"
      "adjust_savings_balance db (sw_from swo) (sw_amount swo) = Inr db1"
      "modify_account (db1\<lparr>savings_withdraws := remove_row sw_key (sw_key swo) (savings_withdraws db1)\<rparr>) (csav_from op)
         (\<lambda>a. a\<lparr>acc_savings_withdraw_requests := acc_savings_withdraw_requests a - 1\<rparr>) = Inr db'"
    using assms by (auto simp: cancel_transfer_from_savings_apply_def get_savings_withdraw_def res_simps)
  have "savings_withdraws db1 = savings_withdraws db"
    using savings.credit_frame [OF 1(2)] by (simp add: same_frame_def)
  then show ?thesis
    using 1(1) modify_account_surplus [OF 1(3), of s] savings.credit_surplus [OF 1(2), of s] find_row_key [OF 1(1)]
    by (simp add: ledger_simps table_simps)
qed

lemma convert_conserves:
  assumes "convert_apply db op = Inr db'"
  shows "surplus s db' = surplus s db"
  using assms
  by (auto simp: convert_apply_def Let_def res_simps ledger_simps table_simps
      dest!: amt_neg [where s = s] balance.credit_surplus [where s = s])

section \<open>The per-block loops\<close>

lemma modify_account_frame:
  "modify_account db name f = Inr db' \<Longrightarrow> (\<And>a. acc_name (f a) = acc_name a) \<Longrightarrow> same_frame db db'"
  by (auto simp: modify_account_def res_simps)

lemma complete_savings_withdraw_rows:
  assumes "complete_savings_withdraw w db = Inr db'"
  shows "savings_withdraws db' = remove_row sw_key (sw_key w) (savings_withdraws db)"
proof -
  obtain db1 db2 where 1: "adjust_balance_of db (sw_to w) (sw_amount w) = Inr db1"
      "modify_account db1 (sw_from w) (\<lambda>a. a\<lparr>acc_savings_withdraw_requests := acc_savings_withdraw_requests a - 1\<rparr>) = Inr db2"
      "savings_withdraws db' = remove_row sw_key (sw_key w) (savings_withdraws db2)"
    using assms by (auto simp: complete_savings_withdraw_def Let_def res_simps push_virtual_operation_def)
  have "same_frame db db2"
    using balance_of.credit_frame [OF 1(1)] modify_account_frame [OF 1(2)] by (auto intro: same_frame_trans)
  then show ?thesis using 1(3) by (simp add: same_frame_def)
qed

lemma complete_savings_withdraw_surplus:
  assumes "complete_savings_withdraw w db = Inr db'" "find_row sw_key (sw_key w) (savings_withdraws db) = Some w"
  shows "surplus s db' = surplus s db"
proof -
  obtain db1 db2 where 1: "adjust_balance_of db (sw_to w) (sw_amount w) = Inr db1"
      "modify_account db1 (sw_from w) (\<lambda>a. a\<lparr>acc_savings_withdraw_requests := acc_savings_withdraw_requests a - 1\<rparr>) = Inr db2"
      "db' = (push_virtual_operation db2
         (fill_transfer_from_savings_operation (sw_from w) (sw_to w) (sw_amount w) (sw_request_id w) (sw_memo w)))
         \<lparr>savings_withdraws := remove_row sw_key (sw_key w) (savings_withdraws db2)\<rparr>"
    using assms by (auto simp: complete_savings_withdraw_def Let_def res_simps push_virtual_operation_def)
  have "same_frame db db2"
    using balance_of.credit_frame [OF 1(1)] modify_account_frame [OF 1(2)] by (auto intro: same_frame_trans)
  then have "savings_withdraws db2 = savings_withdraws db" by (simp add: same_frame_def)
  then show ?thesis
    using assms(2) balance_of.credit_surplus [OF 1(1), of s] modify_account_surplus [OF 1(2), of s]
    by (simp add: 1(3) ledger_simps table_simps push_virtual_operation_def)
qed

interpretation savings_loop: consuming_loop savings_withdraws sw_key complete_savings_withdraw "surplus s" for s
  by unfold_locales (auto intro: complete_savings_withdraw_rows complete_savings_withdraw_surplus)

lemma complete_conversion_rows:
  assumes "complete_conversion c st = Inr st'"
  shows "convert_requests (fst st') = remove_row cr_key (cr_key c) (convert_requests (fst st))"
  using assms
  by (cases st) (auto simp: complete_conversion_def Let_def res_simps push_virtual_operation_def same_frame_def
      dest!: balance.credit_frame)

definition conversion_balance :: "asset_symbol_type \<Rightarrow> database \<times> asset \<times> asset \<Rightarrow> int" where
  "conversion_balance s = (\<lambda>(db, net_sbd, net_freezone). surplus s db + amt s net_sbd - amt s net_freezone)"

lemma complete_conversion_balance:
  assumes "complete_conversion c st = Inr st'" "find_row cr_key (cr_key c) (convert_requests (fst st)) = Some c"
  shows "conversion_balance s st' = conversion_balance s st"
proof -
  obtain db nb nf where st: "st = (db, nb, nf)" by (cases st)
  obtain x db1 nb' nf' where 1: "adjust_balance db (cr_owner c) x = Inr db1"
      "asset_add nb (cr_amount c) = Inr nb'" "asset_add nf x = Inr nf'"
      "st' = ((push_virtual_operation db1 (fill_convert_request_operation (cr_owner c) (cr_requestid c) (cr_amount c) x))
         \<lparr>convert_requests := remove_row cr_key (cr_key c) (convert_requests db1)\<rparr>, nb', nf')"
    using assms(1) by (auto simp: st complete_conversion_def Let_def res_simps push_virtual_operation_def)
  have "convert_requests db1 = convert_requests db"
    using balance.credit_frame [OF 1(1)] by (simp add: same_frame_def)
  then show ?thesis
    using assms(2) balance.credit_surplus [OF 1(1), of s] amt_add [OF 1(2), of s] amt_add [OF 1(3), of s]
    by (simp add: st 1(4) conversion_balance_def ledger_simps table_simps push_virtual_operation_def)
qed

interpretation conversion_loop:
  consuming_loop "\<lambda>st. convert_requests (fst st)" cr_key complete_conversion "conversion_balance s" for s
  by unfold_locales (auto intro: complete_conversion_rows complete_conversion_balance)

lemma process_savings_withdraws_effect:
  assumes "process_savings_withdraws db = Inr db'" "distinct (map sw_key (savings_withdraws db))"
  shows "surplus s db' = surplus s db"
    and "savings_withdraws db' = filter (\<lambda>w. \<not> sw_complete w \<le> head_block_time db) (savings_withdraws db)"
proof -
  have d: "set (due_savings_withdraws db) = {w \<in> set (savings_withdraws db). sw_complete w \<le> head_block_time db}"
    by (auto simp: due_savings_withdraws_def)
  have "distinct (due_savings_withdraws db)"
    using assms(2) by (auto simp: due_savings_withdraws_def distinct_map)
  note loop = savings_loop.loop_due [OF assms(1) [unfolded process_savings_withdraws_def] assms(2) d this]
  show "surplus s db' = surplus s db" by (rule loop(1))
  show "savings_withdraws db' = filter (\<lambda>w. \<not> sw_complete w \<le> head_block_time db) (savings_withdraws db)"
    by (rule loop(2))
qed

lemma process_conversions_conserves:
  assumes "process_conversions db = Inr db'" "distinct (map cr_key (convert_requests db))"
  shows "surplus s db' = surplus s db"
proof (cases "price_is_null (current_median_history db)")
  case False
  obtain db1 nb nf where 1: "rfold complete_conversion (due_conversions db)
        (db, mk_asset 0 SBD_SYMBOL, mk_asset 0 freezone_SYMBOL) = Inr (db1, nb, nf)"
      "surplus s db' = surplus s db1 + amt s nb - amt s nf"
    using assms(1) False
    by (auto simp: process_conversions_def Let_def res_simps ledger_simps gp_held_def gp_issued_def
        dest!: amt_ops [where s = s])
  have d: "set (due_conversions db) = {c \<in> set (convert_requests (fst (db, mk_asset 0 SBD_SYMBOL, mk_asset 0 freezone_SYMBOL))).
      cr_conversion_date c \<le> head_block_time db}"
    by (auto simp: due_conversions_def)
  have "distinct (due_conversions db)" using assms(2) by (auto simp: due_conversions_def distinct_map)
  from conversion_loop.loop_due(1) [OF 1(1) _ d this, of s] assms(2) show ?thesis
    by (simp add: 1(2) conversion_balance_def)
qed (use assms in \<open>simp add: process_conversions_def\<close>)

section \<open>Properties of transfers\<close>


text \<open>Solvency of the evaluators.\<close>

lemma transfer_solvent:
  "transfer_apply db op = Inr db' \<Longrightarrow> has_hardfork db 20 \<Longrightarrow> solvent db \<Longrightarrow> solvent db'"
  unfolding transfer_apply_def fc_assert_eq_Inr by (blast intro: transfer.move_solvent)

lemma transfer_to_savings_solvent:
  "transfer_to_savings_apply db op = Inr db' \<Longrightarrow> has_hardfork db 20 \<Longrightarrow> solvent db \<Longrightarrow> solvent db'"
  unfolding transfer_to_savings_apply_def
  by (auto simp: fc_assert_eq_Inr rbind_eq_Inr [of "get_account _ _"] intro: to_savings.move_solvent)

lemma modify_account_solvent:
  assumes "modify_account db name f = Inr db'" "solvent db" "\<And>a. account_solvent a \<Longrightarrow> account_solvent (f a)"
  shows "solvent db'"
  using assms by (auto simp: modify_account_def res_simps intro!: solvent_set_account dest: solvent_account)

lemma solvent_requests [simp]:
  "solvent (db\<lparr>savings_withdraws := ws\<rparr>) = solvent db" "solvent (db\<lparr>convert_requests := cs\<rparr>) = solvent db"
  "account_solvent (a\<lparr>acc_savings_withdraw_requests := n\<rparr>) = account_solvent a"
  by (simp_all add: solvent_def account_solvent_def)

lemma transfer_from_savings_solvent:
  "transfer_from_savings_apply db op = Inr db' \<Longrightarrow> has_hardfork db 20 \<Longrightarrow> solvent db \<Longrightarrow> solvent db'"
  by (auto simp: transfer_from_savings_apply_def res_simps elim!: modify_account_solvent dest: savings.credit_solvent)

lemma cancel_transfer_from_savings_solvent:
  "cancel_transfer_from_savings_apply db op = Inr db' \<Longrightarrow> has_hardfork db 20 \<Longrightarrow> solvent db \<Longrightarrow> solvent db'"
  by (auto simp: cancel_transfer_from_savings_apply_def res_simps elim!: modify_account_solvent dest: savings.credit_solvent)

lemma convert_solvent:
  "convert_apply db op = Inr db' \<Longrightarrow> has_hardfork db 20 \<Longrightarrow> solvent db \<Longrightarrow> solvent db'"
  by (auto simp: convert_apply_def Let_def res_simps dest: balance.credit_solvent)

section \<open>Transfers that succeed\<close>

lemma asset_neg_pos: "0 < amount x \<Longrightarrow> asset_neg x = Inr (mk_asset (- amount x) (symbol x))"
  by (simp add: asset_neg_def safe_neg_def)

lemma asset_add_ok:
  "symbol a = symbol b \<Longrightarrow> 0 \<le> amount a + amount b \<Longrightarrow> amount a + amount b \<le> i64_max \<Longrightarrow>
   asset_add a b = Inr (mk_asset (amount a + amount b) (symbol a))"
  by (simp add: asset_add_def safe_add_def)

lemma check_available_ok:
  "(amount x < 0 \<Longrightarrow> i64_min < amount x \<and> (\<exists>av. r = Inr av \<and> symbol av = symbol x \<and> - amount x \<le> amount av)) \<Longrightarrow>
   check_available r x = Inr ()"
  by (auto simp: check_available_def asset_neg_def safe_neg_def asset_ge_def)

lemma adjust_balance_native:
  assumes "find_row acc_name n (accounts db) = Some a" "symbol (acc_balance a) = freezone_SYMBOL"
    "symbol x = freezone_SYMBOL" "0 \<le> amount (acc_balance a) + amount x" "amount (acc_balance a) + amount x \<le> i64_max"
    "i64_min < amount x"
  shows "adjust_balance db n x =
     Inr (set_account (a\<lparr>acc_balance := mk_asset (amount (acc_balance a) + amount x) freezone_SYMBOL\<rparr>) db)"
proof -
  have "check_available (get_balance db n (symbol x)) x = Inr ()"
    using assms
    by (intro check_available_ok) (auto simp: get_balance_def get_balance_of_def get_account_def get_row_def)
  moreover have "asset_add (acc_balance a) x = Inr (mk_asset (amount (acc_balance a) + amount x) freezone_SYMBOL)"
    using assms by (simp add: asset_add_ok)
  ultimately show ?thesis
    using assms by (simp add: adjust_balance_def modify_balance_def get_account_def get_row_def)
qed

lemma sst_key_liquid: "\<not> is_vesting s \<Longrightarrow> sst_key n s = (n, s)"
  by (simp add: sst_key_def)

text \<open>A token credit needs a balance that stays in range, and no account.\<close>

lemma adjust_balance_token:
  assumes "space (symbol x) = SST_nai_space" "\<not> is_vesting (symbol x)" "n \<noteq> freezone_NULL_ACCOUNT"
    "0 \<le> ledger db n (symbol x) + amount x" "ledger db n (symbol x) + amount x \<le> i64_max" "i64_min < amount x"
  shows "\<exists>db'. adjust_balance db n x = Inr db'"
proof (cases "find_row arb_key (n, symbol x) (regular_balances db)")
  case None
  then have "ledger db n (symbol x) = 0"
    using assms by (simp add: ledger_def get_balance_SST_def sst_key_liquid)
  then have x: "0 \<le> amount x" "amount x \<le> i64_max" using assms by auto
  let ?b = "(arb_initialize_assets (symbol x) arb_default)\<lparr>arb_name := n\<rparr>"
  have add: "regular_add x ?b = Inr (?b\<lparr>arb_liquid := x\<rparr>)"
    using assms(2) x asset_add_ok [of "mk_asset 0 (symbol x)" x]
    by (simp add: regular_add_def arb_initialize_assets_def)
  have "insert_row arb_key (?b\<lparr>arb_liquid := x\<rparr>) (regular_balances db) = Inr (regular_balances db @ [?b\<lparr>arb_liquid := x\<rparr>])"
    using None by (simp add: insert_row_def arb_key_def)
  then have "adjust_SST_regular db n x False = Inr db \<or>
      adjust_SST_regular db n x False = Inr (db\<lparr>regular_balances := regular_balances db @ [?b\<lparr>arb_liquid := x\<rparr>]\<rparr>)"
    using None assms(2) x add by (simp add: adjust_SST_regular_def)
  then show ?thesis
    using assms x by (auto simp: adjust_balance_def check_available_def)
next
  case (Some bo)
  have s: "symbol (arb_liquid bo) = symbol x" using find_row_key [OF Some] by (simp add: arb_key_def)
  have l: "ledger db n (symbol x) = amount (arb_liquid bo)"
    using Some assms by (simp add: ledger_def get_balance_SST_def sst_key_liquid)
  have "check_available (get_balance db n (symbol x)) x = Inr ()"
    using assms Some s l
    by (intro check_available_ok) (auto simp: get_balance_def get_balance_SST_def sst_key_liquid)
  moreover have "asset_add (arb_liquid bo) x = Inr (mk_asset (amount (arb_liquid bo) + amount x) (symbol x))"
    using assms l s asset_add_ok [of "arb_liquid bo" x] by simp
  ultimately show ?thesis
    using assms Some l
    by (simp add: adjust_balance_def adjust_SST_regular_def regular_add_def regular_combined_def Let_def)
qed

lemma transfer_native:
  assumes "find_row acc_name (xfer_from op) (accounts db) = Some a" "find_row acc_name (xfer_to op) (accounts db) = Some b"
    "xfer_from op \<noteq> xfer_to op" "symbol (xfer_amount op) = freezone_SYMBOL"
    "symbol (acc_balance a) = freezone_SYMBOL" "symbol (acc_balance b) = freezone_SYMBOL"
    "0 < amount (xfer_amount op)" "amount (xfer_amount op) \<le> amount (acc_balance a)"
    "amount (acc_balance a) \<le> i64_max" "0 \<le> amount (acc_balance b)"
    "amount (acc_balance b) + amount (xfer_amount op) \<le> i64_max"
    "xfer_to op \<noteq> freezone_TREASURY_ACCOUNT"
  shows "transfer_apply db op = Inr
    (set_account (b\<lparr>acc_balance := mk_asset (amount (acc_balance b) + amount (xfer_amount op)) freezone_SYMBOL\<rparr>)
      (set_account (a\<lparr>acc_balance := mk_asset (amount (acc_balance a) - amount (xfer_amount op)) freezone_SYMBOL\<rparr>) db))"
proof -
  let ?m = "mk_asset (- amount (xfer_amount op)) (symbol (xfer_amount op))"
  let ?a = "a\<lparr>acc_balance := mk_asset (amount (acc_balance a) + amount ?m) freezone_SYMBOL\<rparr>"
  have 1: "adjust_balance db (xfer_from op) ?m = Inr (set_account ?a db)"
    using assms by (intro adjust_balance_native) auto
  have "find_row acc_name (xfer_to op) (accounts (set_account ?a db)) = Some b"
    using assms find_row_key [OF assms(1)] by (subst find_set_account [of "xfer_from op" _ a]) auto
  then have "adjust_balance (set_account ?a db) (xfer_to op) (xfer_amount op) =
      Inr (set_account (b\<lparr>acc_balance := mk_asset (amount (acc_balance b) + amount (xfer_amount op)) freezone_SYMBOL\<rparr>)
        (set_account ?a db))"
    using assms by (intro adjust_balance_native) auto
  then show ?thesis
    using 1 assms by (simp add: transfer_apply_def asset_neg_pos)
qed

text \<open>A state with two accounts, in which a transfer is possible.\<close>

definition sample_account :: "account_name_type \<Rightarrow> int \<Rightarrow> account_object" where
  "sample_account name bal = account_object_default\<lparr>acc_name := name, acc_balance := mk_asset bal freezone_SYMBOL\<rparr>"

definition sample_db :: database where
  "sample_db = empty_database\<lparr>
     accounts := [sample_account ''alice'' 5000, sample_account ''bob'' 10], processed_hardforks := 23\<rparr>"

definition sample_transfer :: transfer_operation where
  "sample_transfer = \<lparr>xfer_from = ''alice'', xfer_to = ''bob'', xfer_amount = mk_asset 1000 freezone_SYMBOL, xfer_memo = ''''\<rparr>"

lemma sample_accounts:
  "find_row acc_name ''alice'' (accounts sample_db) = Some (sample_account ''alice'' 5000)"
  "find_row acc_name ''bob'' (accounts sample_db) = Some (sample_account ''bob'' 10)"
  by (simp_all add: sample_db_def sample_account_def)

lemma sample_account_simps [simp]:
  "acc_name (sample_account n x) = n" "acc_balance (sample_account n x) = mk_asset x freezone_SYMBOL"
  by (simp_all add: sample_account_def)

text \<open>
  C11: a transfer of the native asset between two accounts succeeds whenever the sender has the
  amount and the receiver's balance stays in range, unless it is barred from the treasury.
\<close>

theorem transfer_succeeds:
  assumes "find_row acc_name (xfer_from op) (accounts db) = Some a" "find_row acc_name (xfer_to op) (accounts db) = Some b"
    "xfer_from op \<noteq> xfer_to op" "symbol (xfer_amount op) = freezone_SYMBOL"
    "symbol (acc_balance a) = freezone_SYMBOL" "symbol (acc_balance b) = freezone_SYMBOL"
    "0 < amount (xfer_amount op)" "amount (xfer_amount op) \<le> amount (acc_balance a)"
    "amount (acc_balance a) \<le> i64_max" "0 \<le> amount (acc_balance b)"
    "amount (acc_balance b) + amount (xfer_amount op) \<le> i64_max"
    "xfer_to op \<noteq> freezone_TREASURY_ACCOUNT"
  shows "\<exists>db'. transfer_apply db op = Inr db'"
  using transfer_native [OF assms] by blast

theorem transfer_succeeds_witness:
  "\<exists>db'. transfer_apply sample_db sample_transfer = Inr db'"
  by (rule transfer_succeeds [where a = "sample_account ''alice'' 5000" and b = "sample_account ''bob'' 10"])
    (simp_all add: sample_transfer_def sample_accounts freezone_TREASURY_ACCOUNT_def)




end
