(* ===== verification/Escrow.thy ===== *)
theory Escrow
  imports Transfers
begin

text \<open>
  Escrow: the evaluators \<^verbatim>\<open>escrow_transfer\<close>, \<^verbatim>\<open>escrow_approve\<close>, \<^verbatim>\<open>escrow_dispute\<close> and
  \<^verbatim>\<open>escrow_release\<close> of \<^verbatim>\<open>chain/steem_evaluator.cpp\<close> and the per-block function
  \<^verbatim>\<open>expire_escrow_ratification\<close> of \<^verbatim>\<open>chain/database.cpp\<close>.  Every step conserves every symbol; the life of
  an escrow is a state machine whose invariant and permission scheme are proved.
\<close>

section \<open>Operations\<close>

record escrow_transfer_operation =
  et_from :: account_name_type
  et_to :: account_name_type
  et_agent :: account_name_type
  et_escrow_id :: "32 word"
  et_sbd_amount :: asset
  et_freezone_amount :: asset
  et_fee :: asset
  et_ratification_deadline :: time_point_sec
  et_escrow_expiration :: time_point_sec
  et_json_meta :: string

record escrow_approve_operation =
  ea_from :: account_name_type
  ea_to :: account_name_type
  ea_agent :: account_name_type
  ea_who :: account_name_type
  ea_escrow_id :: "32 word"
  ea_approve :: bool

record escrow_dispute_operation =
  ed_from :: account_name_type
  ed_to :: account_name_type
  ed_agent :: account_name_type
  ed_who :: account_name_type
  ed_escrow_id :: "32 word"

record escrow_release_operation =
  er_from :: account_name_type
  er_to :: account_name_type
  er_agent :: account_name_type
  er_who :: account_name_type
  er_receiver :: account_name_type
  er_escrow_id :: "32 word"
  er_sbd_amount :: asset
  er_freezone_amount :: asset

section \<open>Evaluators\<close>

definition escrow_spent :: "escrow_transfer_operation \<Rightarrow> (asset \<times> asset) result" where
  "escrow_spent o1 =
     (if symbol (et_fee o1) = freezone_SYMBOL
      then rbind (asset_add (et_freezone_amount o1) (et_fee o1)) (\<lambda>f. Inr (f, et_sbd_amount o1))
      else rbind (asset_add (et_sbd_amount o1) (et_fee o1)) (\<lambda>d. Inr (et_freezone_amount o1, d)))"

definition escrow_transfer_apply :: "database \<Rightarrow> escrow_transfer_operation \<Rightarrow> database result" where
  "escrow_transfer_apply db o1 =
     rbind (get_account db (et_from o1)) (\<lambda>_.
     rbind (get_account db (et_to o1)) (\<lambda>_.
     rbind (get_account db (et_agent o1)) (\<lambda>_.
     fc_assert (et_ratification_deadline o1 > head_block_time db)
       ''The escorw ratification deadline must be after head block time.'' (
     fc_assert (et_escrow_expiration o1 > head_block_time db)
       ''The escrow expiration must be after head block time.'' (
     rbind (escrow_spent o1) (\<lambda>(freezone_spent, sbd_spent).
     rbind (rbind (asset_neg freezone_spent) (adjust_balance_of db (et_from o1))) (\<lambda>db1.
     rbind (rbind (asset_neg sbd_spent) (adjust_balance_of db1 (et_from o1))) (\<lambda>db2.
     rbind (insert_row esc_key
              \<lparr>esc_escrow_id = et_escrow_id o1, esc_from = et_from o1, esc_to = et_to o1, esc_agent = et_agent o1,
               esc_ratification_deadline = et_ratification_deadline o1,
               esc_escrow_expiration = et_escrow_expiration o1, esc_sbd_balance = et_sbd_amount o1,
               esc_freezone_balance = et_freezone_amount o1, esc_pending_fee = et_fee o1,
               esc_to_approved = False, esc_agent_approved = False, esc_disputed = False\<rparr> (escrows db2)) (\<lambda>es.
     Inr (db2\<lparr>escrows := es\<rparr>))))))))))"

definition set_escrow :: "escrow_object \<Rightarrow> database \<Rightarrow> database" where
  "set_escrow e db = db\<lparr>escrows := update_row esc_key (esc_key e) e (escrows db)\<rparr>"

definition remove_escrow :: "escrow_object \<Rightarrow> database \<Rightarrow> database" where
  "remove_escrow e db = db\<lparr>escrows := remove_row esc_key (esc_key e) (escrows db)\<rparr>"

text \<open>The two votes of \<^verbatim>\<open>escrow_approve\<close>: a party may vote once, and only an approval is recorded.\<close>

definition vote_to :: "escrow_approve_operation \<Rightarrow> escrow_object \<Rightarrow> escrow_object result" where
  "vote_to o1 e =
     (if ea_who o1 = ea_to o1
      then fc_assert (\<not> esc_to_approved e) ''Account 'to' (${t}) has already approved the escrow.''
             (Inr (if ea_approve o1 then e\<lparr>esc_to_approved := True\<rparr> else e))
      else Inr e)"

definition vote_agent :: "escrow_approve_operation \<Rightarrow> escrow_object \<Rightarrow> escrow_object result" where
  "vote_agent o1 e =
     (if ea_who o1 = ea_agent o1
      then fc_assert (\<not> esc_agent_approved e) ''Account 'agent' (${a}) has already approved the escrow.''
             (Inr (if ea_approve o1 then e\<lparr>esc_agent_approved := True\<rparr> else e))
      else Inr e)"

text \<open>The three credits by which an escrow that was not ratified is returned.\<close>

definition refund_escrow :: "account_name_type \<Rightarrow> escrow_object \<Rightarrow> database \<Rightarrow> database result" where
  "refund_escrow name e db =
     rbind (adjust_balance db name (esc_freezone_balance e)) (\<lambda>db1.
     rbind (adjust_balance db1 name (esc_sbd_balance e)) (\<lambda>db2.
     rbind (adjust_balance db2 name (esc_pending_fee e)) (\<lambda>db3.
     Inr (remove_escrow e db3))))"

definition escrow_approve_apply :: "database \<Rightarrow> escrow_approve_operation \<Rightarrow> database result" where
  "escrow_approve_apply db o1 =
     rbind (get_escrow db (ea_from o1) (ea_escrow_id o1)) (\<lambda>escrow.
     fc_assert (esc_to escrow = ea_to o1) ''Operation 'to' (${o}) does not match escrow 'to' (${e}).'' (
     fc_assert (esc_agent escrow = ea_agent o1) ''Operation 'agent' (${a}) does not match escrow 'agent' (${e}).'' (
     fc_assert (esc_ratification_deadline escrow \<ge> head_block_time db)
       ''The escrow ratification deadline has passed. Escrow can no longer be ratified.'' (
     rbind (vote_to o1 escrow) (\<lambda>escrow1.
     rbind (vote_agent o1 escrow1) (\<lambda>escrow2.
     let db1 = set_escrow escrow2 db in
     if \<not> ea_approve o1 then refund_escrow (ea_from o1) escrow2 db1
     else if esc_is_approved escrow2
     then rbind (adjust_balance db1 (ea_agent o1) (esc_pending_fee escrow2)) (\<lambda>db2.
          Inr (set_escrow (escrow2\<lparr>esc_pending_fee := (esc_pending_fee escrow2)\<lparr>amount := 0\<rparr>\<rparr>) db2))
     else Inr db1))))))"

definition escrow_dispute_apply :: "database \<Rightarrow> escrow_dispute_operation \<Rightarrow> database result" where
  "escrow_dispute_apply db o1 =
     rbind (get_account db (ed_from o1)) (\<lambda>_.
     rbind (get_escrow db (ed_from o1) (ed_escrow_id o1)) (\<lambda>e.
     fc_assert (head_block_time db < esc_escrow_expiration e) ''Disputing the escrow must happen before expiration.'' (
     fc_assert (esc_to_approved e \<and> esc_agent_approved e)
       ''The escrow must be approved by all parties before a dispute can be raised.'' (
     fc_assert (\<not> esc_disputed e) ''The escrow is already under dispute.'' (
     fc_assert (esc_to e = ed_to o1) ''Operation 'to' (${o}) does not match escrow 'to' (${e}).'' (
     fc_assert (esc_agent e = ed_agent o1) ''Operation 'agent' (${a}) does not match escrow 'agent' (${e}).'' (
     Inr (set_escrow (e\<lparr>esc_disputed := True\<rparr>) db))))))))"

text \<open>The permission scheme of \<^verbatim>\<open>escrow_release\<close>, in the order of the code.\<close>

definition release_permitted :: "time_point_sec \<Rightarrow> escrow_object \<Rightarrow> escrow_release_operation \<Rightarrow> unit result" where
  "release_permitted now e o1 =
     (if esc_disputed e
      then fc_assert (er_who o1 = esc_agent e) ''Only 'agent' (${a}) can release funds in a disputed escrow.'' (Inr ())
      else fc_assert (er_who o1 = esc_from e \<or> er_who o1 = esc_to e)
             ''Only 'from' (${f}) and 'to' (${t}) can release funds from a non-disputed escrow'' (
           if esc_escrow_expiration e > now then
             if er_who o1 = esc_from e
             then fc_assert (er_receiver o1 = esc_to e) ''Only 'from' (${f}) can release funds to 'to' (${t}).'' (Inr ())
             else if er_who o1 = esc_to e
             then fc_assert (er_receiver o1 = esc_from e) ''Only 'to' (${t}) can release funds to 'from' (${t}).'' (Inr ())
             else Inr ()
           else Inr ()))"

definition escrow_release_apply :: "database \<Rightarrow> escrow_release_operation \<Rightarrow> database result" where
  "escrow_release_apply db o1 =
     rbind (get_account db (er_from o1)) (\<lambda>_.
     rbind (get_escrow db (er_from o1) (er_escrow_id o1)) (\<lambda>e.
     rbind (asset_ge (esc_freezone_balance e) (er_freezone_amount o1)) (\<lambda>enough.
     fc_assert enough ''Release amount exceeds escrow balance. Amount: ${a}, Balance: ${b}'' (
     rbind (asset_ge (esc_sbd_balance e) (er_sbd_amount o1)) (\<lambda>enough'.
     fc_assert enough' ''Release amount exceeds escrow balance. Amount: ${a}, Balance: ${b}'' (
     fc_assert (esc_to e = er_to o1) ''Operation 'to' (${o}) does not match escrow 'to' (${e}).'' (
     fc_assert (esc_agent e = er_agent o1) ''Operation 'agent' (${a}) does not match escrow 'agent' (${e}).'' (
     fc_assert (er_receiver o1 = esc_from e \<or> er_receiver o1 = esc_to e)
       ''Funds must be released to 'from' (${f}) or 'to' (${t})'' (
     fc_assert (esc_to_approved e \<and> esc_agent_approved e) ''Funds cannot be released prior to escrow approval.'' (
     rbind (release_permitted (head_block_time db) e o1) (\<lambda>_.
     rbind (adjust_balance db (er_receiver o1) (er_freezone_amount o1)) (\<lambda>db1.
     rbind (adjust_balance db1 (er_receiver o1) (er_sbd_amount o1)) (\<lambda>db2.
     rbind (asset_sub (esc_freezone_balance e) (er_freezone_amount o1)) (\<lambda>f.
     rbind (asset_sub (esc_sbd_balance e) (er_sbd_amount o1)) (\<lambda>d.
     let e' = e\<lparr>esc_freezone_balance := f, esc_sbd_balance := d\<rparr> in
     Inr (if amount f = 0 \<and> amount d = 0 then remove_escrow e' db2 else set_escrow e' db2))))))))))))))))"

text \<open>The escrows past their ratification deadline, in the order of the index \<^verbatim>\<open>by_ratification_deadline\<close>.\<close>

definition unratified_escrows :: "database \<Rightarrow> escrow_object list" where
  "unratified_escrows db =
     sort_key esc_ratification_deadline
       (filter (\<lambda>e. \<not> esc_is_approved e \<and> esc_ratification_deadline e \<le> head_block_time db) (escrows db))"

definition expire_escrow_ratification :: "database \<Rightarrow> database result" where
  "expire_escrow_ratification db = rfold (\<lambda>e. refund_escrow (esc_from e) e) (unratified_escrows db) db"

section \<open>Conservation\<close>

lemma surplus_escrows [ledger_simps]:
  "surplus s (db\<lparr>escrows := es\<rparr>) =
   surplus s db + sum_rows (escrow_held s) es - sum_rows (escrow_held s) (escrows db)"
  by (simp add: surplus_def held_def issued_def)

lemma surplus_set_escrow [ledger_simps]:
  "find_row esc_key (esc_key e) (escrows db) = Some e0 \<Longrightarrow>
   surplus s (set_escrow e db) = surplus s db + escrow_held s e - escrow_held s e0"
  by (simp add: set_escrow_def ledger_simps table_simps)

lemma surplus_remove_escrow [ledger_simps]:
  "find_row esc_key (esc_key e) (escrows db) = Some e0 \<Longrightarrow>
   surplus s (remove_escrow e db) = surplus s db - escrow_held s e0"
  by (simp add: remove_escrow_def ledger_simps table_simps)

lemma escrows_set [simp]: "escrows (set_escrow e db) = update_row esc_key (esc_key e) e (escrows db)"
  by (simp add: set_escrow_def)

lemma escrows_remove [simp]: "escrows (remove_escrow e db) = remove_row esc_key (esc_key e) (escrows db)"
  by (simp add: remove_escrow_def)

lemma get_escrow_eq_Inr [res_simps]:
  "get_escrow db name i = Inr e \<longleftrightarrow> find_row esc_key (name, i) (escrows db) = Some e"
  by (simp add: get_escrow_def res_simps)

lemma credit_escrows: "adjust_balance db name x = Inr db' \<Longrightarrow> escrows db' = escrows db"
  by (auto simp: same_frame_def dest: balance.credit_frame)

lemma credit_of_escrows: "adjust_balance_of db name x = Inr db' \<Longrightarrow> escrows db' = escrows db"
  by (auto simp: same_frame_def dest: balance_of.credit_frame)

lemma escrow_spent_amt:
  "escrow_spent o1 = Inr (f, d) \<Longrightarrow>
   amt s f + amt s d = amt s (et_freezone_amount o1) + amt s (et_sbd_amount o1) + amt s (et_fee o1)"
  by (auto simp: escrow_spent_def res_simps split: if_splits dest!: amt_add [where s = s])

lemma escrow_transfer_conserves:
  assumes "escrow_transfer_apply db o1 = Inr db'"
  shows "surplus s db' = surplus s db"
proof -
  obtain f d db1 db2 e where 1: "escrow_spent o1 = Inr (f, d)"
      "rbind (asset_neg f) (adjust_balance_of db (et_from o1)) = Inr db1"
      "rbind (asset_neg d) (adjust_balance_of db1 (et_from o1)) = Inr db2"
      "insert_row esc_key e (escrows db2) = Inr (escrows db2 @ [e])" "db' = db2\<lparr>escrows := escrows db2 @ [e]\<rparr>"
      "escrow_held s e = amt s (et_freezone_amount o1) + amt s (et_sbd_amount o1) + amt s (et_fee o1)"
    using assms unfolding escrow_transfer_apply_def
    by (auto simp: rbind_eq_Inr [of "get_account _ _"] rbind_eq_Inr [of "escrow_spent _"] rbind_eq_Inr [of "rbind _ _"]
        rbind_eq_Inr [of "insert_row _ _ _"] insert_row_eq_Inr fc_assert_eq_Inr escrow_held_def)
  then show ?thesis
    using balance_of.debit_surplus [OF 1(2), of s] balance_of.debit_surplus [OF 1(3), of s] escrow_spent_amt [OF 1(1), of s]
    by (simp add: ledger_simps table_simps)
qed

lemma refund_escrow_effect:
  assumes "refund_escrow name e db = Inr db'"
  shows "escrows db' = remove_row esc_key (esc_key e) (escrows db)"
    and "find_row esc_key (esc_key e) (escrows db) = Some e \<Longrightarrow> surplus s db' = surplus s db"
proof -
  obtain db1 db2 db3 where 1: "adjust_balance db name (esc_freezone_balance e) = Inr db1"
      "adjust_balance db1 name (esc_sbd_balance e) = Inr db2"
      "adjust_balance db2 name (esc_pending_fee e) = Inr db3" "db' = remove_escrow e db3"
    using assms by (auto simp: refund_escrow_def res_simps)
  note e = 1(1-3) [THEN credit_escrows]
  show "escrows db' = remove_row esc_key (esc_key e) (escrows db)" by (simp add: 1(4) e)
  show "surplus s db' = surplus s db" if "find_row esc_key (esc_key e) (escrows db) = Some e"
    using that 1(1-3) [THEN balance.credit_surplus, of s]
    by (simp add: 1(4) e ledger_simps escrow_held_def)
qed

lemma vote_effect:
  "vote_to o1 e = Inr e' \<Longrightarrow> esc_key e' = esc_key e \<and> escrow_held s e' = escrow_held s e \<and> esc_pending_fee e' = esc_pending_fee e"
  "vote_agent o1 e = Inr e' \<Longrightarrow> esc_key e' = esc_key e \<and> escrow_held s e' = escrow_held s e \<and> esc_pending_fee e' = esc_pending_fee e"
  by (auto simp: vote_to_def vote_agent_def res_simps escrow_held_def esc_key_def split: if_splits)

lemma escrow_approve_conserves:
  assumes "escrow_approve_apply db o1 = Inr db'"
  shows "surplus s db' = surplus s db"
proof -
  obtain e e1 e2 where 1: "find_row esc_key (ea_from o1, ea_escrow_id o1) (escrows db) = Some e"
      "vote_to o1 e = Inr e1" "vote_agent o1 e1 = Inr e2"
    and c: "(if \<not> ea_approve o1 then refund_escrow (ea_from o1) e2 (set_escrow e2 db)
      else if esc_is_approved e2
      then rbind (adjust_balance (set_escrow e2 db) (ea_agent o1) (esc_pending_fee e2)) (\<lambda>db2.
           Inr (set_escrow (e2\<lparr>esc_pending_fee := (esc_pending_fee e2)\<lparr>amount := 0\<rparr>\<rparr>) db2))
      else Inr (set_escrow e2 db)) = Inr db'"
    using assms by (auto simp: escrow_approve_apply_def Let_def res_simps)
  have k: "esc_key e2 = esc_key e" "escrow_held s e2 = escrow_held s e"
    using vote_effect(1) [OF 1(2), of s] vote_effect(2) [OF 1(3), of s] by auto
  have f: "find_row esc_key (esc_key e2) (escrows db) = Some e"
    using 1(1) find_row_key [OF 1(1)] by (simp add: k)
  have s1: "surplus s (set_escrow e2 db) = surplus s db" using f by (simp add: ledger_simps k)
  have f1: "find_row esc_key (esc_key e2) (escrows (set_escrow e2 db)) = Some e2" using f by (simp add: table_simps)
  show ?thesis
  proof (cases "ea_approve o1 \<and> esc_is_approved e2")
    case False
    then show ?thesis using c s1 f1 refund_escrow_effect(2) by (auto split: if_splits)
  next
    case True
    then obtain db2 where 2: "adjust_balance (set_escrow e2 db) (ea_agent o1) (esc_pending_fee e2) = Inr db2"
        "db' = set_escrow (e2\<lparr>esc_pending_fee := (esc_pending_fee e2)\<lparr>amount := 0\<rparr>\<rparr>) db2"
      using c by (auto simp: res_simps)
    have k2: "esc_key (e2\<lparr>esc_pending_fee := (esc_pending_fee e2)\<lparr>amount := 0\<rparr>\<rparr>) = esc_key e2" by (simp add: esc_key_def)
    have "surplus s db' = surplus s db2 + escrow_held s (e2\<lparr>esc_pending_fee := (esc_pending_fee e2)\<lparr>amount := 0\<rparr>\<rparr>) - escrow_held s e2"
      unfolding 2(2) using f1 credit_escrows [OF 2(1)] by (intro surplus_set_escrow) (simp add: k2)
    then show ?thesis
      using balance.credit_surplus [OF 2(1), of s] s1 by (simp add: escrow_held_def)
  qed
qed

lemma escrow_dispute_effect:
  assumes "escrow_dispute_apply db o1 = Inr db'"
  obtains e where "find_row esc_key (esc_key e) (escrows db) = Some e" "db' = set_escrow (e\<lparr>esc_disputed := True\<rparr>) db"
    "esc_is_approved e"
proof -
  obtain e where "find_row esc_key (ed_from o1, ed_escrow_id o1) (escrows db) = Some e"
      "db' = set_escrow (e\<lparr>esc_disputed := True\<rparr>) db" "esc_is_approved e"
    using assms by (auto simp: escrow_dispute_apply_def res_simps esc_is_approved_def)
  with that show ?thesis using find_row_key by metis
qed

lemma disputed_simps [simp]:
  "esc_key (e\<lparr>esc_disputed := b\<rparr>) = esc_key e" "escrow_held s (e\<lparr>esc_disputed := b\<rparr>) = escrow_held s e"
  by (simp_all add: esc_key_def escrow_held_def)

lemma escrow_dispute_conserves:
  assumes "escrow_dispute_apply db o1 = Inr db'"
  shows "surplus s db' = surplus s db"
  using assms by (rule escrow_dispute_effect) (simp add: ledger_simps)

text \<open>What a release that succeeds has checked and done.\<close>

lemma escrow_release_effect:
  assumes "escrow_release_apply db o1 = Inr db'"
  obtains e db1 db2 f d where
    "find_row esc_key (er_from o1, er_escrow_id o1) (escrows db) = Some e" "esc_key e = (er_from o1, er_escrow_id o1)"
    "amount (er_freezone_amount o1) \<le> amount (esc_freezone_balance e)" "amount (er_sbd_amount o1) \<le> amount (esc_sbd_balance e)"
    "er_receiver o1 = esc_from e \<or> er_receiver o1 = esc_to e" "esc_is_approved e"
    "release_permitted (head_block_time db) e o1 = Inr ()"
    "adjust_balance db (er_receiver o1) (er_freezone_amount o1) = Inr db1"
    "adjust_balance db1 (er_receiver o1) (er_sbd_amount o1) = Inr db2"
    "asset_sub (esc_freezone_balance e) (er_freezone_amount o1) = Inr f"
    "asset_sub (esc_sbd_balance e) (er_sbd_amount o1) = Inr d"
    "db' = (if amount f = 0 \<and> amount d = 0 then remove_escrow (e\<lparr>esc_freezone_balance := f, esc_sbd_balance := d\<rparr>) db2
            else set_escrow (e\<lparr>esc_freezone_balance := f, esc_sbd_balance := d\<rparr>) db2)"
proof -
  obtain e b b' db1 db2 f d where
    1: "find_row esc_key (er_from o1, er_escrow_id o1) (escrows db) = Some e"
      "asset_ge (esc_freezone_balance e) (er_freezone_amount o1) = Inr b" b
      "asset_ge (esc_sbd_balance e) (er_sbd_amount o1) = Inr b'" b'
      "er_receiver o1 = esc_from e \<or> er_receiver o1 = esc_to e" "esc_is_approved e"
      "release_permitted (head_block_time db) e o1 = Inr ()"
      "adjust_balance db (er_receiver o1) (er_freezone_amount o1) = Inr db1"
      "adjust_balance db1 (er_receiver o1) (er_sbd_amount o1) = Inr db2"
      "asset_sub (esc_freezone_balance e) (er_freezone_amount o1) = Inr f"
      "asset_sub (esc_sbd_balance e) (er_sbd_amount o1) = Inr d"
      "db' = (if amount f = 0 \<and> amount d = 0 then remove_escrow (e\<lparr>esc_freezone_balance := f, esc_sbd_balance := d\<rparr>) db2
              else set_escrow (e\<lparr>esc_freezone_balance := f, esc_sbd_balance := d\<rparr>) db2)"
    using assms by (auto simp: escrow_release_apply_def Let_def rbind_eq_Inr fc_assert_eq_Inr get_escrow_eq_Inr esc_is_approved_def)
  have "amount (er_freezone_amount o1) \<le> amount (esc_freezone_balance e)" "amount (er_sbd_amount o1) \<le> amount (esc_sbd_balance e)"
    using 1(2-5) by (auto simp: asset_ge_def asset_lt_def res_simps)
  with 1 find_row_key [OF 1(1)] that show ?thesis by blast
qed

text \<open>
  The invariant of the escrow container.  An approved escrow has paid its fee, which a release
  that empties the escrow relies on: the row is removed together with any fee still in it.
\<close>

definition escrow_ok :: "escrow_object \<Rightarrow> bool" where
  "escrow_ok e \<longleftrightarrow>
     0 \<le> amount (esc_freezone_balance e) \<and> 0 \<le> amount (esc_sbd_balance e) \<and> 0 \<le> amount (esc_pending_fee e) \<and>
     (esc_is_approved e \<longrightarrow> amount (esc_pending_fee e) = 0) \<and> (esc_disputed e \<longrightarrow> esc_is_approved e)"

definition escrows_ok :: "database \<Rightarrow> bool" where
  "escrows_ok db \<longleftrightarrow> distinct (map esc_key (escrows db)) \<and> (\<forall>e \<in> set (escrows db). escrow_ok e)"

lemma escrows_ok_row: "escrows_ok db \<Longrightarrow> find_row esc_key k (escrows db) = Some e \<Longrightarrow> escrow_ok e"
  by (auto simp: escrows_ok_def dest: find_row_in_set)

lemma escrow_release_conserves:
  assumes "escrow_release_apply db o1 = Inr db'" "escrows_ok db"
  shows "surplus s db' = surplus s db"
  using assms(1)
proof (rule escrow_release_effect)
  fix e :: escrow_object and db1 db2 f d
  let ?e = "e\<lparr>esc_freezone_balance := f, esc_sbd_balance := d\<rparr>"
  assume ap: "esc_is_approved e"
    and 1: "find_row esc_key (er_from o1, er_escrow_id o1) (escrows db) = Some e" "esc_key e = (er_from o1, er_escrow_id o1)"
    "adjust_balance db (er_receiver o1) (er_freezone_amount o1) = Inr db1"
    "adjust_balance db1 (er_receiver o1) (er_sbd_amount o1) = Inr db2"
    "asset_sub (esc_freezone_balance e) (er_freezone_amount o1) = Inr f"
    "asset_sub (esc_sbd_balance e) (er_sbd_amount o1) = Inr d"
    and db': "db' = (if amount f = 0 \<and> amount d = 0 then remove_escrow ?e db2 else set_escrow ?e db2)"
  have k: "esc_key ?e = esc_key e" by (simp add: esc_key_def)
  have row: "find_row esc_key (esc_key ?e) (escrows db2) = Some e"
    using 1 by (simp add: k credit_escrows [OF 1(3)] credit_escrows [OF 1(4)])
  have "surplus s db2 = surplus s db + amt s (er_freezone_amount o1) + amt s (er_sbd_amount o1)"
    using balance.credit_surplus [OF 1(3), of s] balance.credit_surplus [OF 1(4), of s] by simp
  moreover have "escrow_held s ?e = escrow_held s e - amt s (er_freezone_amount o1) - amt s (er_sbd_amount o1)"
    using amt_sub [OF 1(5), of s] amt_sub [OF 1(6), of s] by (simp add: escrow_held_def)
  moreover have "surplus s db' = surplus s db2 + escrow_held s ?e - escrow_held s e"
  proof (cases "amount f = 0 \<and> amount d = 0")
    case True
    moreover have "amount (esc_pending_fee e) = 0"
      using escrows_ok_row [OF assms(2) 1(1)] ap by (simp add: escrow_ok_def)
    ultimately show ?thesis using row by (simp add: db' surplus_remove_escrow escrow_held_def)
  next
    case False
    then show ?thesis unfolding db' using row by (simp only: if_False surplus_set_escrow)
  qed
  ultimately show ?thesis by simp
qed

interpretation escrow_loop: consuming_loop escrows esc_key "\<lambda>e. refund_escrow (esc_from e) e" "surplus s" for s
  by unfold_locales (auto intro: refund_escrow_effect)

lemma expire_escrow_ratification_effect:
  assumes "expire_escrow_ratification db = Inr db'" "distinct (map esc_key (escrows db))"
  shows "surplus s db' = surplus s db"
    and "escrows db' = filter (\<lambda>e. \<not> (\<not> esc_is_approved e \<and> esc_ratification_deadline e \<le> head_block_time db)) (escrows db)"
proof -
  have d: "set (unratified_escrows db) =
      {e \<in> set (escrows db). \<not> esc_is_approved e \<and> esc_ratification_deadline e \<le> head_block_time db}"
    by (auto simp: unratified_escrows_def)
  have "distinct (unratified_escrows db)" using assms(2) by (auto simp: unratified_escrows_def distinct_map)
  note loop = escrow_loop.loop_due [OF assms(1) [unfolded expire_escrow_ratification_def] assms(2) d this]
  show "surplus s db' = surplus s db" by (rule loop(1))
  show "escrows db' = filter (\<lambda>e. \<not> (\<not> esc_is_approved e \<and> esc_ratification_deadline e \<le> head_block_time db)) (escrows db)"
    by (rule loop(2))
qed

section \<open>The invariant is kept\<close>

lemma escrows_ok_cong: "escrows db' = escrows db \<Longrightarrow> escrows_ok db' = escrows_ok db"
  by (simp add: escrows_ok_def)

lemma escrows_ok_set: "escrows_ok db \<Longrightarrow> escrow_ok e \<Longrightarrow> escrows_ok (set_escrow e db)"
  using set_update_row [of esc_key "esc_key e" e "escrows db"] by (auto simp: escrows_ok_def table_simps)

lemma escrows_ok_remove: "escrows_ok db \<Longrightarrow> escrows_ok (remove_escrow e db)"
  using set_remove_row [of esc_key "esc_key e" "escrows db"] by (auto simp: escrows_ok_def table_simps)

lemma escrow_transfer_ok:
  assumes "escrow_transfer_apply db o1 = Inr db'" "escrows_ok db"
    "0 \<le> amount (et_freezone_amount o1)" "0 \<le> amount (et_sbd_amount o1)" "0 \<le> amount (et_fee o1)"
  shows "escrows_ok db'"
  using assms
  by (auto simp: escrow_transfer_apply_def res_simps escrows_ok_def escrow_ok_def esc_is_approved_def find_row_None_iff
      dest!: credit_of_escrows)

lemma refund_escrow_ok: "refund_escrow name e db = Inr db' \<Longrightarrow> escrows_ok db \<Longrightarrow> escrows_ok db'"
  using set_remove_row [of esc_key "esc_key e" "escrows db"]
  by (auto simp: escrows_ok_def table_simps refund_escrow_effect(1))

lemma vote_ok:
  "vote_to o1 e = Inr e' \<Longrightarrow> escrow_ok e \<Longrightarrow> 0 \<le> amount (esc_freezone_balance e') \<and> 0 \<le> amount (esc_sbd_balance e') \<and>
     0 \<le> amount (esc_pending_fee e') \<and> (esc_disputed e' \<longrightarrow> esc_is_approved e') \<and> (\<not> ea_approve o1 \<longrightarrow> e' = e)"
  "vote_agent o1 e = Inr e' \<Longrightarrow> 0 \<le> amount (esc_freezone_balance e) \<and> 0 \<le> amount (esc_sbd_balance e) \<and>
     0 \<le> amount (esc_pending_fee e) \<and> (esc_disputed e \<longrightarrow> esc_is_approved e) \<Longrightarrow>
   0 \<le> amount (esc_freezone_balance e') \<and> 0 \<le> amount (esc_sbd_balance e') \<and>
     0 \<le> amount (esc_pending_fee e') \<and> (esc_disputed e' \<longrightarrow> esc_is_approved e') \<and> (\<not> ea_approve o1 \<longrightarrow> e' = e)"
  by (auto simp: vote_to_def vote_agent_def res_simps escrow_ok_def esc_is_approved_def split: if_splits)

lemma escrow_approve_ok:
  assumes "escrow_approve_apply db o1 = Inr db'" "escrows_ok db"
  shows "escrows_ok db'"
proof -
  obtain e e1 e2 where 1: "find_row esc_key (ea_from o1, ea_escrow_id o1) (escrows db) = Some e"
      "vote_to o1 e = Inr e1" "vote_agent o1 e1 = Inr e2"
    and c: "(if \<not> ea_approve o1 then refund_escrow (ea_from o1) e2 (set_escrow e2 db)
      else if esc_is_approved e2
      then rbind (adjust_balance (set_escrow e2 db) (ea_agent o1) (esc_pending_fee e2)) (\<lambda>db2.
           Inr (set_escrow (e2\<lparr>esc_pending_fee := (esc_pending_fee e2)\<lparr>amount := 0\<rparr>\<rparr>) db2))
      else Inr (set_escrow e2 db)) = Inr db'"
    using assms by (auto simp: escrow_approve_apply_def Let_def res_simps)
  have e: "escrow_ok e" using escrows_ok_row [OF assms(2) 1(1)] .
  have e1: "0 \<le> amount (esc_freezone_balance e1) \<and> 0 \<le> amount (esc_sbd_balance e1) \<and>
      0 \<le> amount (esc_pending_fee e1) \<and> (esc_disputed e1 \<longrightarrow> esc_is_approved e1)"
    and same: "\<not> ea_approve o1 \<longrightarrow> e1 = e"
    using vote_ok(1) [OF 1(2) e] by auto
  note e2 = vote_ok(2) [OF 1(3) e1]
  show ?thesis
  proof (cases "ea_approve o1 \<and> esc_is_approved e2")
    case False
    then have "escrow_ok e2" using e2 same e by (auto simp: escrow_ok_def)
    then have "escrows_ok (set_escrow e2 db)" using assms(2) by (rule escrows_ok_set [rotated])
    then show ?thesis using c False by (auto split: if_splits dest: refund_escrow_ok)
  next
    case True
    then obtain db2 where 2: "adjust_balance (set_escrow e2 db) (ea_agent o1) (esc_pending_fee e2) = Inr db2"
        "db' = set_escrow (e2\<lparr>esc_pending_fee := (esc_pending_fee e2)\<lparr>amount := 0\<rparr>\<rparr>) db2"
      using c by (auto simp: res_simps)
    let ?e = "e2\<lparr>esc_pending_fee := (esc_pending_fee e2)\<lparr>amount := 0\<rparr>\<rparr>"
    have k: "esc_key ?e = esc_key e2" by (simp add: esc_key_def)
    have up: "escrows db' = update_row esc_key (esc_key e2) ?e (update_row esc_key (esc_key e2) e2 (escrows db))"
      using credit_escrows [OF 2(1)] by (simp add: 2(2) k)
    have ok: "escrow_ok ?e" using e2 by (auto simp: escrow_ok_def esc_is_approved_def)
    have "update_row esc_key (esc_key e2) ?e (update_row esc_key (esc_key e2) e2 es) = update_row esc_key (esc_key e2) ?e es" for es
      by (induction es) auto
    then show ?thesis
      using escrows_ok_set [OF assms(2) ok] by (simp add: escrows_ok_def up k)
  qed
qed

lemma escrow_dispute_ok:
  assumes "escrow_dispute_apply db o1 = Inr db'" "escrows_ok db"
  shows "escrows_ok db'"
  using assms(1)
proof (rule escrow_dispute_effect)
  fix e :: escrow_object
  assume e: "find_row esc_key (esc_key e) (escrows db) = Some e" "db' = set_escrow (e\<lparr>esc_disputed := True\<rparr>) db" "esc_is_approved e"
  then have "escrow_ok (e\<lparr>esc_disputed := True\<rparr>)"
    using escrows_ok_row [OF assms(2) e(1)] by (simp add: escrow_ok_def esc_is_approved_def)
  then show ?thesis using assms(2) by (simp add: e(2) escrows_ok_set)
qed

lemma escrow_release_ok:
  assumes "escrow_release_apply db o1 = Inr db'" "escrows_ok db"
  shows "escrows_ok db'"
  using assms(1)
proof (rule escrow_release_effect)
  fix e :: escrow_object and db1 db2 f d
  let ?e = "e\<lparr>esc_freezone_balance := f, esc_sbd_balance := d\<rparr>"
  assume 1: "find_row esc_key (er_from o1, er_escrow_id o1) (escrows db) = Some e"
    "amount (er_freezone_amount o1) \<le> amount (esc_freezone_balance e)" "amount (er_sbd_amount o1) \<le> amount (esc_sbd_balance e)"
    "asset_sub (esc_freezone_balance e) (er_freezone_amount o1) = Inr f"
    "asset_sub (esc_sbd_balance e) (er_sbd_amount o1) = Inr d"
    and db: "adjust_balance db (er_receiver o1) (er_freezone_amount o1) = Inr db1"
    "adjust_balance db1 (er_receiver o1) (er_sbd_amount o1) = Inr db2"
    "db' = (if amount f = 0 \<and> amount d = 0 then remove_escrow ?e db2 else set_escrow ?e db2)"
  have "escrow_ok ?e"
    using escrows_ok_row [OF assms(2) 1(1)] 1(2-5) by (auto simp: escrow_ok_def esc_is_approved_def dest!: asset_sub_value)
  moreover have "escrows_ok db2"
    using assms(2) credit_escrows [OF db(1)] credit_escrows [OF db(2)] by (simp add: escrows_ok_def)
  ultimately show ?thesis by (simp add: db(3) escrows_ok_set escrows_ok_remove)
qed

lemma expire_escrow_ratification_ok:
  "expire_escrow_ratification db = Inr db' \<Longrightarrow> escrows_ok db \<Longrightarrow> escrows_ok db'"
  unfolding expire_escrow_ratification_def
  by (rule rfold_invariant) (auto intro: refund_escrow_ok)

section \<open>Solvency\<close>

lemma solvent_escrows [simp]:
  "solvent (db\<lparr>escrows := es\<rparr>) = solvent db" "solvent (set_escrow e db) = solvent db" "solvent (remove_escrow e db) = solvent db"
  by (simp_all add: solvent_def set_escrow_def remove_escrow_def)

lemma hardfork_escrows [simp]:
  "has_hardfork (set_escrow e db) n = has_hardfork db n" "has_hardfork (remove_escrow e db) n = has_hardfork db n"
  by (simp_all add: has_hardfork_def set_escrow_def remove_escrow_def)

lemma balance_solvent_step:
  "adjust_balance db name x = Inr db' \<Longrightarrow> solvent db \<and> has_hardfork db 20 \<Longrightarrow> solvent db' \<and> has_hardfork db' 20"
  using balance.credit_solvent frame_hardfork [OF balance.credit_frame] by blast

lemma balance_of_solvent_step:
  "adjust_balance_of db name x = Inr db' \<Longrightarrow> solvent db \<and> has_hardfork db 20 \<Longrightarrow> solvent db' \<and> has_hardfork db' 20"
  using balance_of.credit_solvent frame_hardfork [OF balance_of.credit_frame] by blast

lemma escrow_transfer_solvent:
  "escrow_transfer_apply db o1 = Inr db' \<Longrightarrow> has_hardfork db 20 \<Longrightarrow> solvent db \<Longrightarrow> solvent db'"
  by (auto simp: escrow_transfer_apply_def res_simps dest!: balance_of_solvent_step)

lemma refund_escrow_solvent:
  "refund_escrow name e db = Inr db' \<Longrightarrow> solvent db \<and> has_hardfork db 20 \<Longrightarrow> solvent db' \<and> has_hardfork db' 20"
  by (auto simp: refund_escrow_def res_simps dest!: balance_solvent_step)

lemma escrow_approve_solvent:
  "escrow_approve_apply db o1 = Inr db' \<Longrightarrow> has_hardfork db 20 \<Longrightarrow> solvent db \<Longrightarrow> solvent db'"
  by (auto simp: escrow_approve_apply_def Let_def res_simps split: if_splits
      dest!: refund_escrow_solvent balance_solvent_step)

lemma escrow_dispute_solvent:
  "escrow_dispute_apply db o1 = Inr db' \<Longrightarrow> solvent db \<Longrightarrow> solvent db'"
  by (auto simp: escrow_dispute_apply_def res_simps)

lemma escrow_release_solvent:
  "escrow_release_apply db o1 = Inr db' \<Longrightarrow> has_hardfork db 20 \<Longrightarrow> solvent db \<Longrightarrow> solvent db'"
  by (erule escrow_release_effect) (auto dest!: balance_solvent_step)

lemma expire_escrow_ratification_solvent:
  assumes "expire_escrow_ratification db = Inr db'" "has_hardfork db 20" "solvent db"
  shows "solvent db'"
  using rfold_invariant [where I = "\<lambda>d. solvent d \<and> has_hardfork d 20", OF assms(1) [unfolded expire_escrow_ratification_def]]
    assms(2,3) refund_escrow_solvent by blast

section \<open>Properties\<close>

text \<open>
  C16: the permission scheme the operation documents.  A release that succeeds has found an escrow
  that both parties approved, pays its sender or its receiver and nobody else, out of the balances
  it holds.  Under dispute only the agent released it; without a dispute the sender or the receiver
  did, and before the expiration each only in favour of the other.
\<close>

theorem escrow_release_permission:
  assumes "escrow_release_apply db o1 = Inr db'"
  shows "\<exists>e. get_escrow db (er_from o1) (er_escrow_id o1) = Inr e \<and> esc_is_approved e \<and>
    er_receiver o1 \<in> {esc_from e, esc_to e} \<and>
    amount (er_freezone_amount o1) \<le> amount (esc_freezone_balance e) \<and> amount (er_sbd_amount o1) \<le> amount (esc_sbd_balance e) \<and>
    (if esc_disputed e then er_who o1 = esc_agent e
     else er_who o1 \<in> {esc_from e, esc_to e} \<and>
       (head_block_time db < esc_escrow_expiration e \<longrightarrow>
          er_receiver o1 = (if er_who o1 = esc_from e then esc_to e else esc_from e)))"
  using assms
proof (rule escrow_release_effect)
  fix e :: escrow_object
  assume 1: "find_row esc_key (er_from o1, er_escrow_id o1) (escrows db) = Some e" "esc_is_approved e"
    "amount (er_freezone_amount o1) \<le> amount (esc_freezone_balance e)" "amount (er_sbd_amount o1) \<le> amount (esc_sbd_balance e)"
    "er_receiver o1 = esc_from e \<or> er_receiver o1 = esc_to e" "release_permitted (head_block_time db) e o1 = Inr ()"
  then show ?thesis
    by (intro exI [of _ e]) (auto simp: get_escrow_eq_Inr release_permitted_def fc_assert_eq_Inr split: if_splits)
qed


text \<open>A credit of SBD when no interest is due.\<close>

lemma adjust_balance_sbd:
  assumes "find_row acc_name n (accounts db) = Some a" "symbol (acc_sbd_balance a) = SBD_SYMBOL"
    "acc_sbd_seconds_last_update a = head_block_time db"
    "symbol x = SBD_SYMBOL" "0 \<le> amount (acc_sbd_balance a) + amount x" "amount (acc_sbd_balance a) + amount x \<le> i64_max"
    "i64_min < amount x"
  shows "\<exists>a'. adjust_balance db n x = Inr (set_account a' db) \<and> acc_name a' = acc_name a \<and> acc_balance a' = acc_balance a \<and>
    acc_sbd_balance a' = mk_asset (amount (acc_sbd_balance a) + amount x) SBD_SYMBOL \<and>
    acc_sbd_seconds_last_update a' = head_block_time db"
proof -
  have "check_available (get_balance db n (symbol x)) x = Inr ()"
    using assms
    by (intro check_available_ok) (auto simp: get_balance_def get_balance_of_def get_account_def get_row_def)
  moreover have "asset_add (acc_sbd_balance a) x = Inr (mk_asset (amount (acc_sbd_balance a) + amount x) SBD_SYMBOL)"
    using assms by (simp add: asset_add_ok)
  ultimately show ?thesis
    using assms
    by (intro exI [of _ "a\<lparr>acc_sbd_balance := mk_asset (amount (acc_sbd_balance a) + amount x) SBD_SYMBOL,
          acc_sbd_seconds_last_update := head_block_time db\<rparr>"])
      (simp add: adjust_balance_def modify_balance_def get_account_def get_row_def accrue_interest_def Let_def)
qed

text \<open>A state with an approved escrow, released before its expiration.\<close>

definition sample_escrow :: escrow_object where
  "sample_escrow = \<lparr>esc_escrow_id = 7, esc_from = ''alice'', esc_to = ''bob'', esc_agent = ''carol'',
     esc_ratification_deadline = 50, esc_escrow_expiration = 100, esc_sbd_balance = mk_asset 0 SBD_SYMBOL,
     esc_freezone_balance = mk_asset 300 freezone_SYMBOL, esc_pending_fee = mk_asset 0 freezone_SYMBOL,
     esc_to_approved = True, esc_agent_approved = True, esc_disputed = False\<rparr>"

definition sample_unratified :: escrow_object where
  "sample_unratified = sample_escrow\<lparr>esc_escrow_id := 8, esc_ratification_deadline := 0, esc_to_approved := False\<rparr>"

definition sample_escrow_db :: database where
  "sample_escrow_db = sample_db\<lparr>escrows := [sample_escrow, sample_unratified]\<rparr>"

definition sample_release :: escrow_release_operation where
  "sample_release = \<lparr>er_from = ''alice'', er_to = ''bob'', er_agent = ''carol'', er_who = ''alice'', er_receiver = ''bob'',
     er_escrow_id = 7, er_sbd_amount = mk_asset 0 SBD_SYMBOL, er_freezone_amount = mk_asset 200 freezone_SYMBOL\<rparr>"

lemma sample_account_sbd [simp]:
  "acc_sbd_balance (sample_account n x) = mk_asset 0 SBD_SYMBOL" "acc_sbd_seconds_last_update (sample_account n x) = 0"
  by (simp_all add: sample_account_def account_object_default_def)

lemma set_account_time [simp]: "head_block_time (set_account a db) = head_block_time db"
  by (simp add: head_block_time_def set_account_def)

lemma sample_escrow_rows:
  "find_row acc_name ''alice'' (accounts sample_escrow_db) = Some (sample_account ''alice'' 5000)"
  "find_row acc_name ''bob'' (accounts sample_escrow_db) = Some (sample_account ''bob'' 10)"
  "find_row esc_key (''alice'', 7) (escrows sample_escrow_db) = Some sample_escrow"
  by (simp_all add: sample_escrow_db_def sample_accounts sample_escrow_def esc_key_def)

lemma sample_release_succeeds: "\<exists>db'. escrow_release_apply sample_escrow_db sample_release = Inr db'"
proof -
  have h: "head_block_time sample_escrow_db = 0"
    by (simp add: sample_escrow_db_def sample_db_def empty_database_def head_block_time_def dynamic_global_property_object_default_def)
  let ?bob = "(sample_account ''bob'' 10)\<lparr>acc_balance := mk_asset 210 freezone_SYMBOL\<rparr>"
  have 1: "adjust_balance sample_escrow_db ''bob'' (mk_asset 200 freezone_SYMBOL) = Inr (set_account ?bob sample_escrow_db)"
    by (subst adjust_balance_native [OF sample_escrow_rows(2)]) simp_all
  have "find_row acc_name ''bob'' (accounts (set_account ?bob sample_escrow_db)) = Some ?bob"
    by (subst find_set_account [OF sample_escrow_rows(2)]) simp_all
  then have 2: "\<exists>db2. adjust_balance (set_account ?bob sample_escrow_db) ''bob'' (mk_asset 0 SBD_SYMBOL) = Inr db2"
    using adjust_balance_sbd [of "''bob''" "set_account ?bob sample_escrow_db" ?bob "mk_asset 0 SBD_SYMBOL"] h by auto
  show ?thesis
    using 1 2 sample_escrow_rows
    by (auto simp: escrow_release_apply_def sample_release_def get_account_def get_escrow_def get_row_def Let_def
        sample_escrow_def asset_ge_def asset_lt_def release_permitted_def asset_sub_def safe_sub_def h)
qed

theorem escrow_release_permission_witness:
  "\<exists>db' e. escrow_release_apply sample_escrow_db sample_release = Inr db' \<and>
     get_escrow sample_escrow_db ''alice'' 7 = Inr e \<and> esc_is_approved e \<and> \<not> esc_disputed e \<and> esc_to e = ''bob''"
proof -
  obtain db' where 1: "escrow_release_apply sample_escrow_db sample_release = Inr db'"
    using sample_release_succeeds by blast
  with escrow_release_permission [OF 1] show ?thesis
    by (auto simp: sample_release_def get_escrow_def get_row_def sample_escrow_rows sample_escrow_def)
qed


end
