(* ===== verification/Market.thy ===== *)
theory Market
  imports Escrow "HOL-Library.Multiset"
begin

text \<open>
  The internal market: \<^verbatim>\<open>fill_order\<close>, \<^verbatim>\<open>match\<close>, \<^verbatim>\<open>apply_order\<close>, \<^verbatim>\<open>cancel_order\<close>,
  \<^verbatim>\<open>clear_expired_orders\<close> and \<^verbatim>\<open>adjust_liquidity_reward\<close> of \<^verbatim>\<open>chain/database.cpp\<close> and the three
  limit order evaluators of \<^verbatim>\<open>chain/steem_evaluator.cpp\<close>.  An order is known by seller and order id;
  the container is in the order of creation.
\<close>

section \<open>Operations\<close>

record limit_order_create_operation =
  loc_owner :: account_name_type
  loc_orderid :: "32 word"
  loc_amount_to_sell :: asset
  loc_min_to_receive :: asset
  loc_fill_or_kill :: bool
  loc_expiration :: time_point_sec

record limit_order_create2_operation =
  loc2_owner :: account_name_type
  loc2_orderid :: "32 word"
  loc2_amount_to_sell :: asset
  loc2_fill_or_kill :: bool
  loc2_exchange_rate :: price
  loc2_expiration :: time_point_sec

record limit_order_cancel_operation =
  lox_owner :: account_name_type
  lox_orderid :: "32 word"

definition loc_get_price :: "limit_order_create_operation \<Rightarrow> price result" where
  "loc_get_price o1 = asset_div (loc_amount_to_sell o1) (loc_min_to_receive o1)"

section \<open>Liquidity rewards\<close>

definition freezone_LIQUIDITY_TIMEOUT_SEC :: int where "freezone_LIQUIDITY_TIMEOUT_SEC = 60 * 60 * 24 * 7"
definition freezone_MIN_LIQUIDITY_REWARD_PERIOD_SEC :: int where "freezone_MIN_LIQUIDITY_REWARD_PERIOD_SEC = 60"
definition freezone_MIN_LIQUIDITY_REWARD_PERIOD_SEC_HF10 :: int where
  "freezone_MIN_LIQUIDITY_REWARD_PERIOD_SEC_HF10 = 60 * 30"

definition lr_is_positive :: "liquidity_reward_balance_object \<Rightarrow> int" where
  "lr_is_positive r = (if lr_freezone_volume r > 0 \<and> lr_sbd_volume r > 0 then 1 else 0)"

definition lr_volume_weight :: "liquidity_reward_balance_object \<Rightarrow> 128 word" where
  "lr_volume_weight r = u128_of_i64 (i64_wrap (i64_wrap (lr_freezone_volume r * lr_sbd_volume r) * lr_is_positive r))"

definition lr_min_volume_weight :: "liquidity_reward_balance_object \<Rightarrow> 128 word" where
  "lr_min_volume_weight r = u128_of_i64 (i64_wrap (min (lr_freezone_volume r) (lr_sbd_volume r) * lr_is_positive r))"

definition lr_update_weight :: "bool \<Rightarrow> liquidity_reward_balance_object \<Rightarrow> liquidity_reward_balance_object" where
  "lr_update_weight hf9 r = r\<lparr>lr_weight := (if hf9 then lr_min_volume_weight r else lr_volume_weight r)\<rparr>"

definition adjust_liquidity_reward :: "database \<Rightarrow> account_name_type \<Rightarrow> asset \<Rightarrow> bool \<Rightarrow> database" where
  "adjust_liquidity_reward db owner volume is_sdb =
     (case find_row lr_owner owner (liquidity_reward_balances db) of
        Some r \<Rightarrow>
          (let r1 = (if seconds_between (head_block_time db) (lr_last_update r) \<ge> freezone_LIQUIDITY_TIMEOUT_SEC
                     then r\<lparr>lr_sbd_volume := 0, lr_freezone_volume := 0, lr_weight := 0\<rparr> else r);
               r2 = (if is_sdb then r1\<lparr>lr_sbd_volume := i64_wrap (lr_sbd_volume r1 + amount volume)\<rparr>
                     else r1\<lparr>lr_freezone_volume := i64_wrap (lr_freezone_volume r1 + amount volume)\<rparr>);
               r3 = (lr_update_weight (has_hardfork db 10) r2)\<lparr>lr_last_update := head_block_time db\<rparr>
           in db\<lparr>liquidity_reward_balances := update_row lr_owner owner r3 (liquidity_reward_balances db)\<rparr>)
      | None \<Rightarrow>
          (let r = \<lparr>lr_owner = owner, lr_freezone_volume = (if is_sdb then 0 else amount volume),
                    lr_sbd_volume = (if is_sdb then amount volume else 0), lr_weight = 0, lr_last_update = 0\<rparr>;
               r' = (lr_update_weight (has_hardfork db 9) r)\<lparr>lr_last_update := head_block_time db\<rparr>
           in db\<lparr>liquidity_reward_balances := liquidity_reward_balances db @ [r']\<rparr>))"

section \<open>Filling and matching\<close>

definition set_order :: "limit_order_object \<Rightarrow> database \<Rightarrow> database" where
  "set_order lo db = db\<lparr>limit_orders := update_row lo_key (lo_key lo) lo (limit_orders db)\<rparr>"

definition remove_order :: "limit_order_object \<Rightarrow> database \<Rightarrow> database" where
  "remove_order lo db = db\<lparr>limit_orders := remove_row lo_key (lo_key lo) (limit_orders db)\<rparr>"

definition cancel_order :: "limit_order_object \<Rightarrow> database \<Rightarrow> database result" where
  "cancel_order lo db =
     rbind (adjust_balance db (lo_seller lo) (amount_for_sale lo)) (\<lambda>db1. Inr (remove_order lo db1))"

text \<open>The result says whether the order left the book.\<close>

definition fill_order :: "limit_order_object \<Rightarrow> asset \<Rightarrow> asset \<Rightarrow> database \<Rightarrow> (bool \<times> database) result" where
  "fill_order lo pays receives db =
     throw_unless (symbol (amount_for_sale lo) = symbol pays) Order_fill_exception (
     throw_unless (symbol pays \<noteq> symbol receives) Order_fill_exception (
     rbind (adjust_balance db (lo_seller lo) receives) (\<lambda>db1.
     if pays = amount_for_sale lo then Inr (True, remove_order lo db1)
     else
       rbind (asset_lt pays (amount_for_sale lo)) (\<lambda>less.
       throw_unless less Order_fill_exception (
       rbind (safe_sub (lo_for_sale lo) (amount pays)) (\<lambda>n.
       let lo' = lo\<lparr>lo_for_sale := n\<rparr>; db2 = set_order lo' db1 in
       rbind (amount_to_receive lo') (\<lambda>r.
       if amount r = 0 then rbind (cancel_order lo' db2) (\<lambda>db3. Inr (True, db3))
       else Inr (False, db2))))))))"

text \<open>What the two sides of a match pay and receive: new order receives, old order receives.\<close>

definition match_amounts :: "limit_order_object \<Rightarrow> limit_order_object \<Rightarrow> price \<Rightarrow> (asset \<times> asset) result" where
  "match_amounts new_order old_order match_price =
     (let new_order_for_sale = amount_for_sale new_order; old_order_for_sale = amount_for_sale old_order in
      rbind (asset_mul_price old_order_for_sale match_price) (\<lambda>old_at_price.
      rbind (asset_le new_order_for_sale old_at_price) (\<lambda>le.
      if le then rbind (asset_mul_price new_order_for_sale match_price) (\<lambda>r. Inr (r, new_order_for_sale))
      else Inr (old_order_for_sale, old_at_price))))"

definition match_liquidity ::
    "limit_order_object \<Rightarrow> limit_order_object \<Rightarrow> asset \<Rightarrow> asset \<Rightarrow> database \<Rightarrow> database result" where
  "match_liquidity new_order old_order new_order_receives old_order_receives db =
     (let age = seconds_between (head_block_time db) (lo_created old_order) in
      if \<not> has_hardfork db 12 \<and>
         (age \<ge> freezone_MIN_LIQUIDITY_REWARD_PERIOD_SEC \<and> \<not> has_hardfork db 10 \<or>
          age \<ge> freezone_MIN_LIQUIDITY_REWARD_PERIOD_SEC_HF10 \<and> has_hardfork db 10)
      then
        (let is_sbd = (symbol old_order_receives \<noteq> freezone_SYMBOL);
             volume = (if is_sbd then new_order_receives else old_order_receives) in
         rbind (get_account db (lo_seller old_order)) (\<lambda>_.
         let db1 = adjust_liquidity_reward db (lo_seller old_order) volume is_sbd in
         rbind (get_account db1 (lo_seller new_order)) (\<lambda>_.
         rbind (asset_neg volume) (\<lambda>m.
         Inr (adjust_liquidity_reward db1 (lo_seller new_order) m is_sbd)))))
      else Inr db)"

text \<open>Both orders are passed by reference: the second fill reads the old order from the state the first left.\<close>

definition match ::
    "account_name_type \<times> 32 word \<Rightarrow> account_name_type \<times> 32 word \<Rightarrow> price \<Rightarrow> database \<Rightarrow> ((bool \<times> bool) \<times> database) result" where
  "match new_key old_key match_price db =
     rbind (get_row lo_key new_key (limit_orders db)) (\<lambda>new_order.
     rbind (get_row lo_key old_key (limit_orders db)) (\<lambda>old_order.
     throw_unless (symbol (quote (lo_sell_price new_order)) = symbol (base (lo_sell_price old_order))) Order_match_exception (
     throw_unless (symbol (base (lo_sell_price new_order)) = symbol (quote (lo_sell_price old_order))) Order_match_exception (
     throw_unless (lo_for_sale new_order > 0 \<and> lo_for_sale old_order > 0) Order_match_exception (
     throw_unless (symbol (quote match_price) = symbol (base (lo_sell_price new_order))) Order_match_exception (
     throw_unless (symbol (base match_price) = symbol (base (lo_sell_price old_order))) Order_match_exception (
     rbind (match_amounts new_order old_order match_price) (\<lambda>(new_order_receives, old_order_receives).
     let old_order_pays = new_order_receives; new_order_pays = old_order_receives in
     throw_unless (new_order_pays = amount_for_sale new_order \<or> old_order_pays = amount_for_sale old_order)
       Order_match_exception (
     rbind (match_liquidity new_order old_order new_order_receives old_order_receives db) (\<lambda>db1.
     let db2 = push_virtual_operation db1
       (fill_order_operation (lo_seller new_order) (lo_orderid new_order) new_order_pays
          (lo_seller old_order) (lo_orderid old_order) old_order_pays) in
     rbind (fill_order new_order new_order_pays new_order_receives db2) (\<lambda>(new_filled, db3).
     rbind (get_row lo_key old_key (limit_orders db3)) (\<lambda>old_order'.
     rbind (fill_order old_order' old_order_pays old_order_receives db3) (\<lambda>(old_filled, db4).
     throw_unless (new_filled \<or> old_filled) Order_match_exception (
     Inr ((new_filled, old_filled), db4)))))))))))))))"

section \<open>Matching a new order against the book\<close>

text \<open>The index \<^verbatim>\<open>by_price\<close>: best price first, the oldest order first among equals.\<close>

fun insert_by_price :: "limit_order_object \<Rightarrow> limit_order_object list \<Rightarrow> limit_order_object list" where
  "insert_by_price lo [] = [lo]"
| "insert_by_price lo (x # xs) =
     (if price_gt (lo_sell_price lo) (lo_sell_price x) then lo # x # xs else x # insert_by_price lo xs)"

definition by_price :: "limit_order_object list \<Rightarrow> limit_order_object list" where
  "by_price los = fold insert_by_price los []"

definition matching_orders :: "price \<Rightarrow> price \<Rightarrow> database \<Rightarrow> limit_order_object list" where
  "matching_orders lower upper db =
     filter (\<lambda>lo. \<not> price_gt (lo_sell_price lo) lower \<and> \<not> price_gt upper (lo_sell_price lo)) (by_price (limit_orders db))"

fun match_loop :: "account_name_type \<times> 32 word \<Rightarrow> limit_order_object list \<Rightarrow> database \<Rightarrow> database result" where
  "match_loop new_key [] db = Inr db"
| "match_loop new_key (lo # los) db =
     rbind (match new_key (lo_key lo) (lo_sell_price lo) db) (\<lambda>((new_filled, old_filled), db1).
     if new_filled then Inr db1 else match_loop new_key los db1)"

definition apply_order :: "account_name_type \<times> 32 word \<Rightarrow> database \<Rightarrow> (bool \<times> database) result" where
  "apply_order key db =
     rbind (get_row lo_key key (limit_orders db)) (\<lambda>new_order.
     rbind (price_inv (lo_sell_price new_order)) (\<lambda>max_price.
     rbind (price_max (symbol (base max_price)) (symbol (quote max_price))) (\<lambda>top.
     rbind (match_loop key (matching_orders top max_price db) db) (\<lambda>db1.
     Inr (find_row lo_key key (limit_orders db1) = None, db1)))))"

definition expired_orders :: "database \<Rightarrow> limit_order_object list" where
  "expired_orders db = sort_key lo_expiration (filter (\<lambda>lo. lo_expiration lo < head_block_time db) (limit_orders db))"

definition clear_expired_orders :: "database \<Rightarrow> database result" where
  "clear_expired_orders db = rfold cancel_order (expired_orders db) db"

section \<open>Evaluators\<close>

definition freezone_MAX_LIMIT_ORDER_EXPIRATION :: "32 word" where
  "freezone_MAX_LIMIT_ORDER_EXPIRATION = 60 * 60 * 24 * 28"
definition freezone_HARDFORK_0_20_TIME :: "32 word" where "freezone_HARDFORK_0_20_TIME = 1537887600"

text \<open>Word \<^verbatim>\<open>_hash[4]\<close> of a block id: its last four bytes, in the byte order of the host (little endian).\<close>

definition id_hash_word_4 :: "8 word list \<Rightarrow> 32 word" where
  "id_hash_word_4 h = foldr (\<lambda>b w. push_bit 8 w + ucast b) (take 4 (drop 16 h)) 0"

definition check_expiration :: "database \<Rightarrow> time_point_sec \<Rightarrow> database result \<Rightarrow> database result" where
  "check_expiration db expiration k =
     fc_assert (expiration > head_block_time db) ''Limit order has to expire after head block time.'' (
     fc_assert (\<not> has_hardfork db 20 \<or> expiration \<le> head_block_time db + freezone_MAX_LIMIT_ORDER_EXPIRATION)
       ''Limit Order Expiration must not be more than 28 days in the future'' k)"

text \<open>The common end of both evaluators: take the amount, create the order, match it.\<close>

definition place_order ::
    "database \<Rightarrow> account_name_type \<Rightarrow> 32 word \<Rightarrow> asset \<Rightarrow> price result \<Rightarrow> time_point_sec \<Rightarrow> bool \<Rightarrow> database result" where
  "place_order db owner orderid amount_to_sell sell_price expiration fill_or_kill =
     rbind (asset_neg amount_to_sell) (\<lambda>m.
     rbind (adjust_balance db owner m) (\<lambda>db1.
     rbind sell_price (\<lambda>p.
     rbind (insert_row lo_key
              \<lparr>lo_created = head_block_time db1, lo_expiration = expiration, lo_seller = owner, lo_orderid = orderid,
               lo_for_sale = amount amount_to_sell, lo_sell_price = p\<rparr> (limit_orders db1)) (\<lambda>los.
     rbind (apply_order (owner, orderid) (db1\<lparr>limit_orders := los\<rparr>)) (\<lambda>(filled, db2).
     fc_assert (fill_or_kill \<longrightarrow> filled) ''Cancelling order because it was not filled.'' (Inr db2))))))"

definition limit_order_create_apply :: "database \<Rightarrow> limit_order_create_operation \<Rightarrow> database result" where
  "limit_order_create_apply db o1 =
     fc_assert (\<not> has_hardfork db 23)
       ''The 'limit_order_create' operation is deprecated in favor of `limit_order_create2'.'' (
     check_expiration db (loc_expiration o1) (
     place_order db (loc_owner o1) (loc_orderid o1) (loc_amount_to_sell o1) (loc_get_price o1)
       (if has_hardfork db 20 then loc_expiration o1
        else min (loc_expiration o1)
               (freezone_HARDFORK_0_20_TIME + freezone_MAX_LIMIT_ORDER_EXPIRATION +
                id_hash_word_4 (gp_head_block_id (dgpo db)) mod 86400))
       (loc_fill_or_kill o1)))"

definition order_exchange_rate :: "database \<Rightarrow> limit_order_create2_operation \<Rightarrow> price result" where
  "order_exchange_rate db o1 =
     (let x = loc2_exchange_rate o1; sell = loc2_amount_to_sell o1 in
      if has_hardfork db 23 then
        rbind (validate_tick_pricing x) (\<lambda>_.
        fc_assert (space (symbol (quote x)) = SST_nai_space \<longrightarrow>
                   find_row tok_liquid_symbol (symbol (quote x)) (SST_tokens db) \<noteq> None)
          ''Unable to find quote token. Symbol: ${symbol}'' (
        rbind (if symbol sell \<noteq> symbol (base x) then price_inv x else Inr x) (\<lambda>y.
        fc_assert (symbol sell = symbol (base y))
          ''Sell asset must be in the price. Sell symbol: ${symbol}, Exchange rate: ${exchange}'' (Inr y))))
      else
        fc_assert (symbol sell = symbol (base x)) ''Sell asset must be the base of the price'' (
        fc_assert (symbol sell = freezone_SYMBOL \<and> symbol (quote x) = SBD_SYMBOL \<or>
                   symbol sell = SBD_SYMBOL \<and> symbol (quote x) = freezone_SYMBOL)
          ''Amount to sell symbol cannot be paired the given quote. Sell symbol: ${symbol}, Quote symbol: ${quote}''
          (Inr x)))"

definition limit_order_create2_apply :: "database \<Rightarrow> limit_order_create2_operation \<Rightarrow> database result" where
  "limit_order_create2_apply db o1 =
     check_expiration db (loc2_expiration o1) (
     rbind (order_exchange_rate db o1) (\<lambda>rate.
     place_order db (loc2_owner o1) (loc2_orderid o1) (loc2_amount_to_sell o1) (Inr rate)
       (if has_hardfork db 20 then loc2_expiration o1
        else min (loc2_expiration o1) (freezone_HARDFORK_0_20_TIME + freezone_MAX_LIMIT_ORDER_EXPIRATION))
       (loc2_fill_or_kill o1)))"

definition limit_order_cancel_apply :: "database \<Rightarrow> limit_order_cancel_operation \<Rightarrow> database result" where
  "limit_order_cancel_apply db o1 =
     rbind (get_limit_order db (lox_owner o1) (lox_orderid o1)) (\<lambda>lo. cancel_order lo db)"

section \<open>Conservation\<close>

lemma surplus_limit_orders [ledger_simps]:
  "surplus s (db\<lparr>limit_orders := los\<rparr>) = surplus s db +
     sum_rows (\<lambda>lo. amt s (amount_for_sale lo)) los - sum_rows (\<lambda>lo. amt s (amount_for_sale lo)) (limit_orders db)"
  by (simp add: surplus_def held_def issued_def)

lemma surplus_set_order [ledger_simps]:
  "find_row lo_key (lo_key lo) (limit_orders db) = Some lo0 \<Longrightarrow>
   surplus s (set_order lo db) = surplus s db + amt s (amount_for_sale lo) - amt s (amount_for_sale lo0)"
  by (simp add: set_order_def ledger_simps table_simps)

lemma surplus_remove_order [ledger_simps]:
  "find_row lo_key (lo_key lo) (limit_orders db) = Some lo0 \<Longrightarrow>
   surplus s (remove_order lo db) = surplus s db - amt s (amount_for_sale lo0)"
  by (simp add: remove_order_def ledger_simps table_simps)

lemma orders_set [simp]: "limit_orders (set_order lo db) = update_row lo_key (lo_key lo) lo (limit_orders db)"
  by (simp add: set_order_def)

lemma orders_remove [simp]: "limit_orders (remove_order lo db) = remove_row lo_key (lo_key lo) (limit_orders db)"
  by (simp add: remove_order_def)

lemma lo_key_for_sale [simp]: "lo_key (lo\<lparr>lo_for_sale := n\<rparr>) = lo_key lo"
  by (simp add: lo_key_def)

lemma credit_orders: "adjust_balance db name x = Inr db' \<Longrightarrow> limit_orders db' = limit_orders db"
  by (auto simp: same_frame_def dest: balance.credit_frame)

lemma cancel_order_effect:
  assumes "cancel_order lo db = Inr db'"
  shows "limit_orders db' = remove_row lo_key (lo_key lo) (limit_orders db)"
    and "find_row lo_key (lo_key lo) (limit_orders db) = Some lo \<Longrightarrow> surplus s db' = surplus s db"
proof -
  obtain db1 where 1: "adjust_balance db (lo_seller lo) (amount_for_sale lo) = Inr db1" "db' = remove_order lo db1"
    using assms by (auto simp: cancel_order_def res_simps)
  show "limit_orders db' = remove_row lo_key (lo_key lo) (limit_orders db)" by (simp add: 1(2) credit_orders [OF 1(1)])
  show "surplus s db' = surplus s db" if "find_row lo_key (lo_key lo) (limit_orders db) = Some lo"
    using that balance.credit_surplus [OF 1(1), of s] by (simp add: 1(2) credit_orders [OF 1(1)] ledger_simps)
qed

text \<open>
  The three outcomes of a fill: the order is sold completely, its rest is too small to buy anything
  and is returned, or it stays in the book with the rest.
\<close>

lemma fill_order_cases:
  assumes "fill_order lo pays receives db = Inr (filled, db')"
  obtains (complete) db1 where "adjust_balance db (lo_seller lo) receives = Inr db1" "pays = amount_for_sale lo"
      "filled" "db' = remove_order lo db1"
  | (returned) db1 r where "adjust_balance db (lo_seller lo) receives = Inr db1"
      "symbol pays = symbol (amount_for_sale lo)" "amount pays < lo_for_sale lo" "filled"
      "amount_to_receive (lo\<lparr>lo_for_sale := lo_for_sale lo - amount pays\<rparr>) = Inr r" "amount r = 0"
      "cancel_order (lo\<lparr>lo_for_sale := lo_for_sale lo - amount pays\<rparr>)
         (set_order (lo\<lparr>lo_for_sale := lo_for_sale lo - amount pays\<rparr>) db1) = Inr db'"
  | (rest) db1 r where "adjust_balance db (lo_seller lo) receives = Inr db1"
      "symbol pays = symbol (amount_for_sale lo)" "amount pays < lo_for_sale lo" "\<not> filled"
      "amount_to_receive (lo\<lparr>lo_for_sale := lo_for_sale lo - amount pays\<rparr>) = Inr r" "amount r \<noteq> 0"
      "db' = set_order (lo\<lparr>lo_for_sale := lo_for_sale lo - amount pays\<rparr>) db1"
proof -
  obtain db1 where 1: "symbol (amount_for_sale lo) = symbol pays" "adjust_balance db (lo_seller lo) receives = Inr db1"
    and c: "(if pays = amount_for_sale lo then Inr (True, remove_order lo db1)
     else
       rbind (asset_lt pays (amount_for_sale lo)) (\<lambda>less.
       throw_unless less Order_fill_exception (
       rbind (safe_sub (lo_for_sale lo) (amount pays)) (\<lambda>n.
       let lo' = lo\<lparr>lo_for_sale := n\<rparr>; db2 = set_order lo' db1 in
       rbind (amount_to_receive lo') (\<lambda>r.
       if amount r = 0 then rbind (cancel_order lo' db2) (\<lambda>db3. Inr (True, db3))
       else Inr (False, db2)))))) = Inr (filled, db')"
    using assms by (auto simp: fill_order_def rbind_eq_Inr [of "adjust_balance _ _ _"] throw_unless_eq_Inr)
  show ?thesis
  proof (cases "pays = amount_for_sale lo")
    case True
    with c 1 complete show ?thesis by simp
  next
    case False
    then obtain r where 2: "amount pays < lo_for_sale lo"
        "amount_to_receive (lo\<lparr>lo_for_sale := lo_for_sale lo - amount pays\<rparr>) = Inr r"
        "(if amount r = 0 then rbind (cancel_order (lo\<lparr>lo_for_sale := lo_for_sale lo - amount pays\<rparr>)
            (set_order (lo\<lparr>lo_for_sale := lo_for_sale lo - amount pays\<rparr>) db1)) (\<lambda>db3. Inr (True, db3))
          else Inr (False, set_order (lo\<lparr>lo_for_sale := lo_for_sale lo - amount pays\<rparr>) db1)) = Inr (filled, db')"
      using c by (auto simp: Let_def rbind_eq_Inr [of "asset_lt _ _"] rbind_eq_Inr [of "safe_sub _ _"]
          rbind_eq_Inr [of "amount_to_receive _"] throw_unless_eq_Inr asset_cmp_eq_Inr amount_for_sale_def dest!: safe_values)
    show ?thesis
    proof (cases "amount r = 0")
      case True
      with 2 1 returned [of db1 r] show ?thesis by (auto simp: rbind_eq_Inr)
    next
      case False
      with 2 1 rest [of db1 r] show ?thesis by auto
    qed
  qed
qed

lemma find_row_self: "find_row key k vs = Some v \<Longrightarrow> find_row key (key v) vs = Some v"
  using find_row_key by fastforce

lemma remove_update_row: "key v = k \<Longrightarrow> remove_row key k (update_row key k v vs) = remove_row key k vs"
  by (induction vs) auto

lemma fill_order_orders:
  assumes "fill_order lo pays receives db = Inr (filled, db')"
  shows "limit_orders db' = (if filled then remove_row lo_key (lo_key lo) (limit_orders db)
     else update_row lo_key (lo_key lo) (lo\<lparr>lo_for_sale := lo_for_sale lo - amount pays\<rparr>) (limit_orders db))"
  using assms
  by (cases rule: fill_order_cases) (simp_all add: credit_orders cancel_order_effect(1) remove_update_row)

lemma amt_for_sale_rest:
  "symbol pays = symbol (amount_for_sale lo) \<Longrightarrow>
   amt s (amount_for_sale (lo\<lparr>lo_for_sale := lo_for_sale lo - amount pays\<rparr>)) = amt s (amount_for_sale lo) - amt s pays"
  by (simp add: amount_for_sale_def amt_def)

lemma fill_order_surplus:
  assumes "fill_order lo pays receives db = Inr (filled, db')" "find_row lo_key (lo_key lo) (limit_orders db) = Some lo"
  shows "surplus s db' = surplus s db + amt s receives - amt s pays"
  using assms(1)
proof (cases rule: fill_order_cases)
  case (complete db1)
  then show ?thesis
    using assms(2) balance.credit_surplus [OF complete(1), of s] by (simp add: ledger_simps credit_orders [OF complete(1)])
next
  case (returned db1 r)
  let ?lo = "lo\<lparr>lo_for_sale := lo_for_sale lo - amount pays\<rparr>"
  have f: "find_row lo_key (lo_key lo) (limit_orders db1) = Some lo" using assms(2) credit_orders [OF returned(1)] by simp
  have "find_row lo_key (lo_key ?lo) (limit_orders (set_order ?lo db1)) = Some ?lo"
    using f by (simp add: table_simps)
  from cancel_order_effect(2) [OF returned(7) this, of s] show ?thesis
    using f balance.credit_surplus [OF returned(1), of s] by (simp add: ledger_simps amt_for_sale_rest [OF returned(2)])
next
  case (rest db1 r)
  then show ?thesis
    using assms(2) balance.credit_surplus [OF rest(1), of s]
    by (simp add: ledger_simps credit_orders [OF rest(1)] amt_for_sale_rest)
qed

lemma liquidity_tables [simp]:
  "limit_orders (adjust_liquidity_reward db n v b) = limit_orders db"
  "surplus s (adjust_liquidity_reward db n v b) = surplus s db"
  "accounts (adjust_liquidity_reward db n v b) = accounts db"
  "solvent (adjust_liquidity_reward db n v b) = solvent db"
  "has_hardfork (adjust_liquidity_reward db n v b) h = has_hardfork db h"
  "head_block_time (adjust_liquidity_reward db n v b) = head_block_time db"
  by (simp_all add: adjust_liquidity_reward_def Let_def surplus_def held_def issued_def solvent_def has_hardfork_def
      head_block_time_def split: option.split)

lemma match_liquidity_tables:
  assumes "match_liquidity n old nr rr db = Inr db'"
  shows "limit_orders db' = limit_orders db" "surplus s db' = surplus s db" "solvent db' = solvent db"
    "has_hardfork db' h = has_hardfork db h"
  using assms by (auto simp: match_liquidity_def Let_def res_simps split: if_splits)

text \<open>What a match that succeeds has done.\<close>

lemma match_effect:
  assumes "match new_key old_key p db = Inr ((nf, of'), db')"
  obtains new old nr rr db1 db3 where
    "find_row lo_key new_key (limit_orders db) = Some new" "find_row lo_key old_key (limit_orders db) = Some old"
    "lo_key new = new_key" "lo_key old = old_key"
    "symbol (quote (lo_sell_price new)) = symbol (base (lo_sell_price old))"
    "symbol (base (lo_sell_price new)) = symbol (quote (lo_sell_price old))"
    "symbol (quote p) = symbol (base (lo_sell_price new))" "symbol (base p) = symbol (base (lo_sell_price old))"
    "0 < lo_for_sale new" "0 < lo_for_sale old"
    "match_amounts new old p = Inr (nr, rr)" "rr = amount_for_sale new \<or> nr = amount_for_sale old"
    "limit_orders db1 = limit_orders db" "\<And>s. surplus s db1 = surplus s db" "solvent db1 = solvent db"
    "\<And>h. has_hardfork db1 h = has_hardfork db h"
    "fill_order new rr nr db1 = Inr (nf, db3)"
    "\<exists>old'. find_row lo_key old_key (limit_orders db3) = Some old' \<and> fill_order old' nr rr db3 = Inr (of', db')"
    "nf \<or> of'"
proof -
  obtain new old nr rr db0 db3 old' where 1:
    "find_row lo_key new_key (limit_orders db) = Some new" "find_row lo_key old_key (limit_orders db) = Some old"
    "symbol (quote (lo_sell_price new)) = symbol (base (lo_sell_price old))"
    "symbol (base (lo_sell_price new)) = symbol (quote (lo_sell_price old))"
    "symbol (quote p) = symbol (base (lo_sell_price new))" "symbol (base p) = symbol (base (lo_sell_price old))"
    "0 < lo_for_sale new" "0 < lo_for_sale old"
    "match_amounts new old p = Inr (nr, rr)" "rr = amount_for_sale new \<or> nr = amount_for_sale old"
    "match_liquidity new old nr rr db = Inr db0"
    "fill_order new rr nr (push_virtual_operation db0
       (fill_order_operation (lo_seller new) (lo_orderid new) rr (lo_seller old) (lo_orderid old) nr)) = Inr (nf, db3)"
    "find_row lo_key old_key (limit_orders db3) = Some old'" "fill_order old' nr rr db3 = Inr (of', db')" "nf \<or> of'"
    using assms
    by (auto simp: match_def Let_def rbind_eq_Inr throw_unless_eq_Inr get_row_eq_Inr)
  show ?thesis
    by (rule that [OF 1(1,2) find_row_key [OF 1(1)] find_row_key [OF 1(2)] 1(3-10) _ _ _ _ 1(12) _ 1(15)])
      (use 1(13,14) match_liquidity_tables [OF 1(11)] in \<open>auto simp: push_virtual_operation_def solvent_def has_hardfork_def\<close>)
qed

lemma match_conserves:
  assumes "match new_key old_key p db = Inr (r, db')"
  shows "surplus s db' = surplus s db"
proof -
  obtain nf of' where r: "r = (nf, of')" by (cases r)
  show ?thesis
    using assms [unfolded r]
  proof (rule match_effect)
    fix new nr rr db1 db3
    assume 1: "find_row lo_key new_key (limit_orders db) = Some new" "lo_key new = new_key"
      "limit_orders db1 = limit_orders db" "\<And>s. surplus s db1 = surplus s db" "fill_order new rr nr db1 = Inr (nf, db3)"
      "\<exists>old'. find_row lo_key old_key (limit_orders db3) = Some old' \<and> fill_order old' nr rr db3 = Inr (of', db')"
    then obtain old' where 2: "find_row lo_key old_key (limit_orders db3) = Some old'" "fill_order old' nr rr db3 = Inr (of', db')"
      by blast
    show ?thesis
      using fill_order_surplus [OF 1(5), of s] fill_order_surplus [OF 2(2), of s] 1 2(1) find_row_key [OF 2(1)] by simp
  qed
qed

lemma match_loop_conserves:
  "match_loop k los db = Inr db' \<Longrightarrow> surplus s db' = surplus s db"
  by (induction los arbitrary: db) (auto simp: res_simps split: if_splits prod.splits dest!: match_conserves [where s = s])

lemma apply_order_conserves:
  "apply_order k db = Inr (filled, db') \<Longrightarrow> surplus s db' = surplus s db"
  by (auto simp: apply_order_def res_simps dest: match_loop_conserves)

lemma place_order_conserves:
  assumes "place_order db owner oid sell price_r ex fok = Inr db'" "\<And>p. price_r = Inr p \<Longrightarrow> symbol (base p) = symbol sell"
  shows "surplus s db' = surplus s db"
proof -
  obtain m db1 p lo filled where 1: "asset_neg sell = Inr m" "adjust_balance db owner m = Inr db1" "price_r = Inr p"
      "lo = \<lparr>lo_created = head_block_time db1, lo_expiration = ex, lo_seller = owner, lo_orderid = oid,
        lo_for_sale = amount sell, lo_sell_price = p\<rparr>"
      "apply_order (owner, oid) (db1\<lparr>limit_orders := limit_orders db1 @ [lo]\<rparr>) = Inr (filled, db')"
    using assms(1) by (auto simp: place_order_def res_simps split: prod.splits)
  have "amount_for_sale lo = sell" using assms(2) [OF 1(3)] by (simp add: 1(4) amount_for_sale_def mk_asset_def)
  then show ?thesis
    using apply_order_conserves [OF 1(5), of s] balance.credit_surplus [OF 1(2), of s] amt_neg [OF 1(1), of s]
    by (simp add: ledger_simps table_simps)
qed

lemma limit_order_create_conserves:
  "limit_order_create_apply db o1 = Inr db' \<Longrightarrow> surplus s db' = surplus s db"
  unfolding limit_order_create_apply_def check_expiration_def fc_assert_eq_Inr
  by (elim conjE, erule place_order_conserves)
    (auto simp: loc_get_price_def asset_div_def res_simps dest!: mk_price_eq_Inr [THEN iffD1])

lemma order_exchange_rate_base: "order_exchange_rate db o1 = Inr p \<Longrightarrow> symbol (base p) = symbol (loc2_amount_to_sell o1)"
  by (auto simp: order_exchange_rate_def Let_def res_simps split: if_splits)

lemma limit_order_create2_conserves:
  "limit_order_create2_apply db o1 = Inr db' \<Longrightarrow> surplus s db' = surplus s db"
  unfolding limit_order_create2_apply_def check_expiration_def fc_assert_eq_Inr rbind_eq_Inr [of "order_exchange_rate _ _"]
  by (elim conjE exE, erule place_order_conserves) (auto dest: order_exchange_rate_base)

lemma limit_order_cancel_conserves:
  "limit_order_cancel_apply db o1 = Inr db' \<Longrightarrow> surplus s db' = surplus s db"
  by (auto simp: limit_order_cancel_apply_def get_limit_order_def rbind_eq_Inr get_row_eq_Inr split: if_splits
      intro: cancel_order_effect(2) find_row_self)

interpretation order_loop: consuming_loop limit_orders lo_key cancel_order "surplus s" for s
  by unfold_locales (auto intro: cancel_order_effect)

lemma clear_expired_orders_effect:
  assumes "clear_expired_orders db = Inr db'" "distinct (map lo_key (limit_orders db))"
  shows "surplus s db' = surplus s db"
    and "limit_orders db' = filter (\<lambda>lo. \<not> lo_expiration lo < head_block_time db) (limit_orders db)"
proof -
  have d: "set (expired_orders db) = {lo \<in> set (limit_orders db). lo_expiration lo < head_block_time db}"
    by (auto simp: expired_orders_def)
  have "distinct (expired_orders db)" using assms(2) by (auto simp: expired_orders_def distinct_map)
  note loop = order_loop.loop_due [OF assms(1) [unfolded clear_expired_orders_def] assms(2) d this]
  show "surplus s db' = surplus s db" by (rule loop(1))
  show "limit_orders db' = filter (\<lambda>lo. \<not> lo_expiration lo < head_block_time db) (limit_orders db)" by (rule loop(2))
qed

section \<open>The order book\<close>

text \<open>The price index: prices with positive amounts are ordered by market and then by value.\<close>

definition price_key :: "price \<Rightarrow> (32 word \<times> 32 word) \<times> rat" where
  "price_key p = ((symbol (base p), symbol (quote p)), price_rat p)"

lemma price_gt_key: "price_ok a \<Longrightarrow> price_ok b \<Longrightarrow> price_gt a b \<longleftrightarrow> price_key b < price_key a"
  using amult_less_iff [of b a]
  by (auto simp: price_gt_def price_key_def same_bq_def bq_less_def less_prod_def)

lemma price_eq_key: "price_ok a \<Longrightarrow> price_ok b \<Longrightarrow> price_eq a b \<longleftrightarrow> price_key a = price_key b"
  using amult_eq_iff [of a b] by (auto simp: price_eq_def price_key_def same_bq_def)

lemma mset_insert_by_price: "mset (insert_by_price lo los) = add_mset lo (mset los)"
  by (induction los) auto

lemma mset_by_price: "mset (by_price los) = mset los"
proof -
  have "mset (fold insert_by_price los acc) = mset los + mset acc" for acc
    by (induction los arbitrary: acc) (auto simp: mset_insert_by_price)
  then show ?thesis by (simp add: by_price_def)
qed

lemma set_insert_by_price: "set (insert_by_price lo los) = insert lo (set los)"
  using arg_cong [OF mset_insert_by_price, of set_mset] by simp

lemma set_by_price: "set (by_price los) = set los"
  using mset_by_price by (rule mset_eq_setD)

abbreviation order_key :: "limit_order_object \<Rightarrow> (32 word \<times> 32 word) \<times> rat" where
  "order_key lo \<equiv> price_key (lo_sell_price lo)"

lemma insert_by_price_sorted:
  assumes "sorted_wrt (\<lambda>x y. order_key y \<le> order_key x) los" "\<forall>x \<in> insert lo (set los). price_ok (lo_sell_price x)"
  shows "sorted_wrt (\<lambda>x y. order_key y \<le> order_key x) (insert_by_price lo los)"
  using assms
proof (induction los)
  case (Cons x los)
  show ?case
  proof (cases "price_gt (lo_sell_price lo) (lo_sell_price x)")
    case True
    then have "order_key x < order_key lo" using Cons.prems by (simp add: price_gt_key)
    then show ?thesis using True Cons.prems by auto
  next
    case False
    then have "order_key lo \<le> order_key x" using Cons.prems by (simp add: price_gt_key)
    then show ?thesis using False Cons by (simp add: set_insert_by_price)
  qed
qed simp

lemma insert_by_price_stable:
  assumes "sorted_wrt (\<lambda>x y. order_key y \<le> order_key x) los" "\<forall>x \<in> insert lo (set los). price_ok (lo_sell_price x)"
  shows "filter (\<lambda>x. order_key x = c) (insert_by_price lo los) =
    filter (\<lambda>x. order_key x = c) los @ (if order_key lo = c then [lo] else [])"
  using assms
proof (induction los)
  case (Cons x los)
  show ?case
  proof (cases "price_gt (lo_sell_price lo) (lo_sell_price x)")
    case True
    then have "order_key x < order_key lo" using Cons.prems by (simp add: price_gt_key)
    moreover from this have "filter (\<lambda>y. order_key y = order_key lo) los = []"
      using Cons.prems(1) by (auto simp: filter_empty_conv)
    ultimately show ?thesis using True by auto
  qed (use Cons in auto)
qed simp

lemma by_price_facts:
  assumes "\<forall>lo \<in> set los. price_ok (lo_sell_price lo)"
  shows "sorted_wrt (\<lambda>x y. order_key y \<le> order_key x) (by_price los)"
    and "filter (\<lambda>x. order_key x = c) (by_price los) = filter (\<lambda>x. order_key x = c) los"
proof -
  have "sorted_wrt (\<lambda>x y. order_key y \<le> order_key x) (fold insert_by_price los acc) \<and>
      filter (\<lambda>x. order_key x = c) (fold insert_by_price los acc) =
      filter (\<lambda>x. order_key x = c) acc @ filter (\<lambda>x. order_key x = c) los"
    if "sorted_wrt (\<lambda>x y. order_key y \<le> order_key x) acc" "\<forall>x \<in> set acc \<union> set los. price_ok (lo_sell_price x)" for acc
    using that
  proof (induction los arbitrary: acc)
    case (Cons lo los)
    then have "sorted_wrt (\<lambda>x y. order_key y \<le> order_key x) (insert_by_price lo acc)"
      by (intro insert_by_price_sorted) auto
    with Cons show ?case by (auto simp: set_insert_by_price insert_by_price_stable)
  qed simp
  from this [of "[]"] show "sorted_wrt (\<lambda>x y. order_key y \<le> order_key x) (by_price los)"
    "filter (\<lambda>x. order_key x = c) (by_price los) = filter (\<lambda>x. order_key x = c) los"
    using assms by (simp_all add: by_price_def)
qed

text \<open>The book as a map from keys to orders, and the invariant of the container.\<close>

definition book :: "database \<Rightarrow> account_name_type \<times> 32 word \<Rightarrow> limit_order_object option" where
  "book db k = find_row lo_key k (limit_orders db)"

definition order_ok :: "limit_order_object \<Rightarrow> bool" where
  "order_ok lo \<longleftrightarrow> 0 < lo_for_sale lo \<and> price_ok (lo_sell_price lo) \<and>
     symbol (base (lo_sell_price lo)) \<noteq> symbol (quote (lo_sell_price lo))"

definition orders_ok :: "database \<Rightarrow> bool" where
  "orders_ok db \<longleftrightarrow> distinct (map lo_key (limit_orders db)) \<and> (\<forall>lo \<in> set (limit_orders db). order_ok lo)"

lemma book_key: "book db k = Some lo \<Longrightarrow> lo_key lo = k"
  by (auto simp: book_def dest: find_row_key)

lemma book_ok: "orders_ok db \<Longrightarrow> book db k = Some lo \<Longrightarrow> order_ok lo"
  by (auto simp: orders_ok_def book_def dest: find_row_in_set)

lemma book_mem: "orders_ok db \<Longrightarrow> lo \<in> set (limit_orders db) \<Longrightarrow> book db (lo_key lo) = Some lo"
  by (auto simp: orders_ok_def book_def intro: find_row_distinct)

lemma orders_ok_remove:
  "orders_ok db \<Longrightarrow> limit_orders db' = remove_row lo_key k (limit_orders db) \<Longrightarrow> orders_ok db'"
  using set_remove_row [of lo_key k "limit_orders db"] by (auto simp: orders_ok_def table_simps)

lemma fill_order_book:
  assumes "fill_order lo pays receives db = Inr (filled, db')" "book db (lo_key lo) = Some lo" "orders_ok db"
  shows "book db' = (book db)(lo_key lo :=
      if filled then None else Some (lo\<lparr>lo_for_sale := lo_for_sale lo - amount pays\<rparr>))" (is ?book)
    and "orders_ok db'"
proof -
  let ?lo = "lo\<lparr>lo_for_sale := lo_for_sale lo - amount pays\<rparr>"
  note rows = fill_order_orders [OF assms(1)]
  show ?book
    using assms(2,3) by (auto simp: book_def rows orders_ok_def table_simps fun_eq_iff)
  have ok: "order_ok lo" using book_ok [OF assms(3,2)] .
  show "orders_ok db'"
  proof (cases filled)
    case True
    then show ?thesis using rows by (auto intro: orders_ok_remove [OF assms(3)])
  next
    case False
    with assms(1) have "amount pays < lo_for_sale lo" by (cases rule: fill_order_cases) auto
    then have "order_ok ?lo" using ok by (simp add: order_ok_def)
    then show ?thesis
      using False rows assms(3) set_update_row [of lo_key "lo_key lo" ?lo "limit_orders db"]
      by (auto simp: orders_ok_def table_simps)
  qed
qed

text \<open>A match concerns two orders only; each keeps its price, and one that is done leaves the book.\<close>

definition done_or :: "bool \<Rightarrow> limit_order_object \<Rightarrow> int \<Rightarrow> limit_order_object option" where
  "done_or filled lo n = (if filled then None else Some (lo\<lparr>lo_for_sale := n\<rparr>))"

lemma match_book:
  assumes "match nk ok p db = Inr ((nf, of'), db')" "orders_ok db"
  obtains new old n m where "book db nk = Some new" "book db ok = Some old" "nk \<noteq> ok" "nf \<or> of'" "orders_ok db'"
    "book db' = (book db)(nk := done_or nf new n, ok := done_or of' old m)"
  using assms(1)
proof (rule match_effect)
  fix new old nr rr db1 db3
  assume 1: "find_row lo_key nk (limit_orders db) = Some new" "find_row lo_key ok (limit_orders db) = Some old"
    "lo_key new = nk" "lo_key old = ok" "symbol (base (lo_sell_price new)) = symbol (quote (lo_sell_price old))"
    "limit_orders db1 = limit_orders db" "nf \<or> of'" "fill_order new rr nr db1 = Inr (nf, db3)"
    "\<exists>old'. find_row lo_key ok (limit_orders db3) = Some old' \<and> fill_order old' nr rr db3 = Inr (of', db')"
  have b: "book db1 = book db" "orders_ok db1" using 1(6) assms(2) by (auto simp: book_def orders_ok_def fun_eq_iff)
  have ne: "nk \<noteq> ok"
    using 1(1,2,5) book_ok [OF assms(2), of nk new] by (auto simp: order_ok_def book_def)
  have "book db1 (lo_key new) = Some new" using 1(1,3) by (simp add: b(1)) (simp add: book_def)
  note f1 = fill_order_book [OF 1(8) this b(2)]
  have "find_row lo_key ok (limit_orders db3) = Some old"
    using ne 1(2) fun_cong [OF f1(1), of ok] by (simp add: 1(3) b(1)) (simp add: book_def)
  then have f: "fill_order old nr rr db3 = Inr (of', db')" "book db3 (lo_key old) = Some old"
    using 1(9) by (auto simp: book_def 1(4))
  note f2 = fill_order_book [OF f f1(2)]
  show ?thesis
    using 1(1,2) ne 1(7) f2(2)
    by (intro that [of new old "lo_for_sale new - amount rr" "lo_for_sale old - amount nr"])
      (auto simp: book_def [of db] done_or_def f2(1) f1(1) b(1) 1(3,4))
qed

lemma match_loop_book:
  assumes "match_loop k los db = Inr db'" "orders_ok db" "distinct (map lo_key los)" "k \<notin> lo_key ` set los"
  shows "orders_ok db' \<and> (\<forall>k'. k' \<noteq> k \<longrightarrow> k' \<notin> lo_key ` set los \<longrightarrow> book db' k' = book db k') \<and>
    (\<forall>k' lo'. book db' k' = Some lo' \<longrightarrow> (\<exists>lo. book db k' = Some lo \<and> lo_sell_price lo' = lo_sell_price lo)) \<and>
    (book db' k \<noteq> None \<longrightarrow> (\<forall>k' \<in> lo_key ` set los. book db' k' = None))"
  using assms
proof (induction los arbitrary: db)
  case Nil
  then show ?case by auto
next
  case (Cons lo los)
  obtain nf of' db1 where m: "match k (lo_key lo) (lo_sell_price lo) db = Inr ((nf, of'), db1)"
      "(if nf then Inr db1 else match_loop k los db1) = Inr db'"
    using Cons.prems(1) by (auto simp: rbind_eq_Inr split: prod.splits)
  obtain new old n q where b: "book db k = Some new" "book db (lo_key lo) = Some old" "k \<noteq> lo_key lo" "nf \<or> of'" "orders_ok db1"
      "book db1 = (book db)(k := done_or nf new n, lo_key lo := done_or of' old q)"
    using match_book [OF m(1) Cons.prems(2)] by metis
  have price1: "\<exists>lo. book db k' = Some lo \<and> lo_sell_price lo' = lo_sell_price lo" if "book db1 k' = Some lo'" for k' lo'
    using that b by (auto simp: done_or_def split: if_splits)
  show ?case
  proof (cases nf)
    case True
    then show ?thesis using m(2) b price1 by (auto simp: done_or_def)
  next
    case False
    then have IH: "orders_ok db' \<and> (\<forall>k'. k' \<noteq> k \<longrightarrow> k' \<notin> lo_key ` set los \<longrightarrow> book db' k' = book db1 k') \<and>
      (\<forall>k' lo'. book db' k' = Some lo' \<longrightarrow> (\<exists>lo. book db1 k' = Some lo \<and> lo_sell_price lo' = lo_sell_price lo)) \<and>
      (book db' k \<noteq> None \<longrightarrow> (\<forall>k' \<in> lo_key ` set los. book db' k' = None))"
      using m(2) Cons.prems b(5) by (intro Cons.IH) auto
    have "book db1 (lo_key lo) = None" using False b(4,6) by (simp add: done_or_def)
    moreover have "lo_key lo \<notin> lo_key ` set los" using Cons.prems(3) by simp
    ultimately have "book db' (lo_key lo) = None" using IH b(3) by metis
    then show ?thesis using IH b price1 by (auto simp: done_or_def) metis+
  qed
qed

lemma price_inv_ok:
  "price_inv p = Inr q \<Longrightarrow> q = \<lparr>base = quote p, quote = base p\<rparr>"
  by (auto simp: price_inv_def res_simps)

lemma price_max_value:
  "price_max b q = Inr t \<Longrightarrow> t = \<lparr>base = mk_asset freezone_MAX_SATOSHIS b, quote = mk_asset 1 q\<rparr>"
  by (auto simp: price_max_def asset_div_def res_simps)

text \<open>The range of the index an order is matched against: the orders of the opposite market that cross it.\<close>

lemma matching_orders_iff:
  assumes "orders_ok db" "order_ok new" "price_inv (lo_sell_price new) = Inr mp"
    "price_max (symbol (base mp)) (symbol (quote mp)) = Inr tp"
  shows "lo \<in> set (matching_orders tp mp db) \<longleftrightarrow> lo \<in> set (limit_orders db) \<and>
    symbol (base (lo_sell_price lo)) = symbol (quote (lo_sell_price new)) \<and>
    symbol (quote (lo_sell_price lo)) = symbol (base (lo_sell_price new)) \<and>
    price_rat (lo_sell_price lo) \<le> of_int freezone_MAX_SATOSHIS \<and>
    1 \<le> price_rat (lo_sell_price lo) * price_rat (lo_sell_price new)"
proof (cases "lo \<in> set (limit_orders db)")
  case True
  let ?p = "lo_sell_price lo" and ?n = "lo_sell_price new"
  have mp: "mp = \<lparr>base = quote ?n, quote = base ?n\<rparr>" using price_inv_ok [OF assms(3)] .
  have tp: "tp = \<lparr>base = mk_asset freezone_MAX_SATOSHIS (symbol (quote ?n)), quote = mk_asset 1 (symbol (base ?n))\<rparr>"
    using price_max_value [OF assms(4)] by (simp add: mp)
  have ok: "price_ok ?p" "price_ok mp" "price_ok tp"
    using True assms(1,2) by (auto simp: orders_ok_def order_ok_def mp tp price_ok_def freezone_MAX_SATOSHIS_def)
  have r: "price_rat mp = 1 / price_rat ?n" "price_rat tp = of_int freezone_MAX_SATOSHIS" "0 < price_rat ?n"
    using assms(2) by (auto simp: mp tp price_rat_def order_ok_def price_ok_def)
  have "\<not> price_gt ?p tp \<and> \<not> price_gt mp ?p \<longleftrightarrow> price_key mp \<le> price_key ?p \<and> price_key ?p \<le> price_key tp"
    using ok by (auto simp: price_gt_key)
  also have "\<dots> \<longleftrightarrow> symbol (base ?p) = symbol (quote ?n) \<and> symbol (quote ?p) = symbol (base ?n) \<and>
      price_rat ?p \<le> price_rat tp \<and> price_rat mp \<le> price_rat ?p"
    by (auto simp: price_key_def less_eq_prod_def mp tp)
  also have "\<dots> \<longleftrightarrow> symbol (base ?p) = symbol (quote ?n) \<and> symbol (quote ?p) = symbol (base ?n) \<and>
      price_rat ?p \<le> of_int freezone_MAX_SATOSHIS \<and> 1 \<le> price_rat ?p * price_rat ?n"
    using r(3) by (simp add: r(1,2) divide_le_eq)
  finally show ?thesis using True by (simp add: matching_orders_def set_by_price)
qed (simp add: matching_orders_def set_by_price)

lemma distinct_by_price: "distinct (map lo_key los) \<Longrightarrow> distinct (map lo_key (filter P (by_price los)))"
proof -
  have "distinct (map lo_key (by_price los)) = distinct (map lo_key los)"
    by (rule mset_eq_imp_distinct_iff) (simp add: mset_by_price)
  then show "distinct (map lo_key los) \<Longrightarrow> distinct (map lo_key (filter P (by_price los)))"
    by (simp add: distinct_map_filter)
qed

lemma apply_order_effect:
  assumes "apply_order k db = Inr (filled, db')" "orders_ok db" "book db k = Some new"
  obtains ms where "match_loop k ms db = Inr db'" "filled \<longleftrightarrow> book db' k = None" "distinct (map lo_key ms)" "k \<notin> lo_key ` set ms"
    "\<And>lo. lo \<in> set ms \<longleftrightarrow> lo \<in> set (limit_orders db) \<and>
      symbol (base (lo_sell_price lo)) = symbol (quote (lo_sell_price new)) \<and>
      symbol (quote (lo_sell_price lo)) = symbol (base (lo_sell_price new)) \<and>
      price_rat (lo_sell_price lo) \<le> of_int freezone_MAX_SATOSHIS \<and>
      1 \<le> price_rat (lo_sell_price lo) * price_rat (lo_sell_price new)"
proof -
  have n: "order_ok new" using book_ok [OF assms(2,3)] .
  obtain mp tp where 1: "price_inv (lo_sell_price new) = Inr mp"
      "price_max (symbol (base mp)) (symbol (quote mp)) = Inr tp"
      "match_loop k (matching_orders tp mp db) db = Inr db'" "filled \<longleftrightarrow> book db' k = None"
    using assms(1,3) by (auto simp: apply_order_def book_def rbind_eq_Inr get_row_eq_Inr)
  note iff = matching_orders_iff [OF assms(2) n 1(1,2)]
  have "distinct (map lo_key (matching_orders tp mp db))"
    using assms(2) by (simp add: matching_orders_def orders_ok_def distinct_by_price)
  moreover have "k \<notin> lo_key ` set (matching_orders tp mp db)"
  proof
    assume "k \<in> lo_key ` set (matching_orders tp mp db)"
    then obtain lo where lo: "lo \<in> set (matching_orders tp mp db)" "k = lo_key lo" by blast
    then have "book db k = Some lo" using iff [THEN iffD1, OF lo(1)] book_mem [OF assms(2), of lo] by simp
    then have "lo = new" using assms(3) by simp
    then show False using iff [THEN iffD1, OF lo(1)] n unfolding order_ok_def by blast
  qed
  ultimately show ?thesis by (rule that [OF 1(3,4) _ _ iff])
qed

text \<open>
  C13: matching is complete.  After a new order has been applied the book is sound, and either the
  order has left the book, or it is still there at its price and no order of the opposite market
  crosses it any more: every order whose price it accepted (up to the largest price the index range
  covers) has been filled and removed.
\<close>

theorem apply_order_complete:
  assumes "apply_order k db = Inr (filled, db')" "orders_ok db" "book db k = Some new"
  shows "orders_ok db' \<and> (filled \<longleftrightarrow> book db' k = None) \<and>
    (\<not> filled \<longrightarrow>
      (\<exists>new'. book db' k = Some new' \<and> lo_sell_price new' = lo_sell_price new) \<and>
      (\<forall>lo \<in> set (limit_orders db').
         symbol (base (lo_sell_price lo)) = symbol (quote (lo_sell_price new)) \<and>
         symbol (quote (lo_sell_price lo)) = symbol (base (lo_sell_price new)) \<longrightarrow>
         price_rat (lo_sell_price lo) * price_rat (lo_sell_price new) < 1 \<or>
         price_rat (lo_sell_price lo) > of_int freezone_MAX_SATOSHIS))"
  using assms
proof (rule apply_order_effect)
  fix ms
  assume 1: "match_loop k ms db = Inr db'" "filled \<longleftrightarrow> book db' k = None" "distinct (map lo_key ms)" "k \<notin> lo_key ` set ms"
    and iff: "\<And>lo. lo \<in> set ms \<longleftrightarrow> lo \<in> set (limit_orders db) \<and>
      symbol (base (lo_sell_price lo)) = symbol (quote (lo_sell_price new)) \<and>
      symbol (quote (lo_sell_price lo)) = symbol (base (lo_sell_price new)) \<and>
      price_rat (lo_sell_price lo) \<le> of_int freezone_MAX_SATOSHIS \<and>
      1 \<le> price_rat (lo_sell_price lo) * price_rat (lo_sell_price new)"
  note loop = match_loop_book [OF 1(1) assms(2) 1(3,4)]
  have ok: "orders_ok db'" using loop by (rule conjunct1)
  have price: "\<forall>k' lo'. book db' k' = Some lo' \<longrightarrow> (\<exists>lo. book db k' = Some lo \<and> lo_sell_price lo' = lo_sell_price lo)"
    and gone: "book db' k \<noteq> None \<longrightarrow> (\<forall>k' \<in> lo_key ` set ms. book db' k' = None)"
    by (rule loop [THEN conjunct2, THEN conjunct2, THEN conjunct1], rule loop [THEN conjunct2, THEN conjunct2, THEN conjunct2])
  have "price_rat (lo_sell_price lo) * price_rat (lo_sell_price new) < 1 \<or>
      price_rat (lo_sell_price lo) > of_int freezone_MAX_SATOSHIS"
    if nf: "\<not> filled" and lo: "lo \<in> set (limit_orders db')"
      and sym: "symbol (base (lo_sell_price lo)) = symbol (quote (lo_sell_price new))"
        "symbol (quote (lo_sell_price lo)) = symbol (base (lo_sell_price new))" for lo
  proof (rule ccontr)
    assume c: "\<not> ?thesis"
    have b: "book db' (lo_key lo) = Some lo" using ok lo by (rule book_mem)
    then obtain lo0 where lo0: "book db (lo_key lo) = Some lo0" "lo_sell_price lo = lo_sell_price lo0" using price by blast
    then have "lo0 \<in> set (limit_orders db)" by (auto simp: book_def dest: find_row_in_set)
    then have "lo0 \<in> set ms" using c sym lo0(2) by (intro iff [THEN iffD2]) (simp add: not_less)
    moreover have "lo_key lo0 = lo_key lo" using book_key [OF lo0(1)] .
    ultimately have "lo_key lo \<in> lo_key ` set ms" by (metis imageI)
    then have "book db' (lo_key lo) = None" using gone nf 1(2) by blast
    then show False using b by simp
  qed
  moreover have "\<exists>new'. book db' k = Some new' \<and> lo_sell_price new' = lo_sell_price new" if nf: "\<not> filled"
  proof -
    obtain new' where n: "book db' k = Some new'" using nf 1(2) by auto
    then obtain lo where "book db k = Some lo" "lo_sell_price new' = lo_sell_price lo" using price by blast
    then show ?thesis using n assms(3) by simp
  qed
  ultimately show ?thesis using ok 1(2) by blast
qed


lemma asset_mul_price_value:
  assumes "price_ok p" "symbol (base p) \<noteq> symbol (quote p)" "0 \<le> amount a" "amount a \<le> i64_max"
  shows "symbol a = symbol (base p) \<Longrightarrow> amount a * amount (quote p) div amount (base p) \<le> i64_max \<Longrightarrow>
      asset_mul_price a p = Inr (mk_asset (amount a * amount (quote p) div amount (base p)) (symbol (quote p)))"
    and "symbol a = symbol (quote p) \<Longrightarrow> amount a * amount (base p) div amount (quote p) \<le> i64_max \<Longrightarrow>
      asset_mul_price a p = Inr (mk_asset (amount a * amount (base p) div amount (quote p)) (symbol (base p)))"
  using assms by (auto simp: asset_mul_price_def price_ok_def mul_div_amount_floor)

lemma div_bounds: "(0::int) < d \<Longrightarrow> n div d * d \<le> n \<and> n < (n div d + 1) * d"
proof -
  assume "0 < d"
  moreover have "n div d * d = n - n mod d" by (simp add: minus_mod_eq_div_mult)
  ultimately show ?thesis using pos_mod_sign [of d n] pos_mod_bound [of d n] by (simp add: distrib_right)
qed

text \<open>
  C14: a match trades at the price of the order in the book.  Neither side pays more than it has for
  sale; one side is sold completely and bears the rounding, which is less than one unit; the other
  side never receives less than its own limit price gives.
\<close>

theorem match_amounts_fair:
  assumes "match_amounts new old p = Inr (nr, rr)" "p = lo_sell_price old"
    "price_ok p" "symbol (base p) \<noteq> symbol (quote p)" "price_ok (lo_sell_price new)"
    "symbol (base (lo_sell_price new)) = symbol (quote p)" "symbol (quote (lo_sell_price new)) = symbol (base p)"
    "0 < lo_for_sale new" "lo_for_sale new \<le> i64_max" "0 < lo_for_sale old" "lo_for_sale old \<le> i64_max"
    "lo_for_sale old * amount (quote p) div amount (base p) \<le> i64_max"
    "1 \<le> price_rat p * price_rat (lo_sell_price new)"
  shows "symbol nr = symbol (base p) \<and> symbol rr = symbol (quote p) \<and>
    amount nr \<le> lo_for_sale old \<and> amount rr \<le> lo_for_sale new \<and>
    (rr = amount_for_sale new \<and>
       amount nr * amount (quote p) \<le> amount rr * amount (base p) \<and>
       amount rr * amount (base p) < (amount nr + 1) * amount (quote p) \<or>
     nr = amount_for_sale old \<and>
       amount rr * amount (quote (lo_sell_price new)) \<le> amount nr * amount (base (lo_sell_price new)) \<and>
       amount rr * amount (base p) \<le> amount nr * amount (quote p) \<and>
       amount nr * amount (quote p) < (amount rr + 1) * amount (base p))"
proof -
  let ?n = "lo_for_sale new" and ?o = "lo_for_sale old" and ?b = "amount (base p)" and ?q = "amount (quote p)"
  have pos: "0 < ?b" "0 < ?q" using assms(3) by (auto simp: price_ok_def)
  have old: "asset_mul_price (amount_for_sale old) p = Inr (mk_asset (?o * ?q div ?b) (symbol (quote p)))"
    using asset_mul_price_value(1) [of p "amount_for_sale old"] assms by (simp add: amount_for_sale_def)
  show ?thesis
  proof (cases "?n \<le> ?o * ?q div ?b")
    case True
    have "?n * ?b \<le> ?o * ?q div ?b * ?b" using True pos by (intro mult_right_mono) auto
    also have "\<dots> \<le> ?o * ?q" using div_bounds [OF pos(1)] by blast
    finally have le: "?n * ?b div ?q \<le> ?o" using zdiv_mono1 [of "?n * ?b" "?o * ?q" ?q] pos by simp
    then have new: "asset_mul_price (amount_for_sale new) p = Inr (mk_asset (?n * ?b div ?q) (symbol (base p)))"
      using asset_mul_price_value(2) [of p "amount_for_sale new"] assms by (simp add: amount_for_sale_def)
    have "nr = mk_asset (?n * ?b div ?q) (symbol (base p))" "rr = amount_for_sale new"
      using assms(1) True old new assms(6) by (auto simp: match_amounts_def asset_le_def amount_for_sale_def)
    then show ?thesis using le div_bounds [of ?q "?n * ?b"] pos assms(6) by (simp add: amount_for_sale_def)
  next
    case False
    have v: "nr = amount_for_sale old" "rr = mk_asset (?o * ?q div ?b) (symbol (quote p))"
      using assms(1,2) False old assms(6) by (auto simp: match_amounts_def asset_le_def amount_for_sale_def)
    let ?bn = "amount (base (lo_sell_price new))" and ?qn = "amount (quote (lo_sell_price new))"
    have "?q * ?qn \<le> ?b * ?bn"
    proof -
      have p2: "0 < ?qn" using assms(5) by (simp add: price_ok_def)
      have "(of_int (?q * ?qn) :: rat) \<le> of_int (?b * ?bn)"
        using assms(13) pos p2 by (simp add: price_rat_def divide_simps)
      then show ?thesis by (simp only: of_int_le_iff)
    qed
    have r: "?o * ?q div ?b * ?b \<le> ?o * ?q" "?o * ?q < (?o * ?q div ?b + 1) * ?b" "0 \<le> ?o * ?q div ?b"
      using div_bounds [of ?b "?o * ?q"] pos assms(10) by (auto simp: pos_imp_zdiv_nonneg_iff)
    have "?o * ?q div ?b * (?q * ?qn) \<le> ?o * ?q div ?b * (?b * ?bn)"
      using \<open>?q * ?qn \<le> ?b * ?bn\<close> r(3) by (rule mult_left_mono)
    also have "\<dots> = (?o * ?q div ?b * ?b) * ?bn" by simp
    also have "\<dots> \<le> (?o * ?q) * ?bn" using r(1) assms(5) by (intro mult_right_mono) (auto simp: price_ok_def)
    finally have "?q * (?o * ?q div ?b * ?qn) \<le> ?q * (?o * ?bn)" by (simp add: mult_ac)
    then have "?o * ?q div ?b * ?qn \<le> ?o * ?bn" using pos by simp
    then show ?thesis using v r False assms(2) by (simp add: amount_for_sale_def)
  qed
qed

section \<open>The invariants are kept\<close>

lemma orders_ok_cong: "limit_orders db' = limit_orders db \<Longrightarrow> orders_ok db' = orders_ok db"
  by (simp add: orders_ok_def)

lemma cancel_order_ok: "cancel_order lo db = Inr db' \<Longrightarrow> orders_ok db \<Longrightarrow> orders_ok db'"
  by (rule orders_ok_remove) (auto intro: cancel_order_effect(1))

lemma apply_order_ok:
  assumes "apply_order k db = Inr (filled, db')" "orders_ok db"
  shows "orders_ok db'"
proof -
  obtain new where "book db k = Some new"
    using assms(1) by (auto simp: apply_order_def rbind_eq_Inr get_row_eq_Inr book_def)
  with assms show ?thesis
    by (rule apply_order_effect) (use match_loop_book assms(2) in blast)
qed

lemma place_order_ok:
  assumes "place_order db owner oid sell price_r ex fok = Inr db'" "orders_ok db" "0 < amount sell"
    "\<And>p. price_r = Inr p \<Longrightarrow> price_ok p \<and> symbol (base p) \<noteq> symbol (quote p)"
  shows "orders_ok db'"
proof -
  obtain m db1 p lo filled where 1: "adjust_balance db owner m = Inr db1" "price_r = Inr p"
      "lo = \<lparr>lo_created = head_block_time db1, lo_expiration = ex, lo_seller = owner, lo_orderid = oid,
        lo_for_sale = amount sell, lo_sell_price = p\<rparr>" "find_row lo_key (lo_key lo) (limit_orders db1) = None"
      "apply_order (owner, oid) (db1\<lparr>limit_orders := limit_orders db1 @ [lo]\<rparr>) = Inr (filled, db')"
    using assms(1) by (auto simp: place_order_def res_simps split: prod.splits)
  have "orders_ok (db1\<lparr>limit_orders := limit_orders db1 @ [lo]\<rparr>)"
    using assms(2-4) 1(2,4) credit_orders [OF 1(1)]
    by (auto simp: orders_ok_def order_ok_def 1(3) find_row_None_iff)
  then show ?thesis using apply_order_ok [OF 1(5)] by blast
qed

lemma clear_expired_orders_ok: "clear_expired_orders db = Inr db' \<Longrightarrow> orders_ok db \<Longrightarrow> orders_ok db'"
  unfolding clear_expired_orders_def by (rule rfold_invariant) (auto intro: cancel_order_ok)

section \<open>Solvency\<close>

lemma solvent_orders [simp]:
  "solvent (db\<lparr>limit_orders := los\<rparr>) = solvent db" "solvent (set_order lo db) = solvent db" "solvent (remove_order lo db) = solvent db"
  by (simp_all add: solvent_def set_order_def remove_order_def)

lemma hardfork_orders [simp]:
  "has_hardfork (db\<lparr>limit_orders := los\<rparr>) n = has_hardfork db n"
  "has_hardfork (set_order lo db) n = has_hardfork db n" "has_hardfork (remove_order lo db) n = has_hardfork db n"
  by (simp_all add: has_hardfork_def set_order_def remove_order_def)

lemma cancel_order_solvent:
  "cancel_order lo db = Inr db' \<Longrightarrow> solvent db \<and> has_hardfork db 20 \<Longrightarrow> solvent db' \<and> has_hardfork db' 20"
  by (auto simp: cancel_order_def res_simps dest!: balance_solvent_step)

lemma fill_order_solvent:
  assumes "fill_order lo pays receives db = Inr (filled, db')" "solvent db \<and> has_hardfork db 20"
  shows "solvent db' \<and> has_hardfork db' 20"
  using assms(1)
proof (cases rule: fill_order_cases)
  case (returned db1 r)
  show ?thesis using cancel_order_solvent [OF returned(7)] balance_solvent_step [OF returned(1) assms(2)] by simp
qed (use balance_solvent_step assms(2) in auto)

lemma match_solvent:
  assumes "match nk ok p db = Inr (r, db')" "solvent db \<and> has_hardfork db 20"
  shows "solvent db' \<and> has_hardfork db' 20"
proof -
  obtain nf of' where r: "r = (nf, of')" by (cases r)
  from assms(1) [unfolded r] show ?thesis
    by (rule match_effect) (use assms(2) fill_order_solvent in blast)
qed

lemma match_loop_solvent:
  "match_loop k los db = Inr db' \<Longrightarrow> solvent db \<and> has_hardfork db 20 \<Longrightarrow> solvent db' \<and> has_hardfork db' 20"
proof (induction los arbitrary: db)
  case (Cons lo los)
  obtain nf of' db1 where m: "match k (lo_key lo) (lo_sell_price lo) db = Inr ((nf, of'), db1)"
      "(if nf then Inr db1 else match_loop k los db1) = Inr db'"
    using Cons.prems(1) by (auto simp: rbind_eq_Inr split: prod.splits)
  note match_solvent [OF m(1) Cons.prems(2)]
  then show ?case using m(2) Cons.IH by (auto split: if_splits)
qed simp

lemma place_order_solvent:
  assumes "place_order db owner oid sell price_r ex fok = Inr db'" "solvent db \<and> has_hardfork db 20"
  shows "solvent db' \<and> has_hardfork db' 20"
  using assms
  by (auto simp: place_order_def apply_order_def res_simps split: prod.splits dest!: balance_solvent_step match_loop_solvent)

lemma limit_order_create_solvent:
  "limit_order_create_apply db o1 = Inr db' \<Longrightarrow> has_hardfork db 20 \<Longrightarrow> solvent db \<Longrightarrow> solvent db'"
  by (auto simp: limit_order_create_apply_def check_expiration_def fc_assert_eq_Inr dest!: place_order_solvent)

lemma limit_order_create2_solvent:
  "limit_order_create2_apply db o1 = Inr db' \<Longrightarrow> has_hardfork db 20 \<Longrightarrow> solvent db \<Longrightarrow> solvent db'"
  by (auto simp: limit_order_create2_apply_def check_expiration_def fc_assert_eq_Inr rbind_eq_Inr [of "order_exchange_rate _ _"]
      dest!: place_order_solvent)

lemma limit_order_cancel_solvent:
  "limit_order_cancel_apply db o1 = Inr db' \<Longrightarrow> has_hardfork db 20 \<Longrightarrow> solvent db \<Longrightarrow> solvent db'"
  by (auto simp: limit_order_cancel_apply_def rbind_eq_Inr dest!: cancel_order_solvent)

lemma clear_expired_orders_solvent:
  assumes "clear_expired_orders db = Inr db'" "has_hardfork db 20" "solvent db"
  shows "solvent db'"
  using rfold_invariant [where I = "\<lambda>d. solvent d \<and> has_hardfork d 20", OF assms(1) [unfolded clear_expired_orders_def]]
    assms(2,3) cancel_order_solvent by blast

section \<open>Witnesses\<close>

text \<open>A book with an order of bob, against which an order of alice is matched in part.\<close>

definition sample_old :: limit_order_object where
  "sample_old = \<lparr>lo_created = 0, lo_expiration = 50, lo_seller = ''bob'', lo_orderid = 2, lo_for_sale = 25,
     lo_sell_price = \<lparr>base = mk_asset 25 SBD_SYMBOL, quote = mk_asset 50 freezone_SYMBOL\<rparr>\<rparr>"

definition sample_new :: limit_order_object where
  "sample_new = \<lparr>lo_created = 0, lo_expiration = 50, lo_seller = ''alice'', lo_orderid = 1, lo_for_sale = 100,
     lo_sell_price = \<lparr>base = mk_asset 100 freezone_SYMBOL, quote = mk_asset 50 SBD_SYMBOL\<rparr>\<rparr>"

definition sample_book_db :: database where
  "sample_book_db = sample_db\<lparr>limit_orders := [sample_old, sample_new]\<rparr>"

lemma sample_orders_ok: "order_ok sample_old" "order_ok sample_new" "orders_ok sample_book_db"
  "book sample_book_db (''alice'', 1) = Some sample_new" "book sample_book_db (''bob'', 2) = Some sample_old"
  by (simp_all add: order_ok_def orders_ok_def book_def sample_book_db_def sample_old_def sample_new_def lo_key_def price_ok_def)

lemma sample_order_fields:
  "lo_seller sample_new = ''alice''" "lo_orderid sample_new = 1" "lo_for_sale sample_new = 100"
  "lo_sell_price sample_new = \<lparr>base = mk_asset 100 freezone_SYMBOL, quote = mk_asset 50 SBD_SYMBOL\<rparr>"
  "lo_seller sample_old = ''bob''" "lo_orderid sample_old = 2" "lo_for_sale sample_old = 25"
  "lo_sell_price sample_old = \<lparr>base = mk_asset 25 SBD_SYMBOL, quote = mk_asset 50 freezone_SYMBOL\<rparr>"
  "amount_for_sale sample_new = mk_asset 100 freezone_SYMBOL" "amount_for_sale sample_old = mk_asset 25 SBD_SYMBOL"
  by (simp_all add: sample_old_def sample_new_def amount_for_sale_def)

lemma sample_amounts:
  "match_amounts sample_new sample_old (lo_sell_price sample_old) = Inr (mk_asset 25 SBD_SYMBOL, mk_asset 50 freezone_SYMBOL)"
proof -
  have "asset_mul_price (amount_for_sale sample_old) (lo_sell_price sample_old) = Inr (mk_asset 50 freezone_SYMBOL)"
    by (subst asset_mul_price_value(1)) (simp_all add: sample_old_def amount_for_sale_def price_ok_def)
  then show ?thesis
    by (simp add: match_amounts_def asset_le_def) (simp add: sample_old_def sample_new_def amount_for_sale_def)
qed

theorem match_amounts_fair_witness:
  "match_amounts sample_new sample_old (lo_sell_price sample_old) = Inr (mk_asset 25 SBD_SYMBOL, mk_asset 50 freezone_SYMBOL) \<and>
   (50 :: int) * 50 \<le> 25 * 100"
  using match_amounts_fair [OF sample_amounts refl] sample_amounts
  by (simp add: sample_old_def sample_new_def price_ok_def price_rat_def amount_for_sale_def)


lemma sample_matching:
  "matching_orders \<lparr>base = mk_asset freezone_MAX_SATOSHIS SBD_SYMBOL, quote = mk_asset 1 freezone_SYMBOL\<rparr>
     \<lparr>base = mk_asset 50 SBD_SYMBOL, quote = mk_asset 100 freezone_SYMBOL\<rparr> sample_book_db = [sample_old]"
  by (simp add: matching_orders_def by_price_def sample_book_db_def sample_old_def sample_new_def price_gt_def same_bq_def
      bq_less_def amult_def u128_of_i64_def freezone_MAX_SATOSHIS_def legacy_values)

lemma sample_book_rows:
  "find_row acc_name ''alice'' (accounts sample_book_db) = Some (sample_account ''alice'' 5000)"
  "find_row acc_name ''bob'' (accounts sample_book_db) = Some (sample_account ''bob'' 10)"
  "has_hardfork sample_book_db n \<longleftrightarrow> n < 23" "head_block_time sample_book_db = 0"
  by (simp_all add: sample_book_db_def sample_accounts has_hardfork_def sample_db_def empty_database_def head_block_time_def
      dynamic_global_property_object_default_def)

text \<open>A fill that leaves the order in the book, and one that completes it.\<close>

lemma fill_order_rest:
  assumes "adjust_balance db (lo_seller lo) receives = Inr db1" "symbol pays = symbol (amount_for_sale lo)"
    "symbol pays \<noteq> symbol receives" "0 < amount pays" "amount pays < lo_for_sale lo" "lo_for_sale lo \<le> i64_max"
    "amount_to_receive (lo\<lparr>lo_for_sale := lo_for_sale lo - amount pays\<rparr>) = Inr r" "amount r \<noteq> 0"
  shows "fill_order lo pays receives db = Inr (False, set_order (lo\<lparr>lo_for_sale := lo_for_sale lo - amount pays\<rparr>) db1)"
  using assms by (auto simp: fill_order_def amount_for_sale_def asset_lt_def safe_sub_def Let_def)

lemma fill_order_complete:
  assumes "adjust_balance db (lo_seller lo) receives = Inr db1" "pays = amount_for_sale lo" "symbol pays \<noteq> symbol receives"
  shows "fill_order lo pays receives db = Inr (True, remove_order lo db1)"
  using assms by (simp add: fill_order_def)

lemma sample_match:
  "\<exists>db'. match (''alice'', 1) (''bob'', 2) (lo_sell_price sample_old) sample_book_db = Inr ((False, True), db') \<and>
     find_row lo_key (''alice'', 1) (limit_orders db') \<noteq> None"
proof -
  let ?db = "push_virtual_operation sample_book_db
    (fill_order_operation ''alice'' 1 (mk_asset 50 freezone_SYMBOL) ''bob'' 2 (mk_asset 25 SBD_SYMBOL))"
  let ?new = "sample_new\<lparr>lo_for_sale := 50\<rparr>"
  have al: "find_row acc_name ''alice'' (accounts ?db) = Some (sample_account ''alice'' 5000)"
    using sample_book_rows by simp
  obtain a where a: "adjust_balance ?db ''alice'' (mk_asset 25 SBD_SYMBOL) = Inr (set_account a ?db)" "acc_name a = ''alice''"
    using adjust_balance_sbd [OF al, of "mk_asset 25 SBD_SYMBOL"] sample_book_rows(4)
    by (auto simp: head_block_time_def push_virtual_operation_def)
  have rec: "amount_to_receive ?new = Inr (mk_asset 25 SBD_SYMBOL)"
    unfolding amount_to_receive_def
    by (subst asset_mul_price_value(1)) (simp_all add: sample_new_def amount_for_sale_def price_ok_def)
  have 1: "fill_order sample_new (mk_asset 50 freezone_SYMBOL) (mk_asset 25 SBD_SYMBOL) ?db =
      Inr (False, set_order ?new (set_account a ?db))"
    using fill_order_rest [of ?db sample_new "mk_asset 25 SBD_SYMBOL" "set_account a ?db" "mk_asset 50 freezone_SYMBOL"] a(1) rec
    by (simp add: sample_new_def amount_for_sale_def)
  let ?db3 = "set_order ?new (set_account a ?db)"
  have bob: "find_row acc_name ''bob'' (accounts ?db3) = Some (sample_account ''bob'' 10)"
    using sample_book_rows a(2) by (simp add: set_order_def find_set_account [OF al])
  obtain db4 where b: "adjust_balance ?db3 ''bob'' (mk_asset 50 freezone_SYMBOL) = Inr db4"
    using adjust_balance_native [OF bob, of "mk_asset 50 freezone_SYMBOL"] by simp
  have orders: "limit_orders ?db3 = [sample_old, ?new]"
    by (simp add: push_virtual_operation_def sample_book_db_def sample_old_def sample_new_def lo_key_def)
  have 2: "fill_order sample_old (mk_asset 25 SBD_SYMBOL) (mk_asset 50 freezone_SYMBOL) ?db3 = Inr (True, remove_order sample_old db4)"
    by (rule fill_order_complete) (use b in \<open>simp_all add: sample_old_def amount_for_sale_def\<close>)
  have rows: "find_row lo_key (''alice'', 1) (limit_orders sample_book_db) = Some sample_new"
    "find_row lo_key (''bob'', 2) (limit_orders sample_book_db) = Some sample_old"
    "find_row lo_key (''bob'', 2) (limit_orders ?db3) = Some sample_old"
    using sample_orders_ok unfolding orders by (simp_all add: book_def) (simp add: sample_old_def lo_key_def)
  have liq: "match_liquidity sample_new sample_old (mk_asset 25 SBD_SYMBOL) (mk_asset 50 freezone_SYMBOL) sample_book_db = Inr sample_book_db"
    by (simp add: match_liquidity_def sample_book_rows(3))
  have "limit_orders (remove_order sample_old db4) = [?new]"
    using credit_orders [OF b] orders by (simp add: sample_old_def lo_key_def)
  moreover have "match (''alice'', 1) (''bob'', 2) (lo_sell_price sample_old) sample_book_db =
      Inr ((False, True), remove_order sample_old db4)"
    by (simp add: match_def get_row_def sample_amounts [unfolded sample_order_fields] liq 1 2 rows sample_order_fields del: orders_set)
  ultimately show ?thesis by (simp add: sample_new_def lo_key_def)
qed

theorem apply_order_complete_witness:
  "\<exists>db'. apply_order (''alice'', 1) sample_book_db = Inr (False, db') \<and> orders_ok db' \<and>
     (\<exists>new'. book db' (''alice'', 1) = Some new' \<and> lo_sell_price new' = lo_sell_price sample_new)"
proof -
  obtain db' where m: "match (''alice'', 1) (''bob'', 2) (lo_sell_price sample_old) sample_book_db = Inr ((False, True), db')"
      "find_row lo_key (''alice'', 1) (limit_orders db') \<noteq> None"
    using sample_match by blast
  have k: "lo_key sample_old = (''bob'', 2)" by (simp add: sample_old_def lo_key_def)
  have mp: "price_inv (lo_sell_price sample_new) = Inr \<lparr>base = mk_asset 50 SBD_SYMBOL, quote = mk_asset 100 freezone_SYMBOL\<rparr>"
    by (simp add: price_inv_def sample_new_def mk_price_def price_validate_def)
  have tp: "price_max SBD_SYMBOL freezone_SYMBOL =
      Inr \<lparr>base = mk_asset freezone_MAX_SATOSHIS SBD_SYMBOL, quote = mk_asset 1 freezone_SYMBOL\<rparr>"
    by (simp add: price_max_def asset_div_def mk_price_def price_validate_def freezone_MAX_SATOSHIS_def)
  have 1: "apply_order (''alice'', 1) sample_book_db = Inr (False, db')"
    using m sample_orders_ok(4) by (simp add: apply_order_def book_def get_row_def mp tp sample_matching k)
  show ?thesis using 1 apply_order_complete [OF 1 sample_orders_ok(3,4)] by blast
qed

end
