(* ===== verification/Voting.thy ===== *)
theory Voting
  imports Market
begin

text \<open>
  Votes for witnesses: the vote counters and proxies of \<^verbatim>\<open>chain/database.cpp\<close>
  (\<^verbatim>\<open>adjust_proxied_witness_votes\<close>, \<^verbatim>\<open>adjust_witness_votes\<close>, \<^verbatim>\<open>adjust_witness_vote\<close>,
  \<^verbatim>\<open>clear_witness_votes\<close>, \<^verbatim>\<open>process_decline_voting_rights\<close>) and the evaluators
  \<^verbatim>\<open>account_witness_vote\<close>, \<^verbatim>\<open>account_witness_proxy\<close> and \<^verbatim>\<open>decline_voting_rights\<close>.  A witness has the
  votes of the accounts that vote for it, and a change of proxy creates and destroys no vote.
\<close>

section \<open>Operations\<close>

record account_witness_vote_operation =
  awv_account :: account_name_type
  awv_witness :: account_name_type
  awv_approve :: bool

record account_witness_proxy_operation =
  awp_account :: account_name_type
  awp_proxy :: account_name_type

record decline_voting_rights_operation =
  dvr_account :: account_name_type
  dvr_decline :: bool

definition freezone_MAX_ACCOUNT_WITNESS_VOTES :: int where "freezone_MAX_ACCOUNT_WITNESS_VOTES = 30"
definition freezone_OWNER_AUTH_RECOVERY_PERIOD :: "32 word" where
  "freezone_OWNER_AUTH_RECOVERY_PERIOD = 30 * 24 * 60 * 60"
definition freezone_VIRTUAL_SCHEDULE_LAP_LENGTH :: "128 word" where
  "freezone_VIRTUAL_SCHEDULE_LAP_LENGTH = 0xFFFFFFFFFFFFFFFF"
definition freezone_VIRTUAL_SCHEDULE_LAP_LENGTH2 :: "128 word" where
  "freezone_VIRTUAL_SCHEDULE_LAP_LENGTH2 = - 1"

section \<open>The counters of the witnesses\<close>

definition adjust_witness_vote :: "database \<Rightarrow> account_name_type \<Rightarrow> share_type \<Rightarrow> database result" where
  "adjust_witness_vote db wname delta =
     rbind (get_witness db wname) (\<lambda>w.
     let now = wso_current_virtual_time (witness_schedule db);
         position = wit_virtual_position w + u128_of_i64 (wit_votes w) * (now - wit_virtual_last_update w) in
     rbind (safe_add (wit_votes w) delta) (\<lambda>votes.
     fc_assert (votes \<le> amount (gp_total_vesting_shares (dgpo db))) '''' (
     throw_unless (i64_wrap (votes + 1) \<noteq> 0) Divide_by_zero_exception (
     let lap = (if has_hardfork db 2 then freezone_VIRTUAL_SCHEDULE_LAP_LENGTH2 else freezone_VIRTUAL_SCHEDULE_LAP_LENGTH);
         scheduled = now + (lap - position) div u128_of_i64 (i64_wrap (votes + 1));
         scheduled' = (if has_hardfork db 4 \<and> scheduled < now then - 1 else scheduled) in
     Inr (set_witness (w\<lparr>wit_virtual_position := position, wit_virtual_last_update := now, wit_votes := votes,
            wit_virtual_scheduled_time := scheduled'\<rparr>) db)))))"

definition votes_of :: "database \<Rightarrow> account_name_type \<Rightarrow> witness_vote_object list" where
  "votes_of db name = sort_key wv_witness (filter (\<lambda>v. wv_account v = name) (witness_votes db))"

definition adjust_witness_votes :: "database \<Rightarrow> account_name_type \<Rightarrow> share_type \<Rightarrow> database result" where
  "adjust_witness_votes db name delta =
     rfold (\<lambda>v d. adjust_witness_vote d (wv_witness v) delta) (votes_of db name) db"

definition clear_witness_votes :: "database \<Rightarrow> account_name_type \<Rightarrow> database result" where
  "clear_witness_votes db name =
     (let db1 = db\<lparr>witness_votes := filter (\<lambda>v. wv_account v \<noteq> name) (witness_votes db)\<rparr> in
      if has_hardfork db 6 then modify_account db1 name (\<lambda>a. a\<lparr>acc_witnesses_voted_for := 0\<rparr>) else Inr db1)"

section \<open>Proxies\<close>

text \<open>
  The two overloads.  An account with a proxy passes the change on to the votes its proxy holds at
  the level of the depth; at the end of the chain the witnesses the account votes for are adjusted.
\<close>

definition add_proxied_votes :: "share_type list \<Rightarrow> nat \<Rightarrow> account_object \<Rightarrow> account_object result" where
  "add_proxied_votes delta depth a =
     rfold (\<lambda>i a. rbind (safe_add (acc_proxied_vsf_votes a ! (i + depth)) (delta ! i)) (\<lambda>x.
            Inr (a\<lparr>acc_proxied_vsf_votes := (acc_proxied_vsf_votes a)[i + depth := x]\<rparr>)))
       (rev [0..<freezone_MAX_PROXY_RECURSION_DEPTH - depth]) a"

function adjust_proxied_witness_votes_array ::
    "database \<Rightarrow> account_name_type \<Rightarrow> share_type list \<Rightarrow> nat \<Rightarrow> database result" where
  "adjust_proxied_witness_votes_array db name delta depth =
     rbind (get_account db name) (\<lambda>a.
     if acc_proxy a \<noteq> freezone_PROXY_TO_SELF_ACCOUNT then
       if depth \<ge> freezone_MAX_PROXY_RECURSION_DEPTH then Inr db
       else
         rbind (get_account db (acc_proxy a)) (\<lambda>proxy.
         rbind (add_proxied_votes delta depth proxy) (\<lambda>proxy'.
         adjust_proxied_witness_votes_array (set_account proxy' db) (acc_proxy a) delta (depth + 1)))
     else
       rbind (accumulate (rev (take (freezone_MAX_PROXY_RECURSION_DEPTH - depth + 1) delta)) 0) (\<lambda>total_delta.
       adjust_witness_votes db name total_delta))"
  by pat_completeness auto
termination by (relation "measure (\<lambda>(_, _, _, depth). freezone_MAX_PROXY_RECURSION_DEPTH - depth)") auto

function adjust_proxied_witness_votes ::
    "database \<Rightarrow> account_name_type \<Rightarrow> share_type \<Rightarrow> nat \<Rightarrow> database result" where
  "adjust_proxied_witness_votes db name delta depth =
     rbind (get_account db name) (\<lambda>a.
     if acc_proxy a \<noteq> freezone_PROXY_TO_SELF_ACCOUNT then
       if depth \<ge> freezone_MAX_PROXY_RECURSION_DEPTH then Inr db
       else
         rbind (get_account db (acc_proxy a)) (\<lambda>proxy.
         rbind (safe_add (acc_proxied_vsf_votes proxy ! depth) delta) (\<lambda>x.
         adjust_proxied_witness_votes
           (set_account (proxy\<lparr>acc_proxied_vsf_votes := (acc_proxied_vsf_votes proxy)[depth := x]\<rparr>) db)
           (acc_proxy a) delta (depth + 1)))
     else adjust_witness_votes db name delta)"
  by pat_completeness auto
termination by (relation "measure (\<lambda>(_, _, _, depth). freezone_MAX_PROXY_RECURSION_DEPTH - depth)") auto

declare adjust_proxied_witness_votes_array.simps [simp del] adjust_proxied_witness_votes.simps [simp del]

section \<open>Evaluators\<close>

definition negated_votes :: "account_object \<Rightarrow> share_type list result" where
  "negated_votes a = rfold (\<lambda>x acc. rbind (safe_neg x) (\<lambda>y. Inr (acc @ [y])))
     (amount (acc_vesting_shares a) # acc_proxied_vsf_votes a) []"

lemma fc_assert_cong [fundef_cong]:
  "c = c' \<Longrightarrow> m = m' \<Longrightarrow> (c' \<Longrightarrow> k = k') \<Longrightarrow> fc_assert c m k = fc_assert c' m' k'"
  by (cases c') auto

text \<open>The walk along the new chain of proxies; \<open>chain\<close> is the set of accounts seen.\<close>

function check_proxy_chain :: "database \<Rightarrow> account_name_type list \<Rightarrow> account_name_type \<Rightarrow> unit result" where
  "check_proxy_chain db chain cprox =
     rbind (get_account db cprox) (\<lambda>c.
     if acc_proxy c = '''' then Inr ()
     else
       rbind (get_account db (acc_proxy c)) (\<lambda>next_proxy.
       fc_assert (acc_name next_proxy \<notin> set chain) ''This proxy would create a proxy loop.'' (
       fc_assert (Suc (length chain) \<le> freezone_MAX_PROXY_RECURSION_DEPTH) ''Proxy chain is too long.'' (
       check_proxy_chain db (acc_name next_proxy # chain) (acc_name next_proxy)))))"
  by pat_completeness auto
termination by (relation "measure (\<lambda>(_, chain, _). freezone_MAX_PROXY_RECURSION_DEPTH - length chain)") auto

declare check_proxy_chain.simps [simp del]

definition account_witness_proxy_apply :: "database \<Rightarrow> account_witness_proxy_operation \<Rightarrow> database result" where
  "account_witness_proxy_apply db o1 =
     rbind (get_account db (awp_account o1)) (\<lambda>account.
     fc_assert (acc_proxy account \<noteq> awp_proxy o1) ''Proxy must change.'' (
     fc_assert (acc_can_vote account) ''Account has declined the ability to vote and cannot proxy votes.'' (
     rbind (negated_votes account) (\<lambda>delta.
     rbind (adjust_proxied_witness_votes_array db (awp_account o1) delta 0) (\<lambda>db1.
     if awp_proxy o1 \<noteq> '''' then
       rbind (get_account db1 (awp_proxy o1)) (\<lambda>new_proxy.
       rbind (check_proxy_chain db1 (remdups [awp_account o1, awp_proxy o1]) (awp_proxy o1)) (\<lambda>_.
       rbind (clear_witness_votes db1 (awp_account o1)) (\<lambda>db2.
       rbind (modify_account db2 (awp_account o1) (\<lambda>a. a\<lparr>acc_proxy := awp_proxy o1\<rparr>)) (\<lambda>db3.
       rbind (rfold (\<lambda>x acc. rbind (safe_neg x) (\<lambda>y. Inr (acc @ [y]))) delta []) (\<lambda>delta'.
       adjust_proxied_witness_votes_array db3 (awp_account o1) delta' 0)))))
     else modify_account db1 (awp_account o1) (\<lambda>a. a\<lparr>acc_proxy := awp_proxy o1\<rparr>))))))"

definition wv_key :: "witness_vote_object \<Rightarrow> account_name_type \<times> account_name_type" where
  "wv_key v = (wv_account v, wv_witness v)"

text \<open>What voting adds to, and unvoting takes from, the votes of a witness, by hardfork.\<close>

definition cast_vote ::
    "database \<Rightarrow> account_name_type \<Rightarrow> account_name_type \<Rightarrow> bool \<Rightarrow> share_type \<Rightarrow> database result" where
  "cast_vote db voter wname approve weight =
     (if has_hardfork db 2 then
        rbind (if approve then Inr weight else safe_neg weight) (\<lambda>delta.
        if has_hardfork db 3 then adjust_witness_vote db wname delta
        else adjust_proxied_witness_votes db voter delta 0)
      else
        rbind (get_witness db wname) (\<lambda>w.
        rbind (if approve then safe_add (wit_votes w) weight else safe_sub (wit_votes w) weight) (\<lambda>n.
        Inr (set_witness (w\<lparr>wit_votes := n\<rparr>) db))))"

definition account_witness_vote_apply :: "database \<Rightarrow> account_witness_vote_operation \<Rightarrow> database result" where
  "account_witness_vote_apply db o1 =
     rbind (get_account db (awv_account o1)) (\<lambda>voter.
     fc_assert (acc_proxy voter = '''')
       ''A proxy is currently set, please clear the proxy before voting for a witness.'' (
     fc_assert (awv_approve o1 \<longrightarrow> acc_can_vote voter) ''Account has declined its voting rights.'' (
     rbind (get_witness db (awv_witness o1)) (\<lambda>witness.
     (case find_row wv_key (awv_account o1, awv_witness o1) (witness_votes db) of
       None \<Rightarrow>
         fc_assert (awv_approve o1) ''Vote doesn't exist, user must indicate a desire to approve witness.'' (
         fc_assert (has_hardfork db 2 \<longrightarrow> uint (acc_witnesses_voted_for voter) < freezone_MAX_ACCOUNT_WITNESS_VOTES)
           ''Account has voted for too many witnesses.'' (
         let db1 = db\<lparr>witness_votes := witness_votes db @ [\<lparr>wv_witness = awv_witness o1, wv_account = awv_account o1\<rparr>]\<rparr> in
         rbind (witness_vote_weight voter) (\<lambda>weight.
         rbind (cast_vote db1 (awv_account o1) (awv_witness o1) True weight) (\<lambda>db2.
         modify_account db2 (awv_account o1) (\<lambda>a. a\<lparr>acc_witnesses_voted_for := acc_witnesses_voted_for a + 1\<rparr>)))))
     | Some v \<Rightarrow>
         fc_assert (\<not> awv_approve o1) ''Vote currently exists, user must indicate a desire to reject witness.'' (
         rbind (witness_vote_weight voter) (\<lambda>weight.
         rbind (cast_vote db (awv_account o1) (awv_witness o1) False weight) (\<lambda>db1.
         rbind (modify_account db1 (awv_account o1) (\<lambda>a. a\<lparr>acc_witnesses_voted_for := acc_witnesses_voted_for a - 1\<rparr>)) (\<lambda>db2.
         Inr (db2\<lparr>witness_votes := remove_row wv_key (awv_account o1, awv_witness o1) (witness_votes db2)\<rparr>))))))))))"

definition decline_voting_rights_apply :: "database \<Rightarrow> decline_voting_rights_operation \<Rightarrow> database result" where
  "decline_voting_rights_apply db o1 =
     fc_assert (has_hardfork db 14) '''' (
     rbind (get_account db (dvr_account o1)) (\<lambda>account.
     case find_row dv_account (acc_name account) (decline_requests db) of
       None \<Rightarrow>
         if dvr_decline o1 then
           Inr (db\<lparr>decline_requests := decline_requests db @
             [\<lparr>dv_account = acc_name account, dv_effective_date = head_block_time db + freezone_OWNER_AUTH_RECOVERY_PERIOD\<rparr>]\<rparr>)
         else Inl (Fc_assert ''Cannot cancel the request because it does not exist.'')
     | Some req \<Rightarrow>
         if dvr_decline o1 then Inl (Fc_assert ''Cannot create new request because one already exists.'')
         else Inr (db\<lparr>decline_requests := remove_row dv_account (dv_account req) (decline_requests db)\<rparr>)))"

definition due_decline_requests :: "database \<Rightarrow> decline_voting_rights_request_object list" where
  "due_decline_requests db =
     sort_key (\<lambda>r. (dv_effective_date r, dv_account r))
       (filter (\<lambda>r. dv_effective_date r \<le> head_block_time db) (decline_requests db))"

definition decline_voting_rights_of :: "decline_voting_rights_request_object \<Rightarrow> database \<Rightarrow> database result" where
  "decline_voting_rights_of r db =
     rbind (get_account db (dv_account r)) (\<lambda>account.
     rbind (negated_votes account) (\<lambda>delta.
     rbind (adjust_proxied_witness_votes_array db (dv_account r) delta 0) (\<lambda>db1.
     rbind (clear_witness_votes db1 (dv_account r)) (\<lambda>db2.
     rbind (modify_account db2 (dv_account r)
              (\<lambda>a. a\<lparr>acc_can_vote := False, acc_proxy := freezone_PROXY_TO_SELF_ACCOUNT\<rparr>)) (\<lambda>db3.
     Inr (db3\<lparr>decline_requests := remove_row dv_account (dv_account r) (decline_requests db3)\<rparr>))))))"

definition process_decline_voting_rights :: "database \<Rightarrow> database result" where
  "process_decline_voting_rights db = rfold decline_voting_rights_of (due_decline_requests db) db"

section \<open>The vote of an account and the votes of a witness\<close>

definition weight :: "account_object \<Rightarrow> int" where
  "weight a = amount (acc_vesting_shares a) + sum_list (acc_proxied_vsf_votes a)"

definition weight_of :: "database \<Rightarrow> account_name_type \<Rightarrow> int" where
  "weight_of db name = (case find_row acc_name name (accounts db) of None \<Rightarrow> 0 | Some a \<Rightarrow> weight a)"

text \<open>
  \<open>votes_gap db name d\<close>: every witness has the sum of the weights of the accounts that vote for it,
  except that the weight of one account has changed by an amount the witnesses have not seen yet.
\<close>

definition votes_gap :: "database \<Rightarrow> account_name_type \<Rightarrow> int \<Rightarrow> bool" where
  "votes_gap db name d \<longleftrightarrow>
     (\<forall>k w. find_row wit_owner k (witnesses db) = Some w \<longrightarrow>
        wit_votes w = sum_rows (\<lambda>v. if wv_witness v = k
          then weight_of db (wv_account v) - (if wv_account v = name then d else 0) else 0) (witness_votes db))"

definition votes_ok :: "database \<Rightarrow> bool" where
  "votes_ok db \<longleftrightarrow>
     (\<forall>k w. find_row wit_owner k (witnesses db) = Some w \<longrightarrow>
        wit_votes w = sum_rows (\<lambda>v. if wv_witness v = k then weight_of db (wv_account v) else 0) (witness_votes db))"

text \<open>The shape of the containers: four levels of proxied votes, and only accounts without a proxy vote.\<close>

definition voters_ok :: "database \<Rightarrow> bool" where
  "voters_ok db \<longleftrightarrow>
     (\<forall>a \<in> set (accounts db). length (acc_proxied_vsf_votes a) = freezone_MAX_PROXY_RECURSION_DEPTH) \<and>
     distinct (map wv_key (witness_votes db)) \<and>
     (\<forall>v \<in> set (witness_votes db). \<exists>a. find_row acc_name (wv_account v) (accounts db) = Some a \<and> acc_proxy a = '''')"

lemma votes_gap_0 [simp]: "votes_gap db name 0 = votes_ok db"
  by (simp add: votes_gap_def votes_ok_def cong: if_cong)

lemma sum_rows_add: "sum_rows (\<lambda>v. f v + g v) vs = sum_rows f vs + sum_rows g vs"
  by (induction vs) auto

lemma sum_rows_count:
  "sum_rows (\<lambda>v. if P v \<and> key v = k then d else 0) vs = d * int (count_list (map key (filter P vs)) k)"
  by (induction vs) (auto simp: algebra_simps)

lemma accumulate_value: "accumulate xs n = Inr t \<Longrightarrow> t = n + sum_list xs"
proof (induction xs arbitrary: n)
  case (Cons x xs)
  then have "accumulate xs (n + x) = Inr t" by (auto simp: accumulate_def res_simps dest: safe_values)
  from Cons.IH [OF this] show ?case by simp
qed (simp add: accumulate_def)

lemma witness_vote_weight_value: "witness_vote_weight a = Inr x \<Longrightarrow> x = weight a"
  by (auto simp: witness_vote_weight_def weight_def dest!: accumulate_value)

lemma get_witness_eq_Inr [res_simps]: "get_witness db k = Inr w \<longleftrightarrow> find_row wit_owner k (witnesses db) = Some w"
  by (simp add: get_witness_def res_simps)

text \<open>Adjusting one witness changes its row only.\<close>

lemma adjust_witness_vote_effect:
  assumes "adjust_witness_vote db k delta = Inr db'"
  obtains w w' where "find_row wit_owner k (witnesses db) = Some w" "wit_owner w' = k" "wit_votes w' = wit_votes w + delta"
    "db' = set_witness w' db"
proof -
  obtain w p t s where 1: "find_row wit_owner k (witnesses db) = Some w"
      "db' = set_witness (w\<lparr>wit_virtual_position := p, wit_virtual_last_update := t, wit_votes := wit_votes w + delta,
         wit_virtual_scheduled_time := s\<rparr>) db"
    using assms unfolding adjust_witness_vote_def Let_def by (force simp: res_simps dest!: safe_values)
  then show ?thesis
    using that [OF 1(1) _ _ 1(2)] find_row_key [OF 1(1)] by simp
qed

lemma find_set_witness:
  "find_row wit_owner (wit_owner w') (witnesses db) = Some w \<Longrightarrow>
   find_row wit_owner k (witnesses (set_witness w' db)) = (if k = wit_owner w' then Some w' else find_row wit_owner k (witnesses db))"
  by (simp add: set_witness_def table_simps)

lemma set_witness_frame [simp]:
  "accounts (set_witness w db) = accounts db" "witness_votes (set_witness w db) = witness_votes db"
  "surplus s (set_witness w db) = surplus s db" "solvent (set_witness w db) = solvent db"
  "has_hardfork (set_witness w db) n = has_hardfork db n"
  by (simp_all add: set_witness_def surplus_def held_def issued_def solvent_def has_hardfork_def)

definition wvotes :: "database \<Rightarrow> account_name_type \<Rightarrow> int option" where
  "wvotes db k = map_option wit_votes (find_row wit_owner k (witnesses db))"

text \<open>What the counter functions leave alone.\<close>

definition same_but_witnesses :: "database \<Rightarrow> database \<Rightarrow> bool" where
  "same_but_witnesses db db' \<longleftrightarrow> (\<exists>ws. db' = db\<lparr>witnesses := ws\<rparr>)"

lemma same_but_witnesses_refl [simp]: "same_but_witnesses db db"
  by (auto simp: same_but_witnesses_def intro: exI [of _ "witnesses db"])

lemma same_but_witnesses_trans: "same_but_witnesses db db1 \<Longrightarrow> same_but_witnesses db1 db2 \<Longrightarrow> same_but_witnesses db db2"
  by (auto simp: same_but_witnesses_def)

lemma same_but_witnessesD:
  assumes "same_but_witnesses db db'"
  shows "accounts db' = accounts db" "witness_votes db' = witness_votes db" "surplus s db' = surplus s db"
    "solvent db' = solvent db" "has_hardfork db' n = has_hardfork db n" "dgpo db' = dgpo db"
    "decline_requests db' = decline_requests db" "limit_orders db' = limit_orders db" "escrows db' = escrows db"
    "head_block_time db' = head_block_time db"
  using assms by (auto simp: same_but_witnesses_def surplus_def held_def issued_def solvent_def has_hardfork_def head_block_time_def)

lemma adjust_witness_votes_list:
  assumes "rfold (\<lambda>v d. adjust_witness_vote d (wv_witness v) delta) vs db = Inr db'"
  shows "same_but_witnesses db db' \<and>
    (\<forall>k. wvotes db' k = map_option (\<lambda>n. n + delta * int (count_list (map wv_witness vs) k)) (wvotes db k))"
  using assms
proof (induction vs arbitrary: db)
  case Nil
  then show ?case by (auto simp: wvotes_def option.map_comp comp_def option.map_ident)
next
  case (Cons v vs)
  then obtain db1 where 1: "adjust_witness_vote db (wv_witness v) delta = Inr db1"
      "rfold (\<lambda>v d. adjust_witness_vote d (wv_witness v) delta) vs db1 = Inr db'"
    by (auto simp: res_simps)
  from 1(1) obtain w w' where w: "find_row wit_owner (wv_witness v) (witnesses db) = Some w" "wit_owner w' = wv_witness v"
      "wit_votes w' = wit_votes w + delta" "db1 = set_witness w' db"
    by (rule adjust_witness_vote_effect)
  have "wvotes db1 k = map_option (\<lambda>n. n + (if k = wv_witness v then delta else 0)) (wvotes db k)" for k
    using w by (auto simp: wvotes_def find_set_witness option.map_comp comp_def)
  moreover have "same_but_witnesses db db1" unfolding w(4) set_witness_def same_but_witnesses_def by blast
  ultimately show ?case
    using Cons.IH [OF 1(2)] by (auto simp: option.map_comp comp_def algebra_simps intro: same_but_witnesses_trans)
qed

lemma adjust_witness_votes_effect:
  assumes "adjust_witness_votes db name d = Inr db'"
  shows "same_but_witnesses db db'"
    and "votes_gap db name (d + e) \<Longrightarrow> votes_gap db' name e"
proof -
  note l = adjust_witness_votes_list [OF assms [unfolded adjust_witness_votes_def]]
  show f: "same_but_witnesses db db'" using l by blast
  assume gap: "votes_gap db name (d + e)"
  have c: "count_list (map wv_witness (votes_of db name)) k =
      count_list (map wv_witness (filter (\<lambda>v. wv_account v = name) (witness_votes db))) k" for k
    by (simp add: votes_of_def flip: count_mset)
  have wo: "weight_of db' = weight_of db" by (simp add: weight_of_def same_but_witnessesD [OF f] fun_eq_iff)
  show "votes_gap db' name e"
    unfolding votes_gap_def
  proof (intro allI impI)
    fix k w' assume w': "find_row wit_owner k (witnesses db') = Some w'"
    then obtain w where w: "find_row wit_owner k (witnesses db) = Some w"
        "wit_votes w' = wit_votes w + d * int (count_list (map wv_witness (votes_of db name)) k)"
      using l by (auto simp: wvotes_def) (metis (no_types, lifting) map_option_eq_Some option.simps(9))
    have "sum_rows (\<lambda>v. if wv_witness v = k then weight_of db (wv_account v) - (if wv_account v = name then e else 0) else 0)
          (witness_votes db) =
        sum_rows (\<lambda>v. (if wv_witness v = k then weight_of db (wv_account v) - (if wv_account v = name then d + e else 0) else 0) +
          (if wv_account v = name \<and> wv_witness v = k then d else 0)) (witness_votes db)"
      by (rule sum_rows_cong) auto
    also have "\<dots> = wit_votes w + d * int (count_list (map wv_witness (filter (\<lambda>v. wv_account v = name) (witness_votes db))) k)"
      using gap w(1) by (simp add: votes_gap_def sum_rows_add sum_rows_count)
    finally show "wit_votes w' = sum_rows (\<lambda>v. if wv_witness v = k
        then weight_of db' (wv_account v) - (if wv_account v = name then e else 0) else 0) (witness_votes db')"
      by (simp add: w(2) c wo same_but_witnessesD [OF f] cong: if_cong)
  qed
qed

text \<open>
  The functions on proxies change the witnesses and the proxied votes of accounts, and nothing else.
\<close>

definition strip :: "account_object \<Rightarrow> account_object" where
  "strip a = a\<lparr>acc_proxied_vsf_votes := []\<rparr>"

definition votes_frame :: "database \<Rightarrow> database \<Rightarrow> bool" where
  "votes_frame db db' \<longleftrightarrow>
     (\<exists>ws accs. db' = db\<lparr>witnesses := ws, accounts := accs\<rparr> \<and> map strip accs = map strip (accounts db))"

lemma strip_simps [simp]:
  "acc_name (strip a) = acc_name a" "acc_proxy (strip a) = acc_proxy a" "account_held s (strip a) = account_held s a"
  "account_solvent (strip a) = account_solvent a" "strip (a\<lparr>acc_proxied_vsf_votes := vs\<rparr>) = strip a"
  "acc_vesting_shares (strip a) = acc_vesting_shares a" "acc_can_vote (strip a) = acc_can_vote a"
  by (simp_all add: strip_def account_held_def account_solvent_def)

lemma votes_frame_refl [simp]: "votes_frame db db"
  unfolding votes_frame_def by (rule exI [of _ "witnesses db"], rule exI [of _ "accounts db"]) simp

lemma votes_frame_trans: "votes_frame db db1 \<Longrightarrow> votes_frame db1 db2 \<Longrightarrow> votes_frame db db2"
  unfolding votes_frame_def by (elim exE conjE) (rule exI, rule exI, auto)

lemma same_but_witnesses_frame: "same_but_witnesses db db' \<Longrightarrow> votes_frame db db'"
  unfolding same_but_witnesses_def votes_frame_def
  by (elim exE) (rule exI, rule exI [of _ "accounts db"], auto)

lemma map_strip_find:
  "map strip as' = map strip as \<Longrightarrow>
   map_option strip (find_row acc_name n as') = map_option strip (find_row acc_name n as)"
proof (induction as' arbitrary: as)
  case (Cons a' as')
  then obtain a bs where as: "as = a # bs" "strip a' = strip a" "map strip as' = map strip bs" by (cases as) auto
  then have "acc_name a' = acc_name a" by (metis strip_simps(1))
  then show ?case using Cons.IH [OF as(3)] as by simp
qed simp

lemma map_strip_sum:
  "map strip as' = map strip as \<Longrightarrow> (\<And>a. f (strip a) = f a) \<Longrightarrow> sum_rows f as' = sum_rows f as"
  by (metis (no_types, lifting) map_map comp_apply map_eq_conv sum_rows_def)

lemma votes_frameD:
  assumes "votes_frame db db'"
  shows "surplus s db' = surplus s db" "solvent db' = solvent db" "has_hardfork db' n = has_hardfork db n" "dgpo db' = dgpo db"
    "witness_votes db' = witness_votes db" "map acc_name (accounts db') = map acc_name (accounts db)"
    "map_option strip (find_row acc_name k (accounts db')) = map_option strip (find_row acc_name k (accounts db))"
    "decline_requests db' = decline_requests db" "limit_orders db' = limit_orders db" "escrows db' = escrows db"
    "head_block_time db' = head_block_time db"
proof -
  obtain ws accs where 1: "db' = db\<lparr>witnesses := ws, accounts := accs\<rparr>" "map strip accs = map strip (accounts db)"
    using assms by (auto simp: votes_frame_def)
  show "surplus s db' = surplus s db"
    using map_strip_sum [OF 1(2), of "account_held s"] by (simp add: 1(1) surplus_def held_def issued_def)
  have "set (map account_solvent accs) = set (map account_solvent (accounts db))"
    using arg_cong [OF 1(2), of "map account_solvent"] by (simp add: comp_def)
  then have "(\<forall>a \<in> set accs. account_solvent a) = (\<forall>a \<in> set (accounts db). account_solvent a)"
    by (metis (no_types, opaque_lifting) image_iff image_set)
  then show "solvent db' = solvent db" by (simp add: 1(1) solvent_def)
  show "map acc_name (accounts db') = map acc_name (accounts db)"
    using arg_cong [OF 1(2), of "map acc_name"] by (simp add: 1(1) comp_def)
  show "map_option strip (find_row acc_name k (accounts db')) = map_option strip (find_row acc_name k (accounts db))"
    using map_strip_find [OF 1(2)] by (simp add: 1(1))
qed (use assms in \<open>auto simp: votes_frame_def has_hardfork_def head_block_time_def\<close>)

lemma votes_frame_set_account:
  assumes "find_row acc_name (acc_name a) (accounts db) = Some a0" "strip a = strip a0"
  shows "votes_frame db (set_account a db)"
proof -
  have "map strip (update_row acc_name (acc_name a) a as) = map strip as" if "find_row acc_name (acc_name a) as = Some a0" for as
    using that assms(2) by (induction as) (auto split: if_splits)
  then show ?thesis
    using assms(1) unfolding votes_frame_def set_account_def
    by (intro exI [of _ "witnesses db"]) auto
qed

section \<open>Following the proxies\<close>

lemma votes_gap_without_votes:
  "\<forall>v \<in> set (witness_votes db). wv_account v \<noteq> name \<Longrightarrow> votes_gap db name d = votes_ok db"
  unfolding votes_gap_def votes_ok_def by (auto intro!: sum_rows_cong cong: if_cong)

lemma weight_of_set_account:
  "find_row acc_name (acc_name a) (accounts db) = Some a0 \<Longrightarrow>
   weight_of (set_account a db) n = (if n = acc_name a then weight a else weight_of db n)"
  by (simp add: weight_of_def set_account_def table_simps)

lemma votes_gap_set_account:
  assumes "find_row acc_name (acc_name a) (accounts db) = Some a0" "votes_ok db"
  shows "votes_gap (set_account a db) (acc_name a) (weight a - weight a0)"
proof -
  have "weight_of db (acc_name a) = weight a0" using assms(1) by (simp add: weight_of_def)
  then have "weight_of (set_account a db) n - (if n = acc_name a then weight a - weight a0 else 0) = weight_of db n" for n
    using weight_of_set_account [OF assms(1)] by simp
  then show ?thesis
    using assms(2) by (simp add: votes_gap_def votes_ok_def set_account_def cong: if_cong)
qed

lemma voters_ok_frame:
  assumes "voters_ok db" "votes_frame db db'" "\<forall>a \<in> set (accounts db'). length (acc_proxied_vsf_votes a) = freezone_MAX_PROXY_RECURSION_DEPTH"
  shows "voters_ok db'"
proof -
  have "\<exists>a'. find_row acc_name k (accounts db') = Some a' \<and> acc_proxy a' = ''''"
    if a: "find_row acc_name k (accounts db) = Some a" "acc_proxy a = ''''" for k a
  proof -
    obtain a' where "find_row acc_name k (accounts db') = Some a'" "strip a' = strip a"
      using votes_frameD(7) [OF assms(2), of k] a(1) by auto
    then show ?thesis using a(2) by (metis strip_simps(2))
  qed
  then show ?thesis using assms(1,3) votes_frameD(5) [OF assms(2)] by (fastforce simp: voters_ok_def)
qed

definition vsf :: "account_object \<Rightarrow> int" where
  "vsf a = (if acc_proxy a = freezone_PROXY_TO_SELF_ACCOUNT then weight a
            else acc_proxied_vsf_votes a ! (freezone_MAX_PROXY_RECURSION_DEPTH - 1))"

definition vsf_total :: "database \<Rightarrow> int" where
  "vsf_total db = sum_rows vsf (accounts db)"

lemma vsf_total_set_account [ledger_simps]:
  "find_row acc_name (acc_name a) (accounts db) = Some a0 \<Longrightarrow> vsf_total (set_account a db) = vsf_total db + vsf a - vsf a0"
  by (simp add: vsf_total_def set_account_def table_simps)

lemma vsf_total_cong: "accounts db' = accounts db \<Longrightarrow> vsf_total db' = vsf_total db"
  by (simp add: vsf_total_def)

lemma add_proxied_loop:
  assumes "rfold (\<lambda>i a. rbind (safe_add (acc_proxied_vsf_votes a ! (i + depth)) (delta ! i)) (\<lambda>x.
            Inr (a\<lparr>acc_proxied_vsf_votes := (acc_proxied_vsf_votes a)[i + depth := x]\<rparr>))) (rev [0..<n]) a = Inr a'"
    "n + depth \<le> length (acc_proxied_vsf_votes a)"
  shows "strip a' = strip a \<and> length (acc_proxied_vsf_votes a') = length (acc_proxied_vsf_votes a) \<and>
    (\<forall>j < length (acc_proxied_vsf_votes a). acc_proxied_vsf_votes a' ! j =
       acc_proxied_vsf_votes a ! j + (if depth \<le> j \<and> j < n + depth then delta ! (j - depth) else 0))"
  using assms
proof (induction n arbitrary: a)
  case (Suc n)
  let ?b = "a\<lparr>acc_proxied_vsf_votes := (acc_proxied_vsf_votes a)[n + depth := acc_proxied_vsf_votes a ! (n + depth) + delta ! n]\<rparr>"
  have "rfold (\<lambda>i a. rbind (safe_add (acc_proxied_vsf_votes a ! (i + depth)) (delta ! i)) (\<lambda>x.
      Inr (a\<lparr>acc_proxied_vsf_votes := (acc_proxied_vsf_votes a)[i + depth := x]\<rparr>))) (rev [0..<n]) ?b = Inr a'"
    using Suc.prems(1) by (auto simp: res_simps dest!: safe_values)
  from Suc.IH [OF this] Suc.prems(2) show ?case
    by (auto simp: nth_list_update less_Suc_eq)
qed simp

lemma add_proxied_votes_effect:
  assumes "add_proxied_votes delta depth p = Inr p'" "length (acc_proxied_vsf_votes p) = 4" "length delta = 5" "depth \<le> 4"
  shows "strip p' = strip p" "length (acc_proxied_vsf_votes p') = 4"
    "weight p' = weight p + sum_list (take (4 - depth) delta)"
    "depth < 4 \<Longrightarrow> acc_proxied_vsf_votes p' ! 3 = acc_proxied_vsf_votes p ! 3 + delta ! (3 - depth)"
proof -
  have l: "strip p' = strip p \<and> length (acc_proxied_vsf_votes p') = length (acc_proxied_vsf_votes p) \<and>
    (\<forall>j < length (acc_proxied_vsf_votes p). acc_proxied_vsf_votes p' ! j =
       acc_proxied_vsf_votes p ! j + (if depth \<le> j \<and> j < 4 - depth + depth then delta ! (j - depth) else 0))"
    by (rule add_proxied_loop) (use assms in \<open>auto simp: add_proxied_votes_def freezone_MAX_PROXY_RECURSION_DEPTH_def\<close>)
  then have n: "acc_proxied_vsf_votes p' ! j = acc_proxied_vsf_votes p ! j + (if depth \<le> j then delta ! (j - depth) else 0)"
    if "j < 4" for j using that assms(2,4) by auto
  show s: "strip p' = strip p" "length (acc_proxied_vsf_votes p') = 4" using l assms(2) by auto
  have "sum_list (acc_proxied_vsf_votes p') = (\<Sum>j<4. acc_proxied_vsf_votes p ! j + (if depth \<le> j then delta ! (j - depth) else 0))"
    using s(2) n by (simp add: sum_list_sum_nth atLeast0LessThan)
  also have "\<dots> = sum_list (acc_proxied_vsf_votes p) + (\<Sum>j<4. if depth \<le> j then delta ! (j - depth) else 0)"
    using assms(2) by (simp add: sum_list_sum_nth atLeast0LessThan sum.distrib)
  also have "(\<Sum>j<4. if depth \<le> j then delta ! (j - depth) else 0) = (\<Sum>i<4 - depth. delta ! i)"
    using assms(4) by (auto simp: numeral_eq_Suc le_Suc_eq)
  also have "\<dots> = sum_list (take (4 - depth) delta)"
    using assms(3) by (simp add: sum_list_sum_nth atLeast0LessThan min_def)
  finally show "weight p' = weight p + sum_list (take (4 - depth) delta)"
    using arg_cong [OF s(1), of acc_vesting_shares] by (simp add: weight_def)
  show "depth < 4 \<Longrightarrow> acc_proxied_vsf_votes p' ! 3 = acc_proxied_vsf_votes p ! 3 + delta ! (3 - depth)"
    using n [of 3] by simp
qed

lemma voter_without_proxy:
  "voters_ok db \<Longrightarrow> find_row acc_name name (accounts db) = Some a \<Longrightarrow> acc_proxy a \<noteq> '''' \<Longrightarrow>
   v \<in> set (witness_votes db) \<Longrightarrow> wv_account v \<noteq> name"
  by (auto simp: voters_ok_def)

lemma voters_ok_levels: "voters_ok db \<Longrightarrow> find_row acc_name k (accounts db) = Some a \<Longrightarrow> length (acc_proxied_vsf_votes a) = 4"
  by (auto simp: voters_ok_def freezone_MAX_PROXY_RECURSION_DEPTH_def dest: find_row_in_set)

lemma voters_ok_set_account:
  assumes "voters_ok db" "find_row acc_name (acc_name a) (accounts db) = Some a0" "strip a = strip a0" "length (acc_proxied_vsf_votes a) = 4"
  shows "voters_ok (set_account a db)"
proof (rule voters_ok_frame [OF assms(1) votes_frame_set_account [OF assms(2,3)]])
  show "\<forall>b \<in> set (accounts (set_account a db)). length (acc_proxied_vsf_votes b) = freezone_MAX_PROXY_RECURSION_DEPTH"
    using set_update_row [of acc_name "acc_name a" a "accounts db"] assms(1,4)
    by (auto simp: set_account_def voters_ok_def freezone_MAX_PROXY_RECURSION_DEPTH_def)
qed

lemma proxy_step:
  assumes "voters_ok db" "find_row acc_name name (accounts db) = Some a" "acc_proxy a \<noteq> ''''"
    "find_row acc_name (acc_proxy a) (accounts db) = Some p" "strip p' = strip p" "length (acc_proxied_vsf_votes p') = 4"
  shows "votes_frame db (set_account p' db)" "voters_ok (set_account p' db)"
    "find_row acc_name (acc_proxy a) (accounts (set_account p' db)) = Some p'"
    "votes_gap db name x \<Longrightarrow> votes_gap (set_account p' db) (acc_proxy a) (weight p' - weight p)"
    "vsf_total (set_account p' db) = vsf_total db + vsf p' - vsf p"
proof -
  have n: "acc_name p' = acc_proxy a" using find_row_key [OF assms(4)] arg_cong [OF assms(5), of acc_name] by simp
  then have f: "find_row acc_name (acc_name p') (accounts db) = Some p" using assms(4) by simp
  show "votes_frame db (set_account p' db)" by (rule votes_frame_set_account [OF f assms(5)])
  show "voters_ok (set_account p' db)" by (rule voters_ok_set_account [OF assms(1) f assms(5,6)])
  show "find_row acc_name (acc_proxy a) (accounts (set_account p' db)) = Some p'"
    using f n by (simp add: set_account_def table_simps)
  show "votes_gap (set_account p' db) (acc_proxy a) (weight p' - weight p)" if "votes_gap db name x"
  proof -
    have "votes_ok db" using votes_gap_without_votes [of db name x] voter_without_proxy [OF assms(1-3)] that by blast
    then show ?thesis using votes_gap_set_account [OF f] n by simp
  qed
  show "vsf_total (set_account p' db) = vsf_total db + vsf p' - vsf p" using f by (rule vsf_total_set_account)
qed

lemma vsf_strip: "strip p' = strip p \<Longrightarrow> acc_proxy p' = acc_proxy p"
  by (metis strip_simps(2))

lemma adjust_proxied_array_effect:
  assumes "adjust_proxied_witness_votes_array db name delta depth = Inr db'" "voters_ok db"
    "find_row acc_name name (accounts db) = Some a" "length delta = 5" "depth \<le> 4"
  shows "votes_frame db db' \<and> voters_ok db' \<and> (votes_gap db name (sum_list (take (5 - depth) delta)) \<longrightarrow> votes_ok db') \<and>
    vsf_total db' = vsf_total db + (if acc_proxy a = '''' then 0 else sum_list (take (4 - depth) delta))"
  using assms
proof (induction db name delta depth arbitrary: a rule: adjust_proxied_witness_votes_array.induct)
  case (1 db name delta depth)
  note eq = "1.prems"(1) [unfolded adjust_proxied_witness_votes_array.simps [of db name]]
  note d = freezone_MAX_PROXY_RECURSION_DEPTH_def freezone_PROXY_TO_SELF_ACCOUNT_def
  consider (self) "acc_proxy a = ''''" | (stop) "acc_proxy a \<noteq> ''''" "depth = 4" | (step) "acc_proxy a \<noteq> ''''" "depth < 4"
    using "1.prems"(5) by linarith
  then show ?case
  proof cases
    case self
    then obtain t where t: "accumulate (rev (take (4 - depth + 1) delta)) 0 = Inr t" "adjust_witness_votes db name t = Inr db'"
      using eq "1.prems"(3) by (auto simp: d res_simps)
    have "4 - depth + 1 = 5 - depth" using "1.prems"(5) by simp
    then have t': "t = sum_list (take (5 - depth) delta)" using accumulate_value [OF t(1)] by (simp add: sum_list_rev)
    note e = adjust_witness_votes_effect [OF t(2)]
    have "voters_ok db'" using "1.prems"(2) same_but_witnessesD [OF e(1)] by (simp add: voters_ok_def)
    then show ?thesis
      using e(2) [of 0] self t' same_but_witnesses_frame [OF e(1)] vsf_total_cong [OF same_but_witnessesD(1) [OF e(1)]] by simp
  next
    case stop
    then have "db' = db" using eq "1.prems"(3) by (simp add: d get_account_def get_row_def)
    moreover have "votes_gap db name x = votes_ok db" for x
      using votes_gap_without_votes voter_without_proxy [OF "1.prems"(2,3) stop(1)] by blast
    ultimately show ?thesis using stop "1.prems"(2) by simp
  next
    case step
    then obtain p p' where p: "find_row acc_name (acc_proxy a) (accounts db) = Some p" "add_proxied_votes delta depth p = Inr p'"
        "adjust_proxied_witness_votes_array (set_account p' db) (acc_proxy a) delta (depth + 1) = Inr db'"
      using eq "1.prems"(3) by (auto simp: d res_simps)
    note ap = add_proxied_votes_effect [OF p(2) voters_ok_levels [OF "1.prems"(2) p(1)] "1.prems"(4,5)]
    note st = proxy_step [OF "1.prems"(2,3) step(1) p(1) ap(1,2)]
    have IH: "votes_frame (set_account p' db) db' \<and> voters_ok db' \<and>
        (votes_gap (set_account p' db) (acc_proxy a) (sum_list (take (5 - (depth + 1)) delta)) \<longrightarrow> votes_ok db') \<and>
        vsf_total db' = vsf_total (set_account p' db) + (if acc_proxy p' = '''' then 0 else sum_list (take (4 - (depth + 1)) delta))"
      using "1.IH" [of a p p', OF _ _ _ _ _ p(3) st(2,3) "1.prems"(4)] "1.prems"(3) step p(1,2)
      by (simp add: d get_account_def get_row_def)
    have sum: "sum_list (take (4 - depth) delta) = sum_list (take (3 - depth) delta) + delta ! (3 - depth)"
      using step(2) "1.prems"(4) by (simp add: Suc_diff_Suc take_Suc_conv_app_nth numeral_eq_Suc Suc_diff_le)
    have v: "vsf p' - vsf p + (if acc_proxy p' = '''' then 0 else sum_list (take (4 - (depth + 1)) delta)) = sum_list (take (4 - depth) delta)"
      using ap(3,4) sum step(2) vsf_strip [OF ap(1)] by (auto simp: vsf_def d)
    have "votes_gap db name x \<Longrightarrow> votes_ok db'" for x
      using IH st(4) ap(3) by simp
    then show ?thesis using IH st(1,5) step v by (auto intro: votes_frame_trans)
  qed
qed

lemma sum_list_add_at: "i < length xs \<Longrightarrow> sum_list (xs[i := xs ! i + d]) = sum_list xs + (d :: int)"
  by (induction xs arbitrary: i) (auto split: nat.split)

lemma adjust_proxied_effect:
  assumes "adjust_proxied_witness_votes db name d depth = Inr db'" "voters_ok db" "find_row acc_name name (accounts db) = Some a"
  shows "votes_frame db db' \<and> voters_ok db' \<and> (votes_gap db name d \<longrightarrow> votes_ok db') \<and>
    vsf_total db' = vsf_total db + (if acc_proxy a = '''' \<or> depth \<ge> 4 then 0 else d)"
  using assms
proof (induction db name d depth arbitrary: a rule: adjust_proxied_witness_votes.induct)
  case (1 db name d depth)
  note eq = "1.prems"(1) [unfolded adjust_proxied_witness_votes.simps [of db name]]
  note m = freezone_MAX_PROXY_RECURSION_DEPTH_def freezone_PROXY_TO_SELF_ACCOUNT_def
  consider (self) "acc_proxy a = ''''" | (stop) "acc_proxy a \<noteq> ''''" "4 \<le> depth" | (step) "acc_proxy a \<noteq> ''''" "depth < 4"
    by linarith
  then show ?case
  proof cases
    case self
    then have t: "adjust_witness_votes db name d = Inr db'"
      using eq "1.prems"(3) by (auto simp: m res_simps)
    note e = adjust_witness_votes_effect [OF t]
    have "voters_ok db'" using "1.prems"(2) same_but_witnessesD [OF e(1)] by (simp add: voters_ok_def)
    then show ?thesis
      using e(2) [of 0] self same_but_witnesses_frame [OF e(1)] vsf_total_cong [OF same_but_witnessesD(1) [OF e(1)]] by simp
  next
    case stop
    then have "db' = db" using eq "1.prems"(3) by (simp add: m get_account_def get_row_def)
    moreover have "votes_gap db name x = votes_ok db" for x
      using votes_gap_without_votes voter_without_proxy [OF "1.prems"(2,3) stop(1)] by blast
    ultimately show ?thesis using stop "1.prems"(2) by simp
  next
    case step
    then obtain p x where p: "find_row acc_name (acc_proxy a) (accounts db) = Some p" "safe_add (acc_proxied_vsf_votes p ! depth) d = Inr x"
        "adjust_proxied_witness_votes (set_account (p\<lparr>acc_proxied_vsf_votes := (acc_proxied_vsf_votes p)[depth := x]\<rparr>) db)
          (acc_proxy a) d (depth + 1) = Inr db'"
      using eq "1.prems"(3) by (auto simp: m res_simps)
    let ?p = "p\<lparr>acc_proxied_vsf_votes := (acc_proxied_vsf_votes p)[depth := x]\<rparr>"
    have len: "length (acc_proxied_vsf_votes p) = 4" using voters_ok_levels [OF "1.prems"(2) p(1)] .
    have x: "x = acc_proxied_vsf_votes p ! depth + d" using p(2) by (auto dest: safe_values)
    have w: "weight ?p = weight p + d"
      using step(2) len by (simp add: weight_def x sum_list_add_at)
    have l3: "acc_proxied_vsf_votes ?p ! 3 = acc_proxied_vsf_votes p ! 3 + (if depth = 3 then d else 0)"
      using len x by simp
    note st = proxy_step [OF "1.prems"(2,3) step(1) p(1), of ?p]
    have IH: "votes_frame (set_account ?p db) db' \<and> voters_ok db' \<and> (votes_gap (set_account ?p db) (acc_proxy a) d \<longrightarrow> votes_ok db') \<and>
        vsf_total db' = vsf_total (set_account ?p db) + (if acc_proxy ?p = '''' \<or> depth + 1 \<ge> 4 then 0 else d)"
      using "1.IH" [of a p x, OF _ _ _ _ _ p(3) st(2,3)] "1.prems"(3) step p(1,2) len
      by (simp add: m get_account_def get_row_def)
    have v: "vsf ?p - vsf p + (if acc_proxy ?p = '''' \<or> depth + 1 \<ge> 4 then 0 else d) = d"
      using w l3 step(2) by (auto simp: vsf_def m)
    have "votes_gap db name y \<Longrightarrow> votes_ok db'" for y
      using IH st(4) w len by simp
    then show ?thesis using IH st(1,5) step v len by (auto intro: votes_frame_trans)
  qed
qed

section \<open>Evaluators keep the counters right\<close>

lemma votes_ok_cong:
  assumes "witnesses db' = witnesses db" "witness_votes db' = witness_votes db" "weight_of db' = weight_of db"
  shows "votes_gap db' n d = votes_gap db n d" "votes_ok db' = votes_ok db"
  unfolding votes_ok_def votes_gap_def assms by (rule refl)+

lemma modify_account_effect:
  assumes "modify_account db name f = Inr db'" "\<And>a. acc_name (f a) = acc_name a"
  obtains a where "find_row acc_name name (accounts db) = Some a" "db' = set_account (f a) db" "acc_name a = name"
    "find_row acc_name (acc_name (f a)) (accounts db) = Some a"
  using assms find_row_key by (fastforce simp: modify_account_def res_simps)

text \<open>Changing fields of an account that are neither its votes nor its name.\<close>

lemma modify_account_votes:
  assumes "modify_account db name f = Inr db'" "\<And>a. acc_name (f a) = acc_name a"
    "\<And>a. acc_vesting_shares (f a) = acc_vesting_shares a" "\<And>a. acc_proxied_vsf_votes (f a) = acc_proxied_vsf_votes a"
  shows "witnesses db' = witnesses db" "witness_votes db' = witness_votes db" "weight_of db' = weight_of db"
    "\<forall>a \<in> set (accounts db). length (acc_proxied_vsf_votes a) = 4 \<Longrightarrow> \<forall>a \<in> set (accounts db'). length (acc_proxied_vsf_votes a) = 4"
proof -
  from assms(1,2) obtain a where a: "find_row acc_name name (accounts db) = Some a" "db' = set_account (f a) db"
      "find_row acc_name (acc_name (f a)) (accounts db) = Some a" "acc_name a = name"
    by (rule modify_account_effect)
  show "witnesses db' = witnesses db" "witness_votes db' = witness_votes db" by (simp_all add: a(2) set_account_def)
  have "weight (f a) = weight a" using assms(3,4) by (simp add: weight_def)
  then show "weight_of db' = weight_of db"
    using weight_of_set_account [OF a(3)] a(1,4) assms(2) by (auto simp: a(2) fun_eq_iff weight_of_def)
  show "\<forall>a \<in> set (accounts db'). length (acc_proxied_vsf_votes a) = 4"
    if "\<forall>a \<in> set (accounts db). length (acc_proxied_vsf_votes a) = 4"
    using that set_update_row [of acc_name "acc_name (f a)" "f a" "accounts db"] assms(4) find_row_in_set [OF a(1)]
    by (auto simp: a(2) set_account_def)
qed

lemma voters_ok_modify:
  assumes "modify_account db name f = Inr db'" "\<And>a. acc_name (f a) = acc_name a"
    "\<And>a. acc_proxied_vsf_votes (f a) = acc_proxied_vsf_votes a" "\<And>a. acc_vesting_shares (f a) = acc_vesting_shares a"
    "voters_ok db" "(\<forall>v \<in> set (witness_votes db). wv_account v \<noteq> name) \<or> (\<forall>a. acc_proxy (f a) = acc_proxy a)"
  shows "voters_ok db'"
proof -
  from assms(1,2) obtain a where a: "find_row acc_name name (accounts db) = Some a" "db' = set_account (f a) db"
      "find_row acc_name (acc_name (f a)) (accounts db) = Some a" "acc_name a = name"
    by (rule modify_account_effect)
  have "\<forall>a \<in> set (accounts db'). length (acc_proxied_vsf_votes a) = 4"
    using modify_account_votes(4) [OF assms(1,2,4,3)] assms(5) by (simp add: voters_ok_def freezone_MAX_PROXY_RECURSION_DEPTH_def)
  moreover have "find_row acc_name k (accounts db') = (if k = name then Some (f a) else find_row acc_name k (accounts db))" for k
    using a(3,4) assms(2) by (simp add: a(2) set_account_def table_simps)
  moreover have "witness_votes db' = witness_votes db" by (simp add: a(2) set_account_def)
  ultimately show ?thesis
    using assms(5,6) a(1) by (fastforce simp: voters_ok_def freezone_MAX_PROXY_RECURSION_DEPTH_def)
qed

text \<open>Adding or removing the vote of an account together with its weight.\<close>

lemma votes_ok_insert:
  assumes "votes_ok db" "adjust_witness_vote (db\<lparr>witness_votes := witness_votes db @ [\<lparr>wv_witness = w, wv_account = n\<rparr>]\<rparr>) w x = Inr db'"
    "x = weight_of db n"
  shows "votes_ok db'"
  using assms(2)
proof (rule adjust_witness_vote_effect)
  fix r r'
  assume r: "find_row wit_owner w (witnesses (db\<lparr>witness_votes := witness_votes db @ [\<lparr>wv_witness = w, wv_account = n\<rparr>]\<rparr>)) = Some r"
    "wit_owner r' = w" "wit_votes r' = wit_votes r + x"
    "db' = set_witness r' (db\<lparr>witness_votes := witness_votes db @ [\<lparr>wv_witness = w, wv_account = n\<rparr>]\<rparr>)"
  have "weight_of db' = weight_of db" by (simp add: r(4) weight_of_def fun_eq_iff)
  then show ?thesis
    using assms(1,3) r by (auto simp: votes_ok_def r(4) find_set_witness sum_rows_append cong: if_cong split: if_splits)
qed

lemma votes_ok_delete:
  assumes "votes_ok db" "find_row wv_key (n, w) (witness_votes db) = Some v" "adjust_witness_vote db w (- weight_of db n) = Inr db1"
    "witnesses db' = witnesses db1" "weight_of db' = weight_of db1" "witness_votes db' = remove_row wv_key (n, w) (witness_votes db1)"
  shows "votes_ok db'"
  using assms(3)
proof (rule adjust_witness_vote_effect)
  fix r r'
  assume r: "find_row wit_owner w (witnesses db) = Some r" "wit_owner r' = w" "wit_votes r' = wit_votes r + - weight_of db n"
    "db1 = set_witness r' db"
  have k: "wv_witness v = w" "wv_account v = n" using find_row_key [OF assms(2)] by (auto simp: wv_key_def)
  have "weight_of db1 = weight_of db" by (simp add: r(4) weight_of_def fun_eq_iff)
  then show ?thesis
    using assms(1,2) r(1-3) k
    by (auto simp: votes_ok_def assms(4,5,6) r(4) find_set_witness sum_rows_remove_row [OF assms(2)] cong: if_cong split: if_splits)
qed

lemma cast_vote_hf3:
  "has_hardfork db 3 \<Longrightarrow> cast_vote db voter w approve x = Inr db' \<Longrightarrow> adjust_witness_vote db w (if approve then x else - x) = Inr db'"
  by (auto simp: cast_vote_def has_hardfork_def res_simps split: if_splits dest!: safe_values)

lemma adjust_witness_vote_tables:
  "adjust_witness_vote db w x = Inr db' \<Longrightarrow> same_but_witnesses db db'"
  by (erule adjust_witness_vote_effect) (auto simp: same_but_witnesses_def set_witness_def)

lemma account_witness_vote_ok:
  assumes "account_witness_vote_apply db o1 = Inr db'" "has_hardfork db 3" "votes_ok db" "voters_ok db"
  shows "votes_ok db' \<and> voters_ok db'"
proof -
  let ?n = "awv_account o1" and ?w = "awv_witness o1"
  obtain a where a: "find_row acc_name ?n (accounts db) = Some a" "acc_proxy a = ''''"
    using assms(1) by (auto simp: account_witness_vote_apply_def rbind_eq_Inr [of "get_account _ _"] fc_assert_eq_Inr get_account_eq_Inr)
  have wt: "weight_of db ?n = weight a" using a(1) by (simp add: weight_of_def)
  show ?thesis
  proof (cases "find_row wv_key (?n, ?w) (witness_votes db)")
    case None
    let ?v = "\<lparr>wv_witness = ?w, wv_account = ?n\<rparr>"
    let ?db1 = "db\<lparr>witness_votes := witness_votes db @ [?v]\<rparr>"
    obtain x db2 where 1: "witness_vote_weight a = Inr x" "cast_vote ?db1 ?n ?w True x = Inr db2"
        "modify_account db2 ?n (\<lambda>a. a\<lparr>acc_witnesses_voted_for := acc_witnesses_voted_for a + 1\<rparr>) = Inr db'"
      using assms(1) a None by (auto simp: account_witness_vote_apply_def Let_def rbind_eq_Inr fc_assert_eq_Inr get_account_eq_Inr)
    have h: "has_hardfork ?db1 3" using assms(2) by (simp add: has_hardfork_def)
    have aw: "adjust_witness_vote ?db1 ?w x = Inr db2" using cast_vote_hf3 [OF h 1(2)] by simp
    have "votes_ok db2" using votes_ok_insert [OF assms(3) aw] witness_vote_weight_value [OF 1(1)] wt by simp
    then have v: "votes_ok db'"
      using votes_ok_cong(2) [OF modify_account_votes(1-3) [OF 1(3)]] by simp
    have "voters_ok ?db1"
      using assms(4) None a by (auto simp: voters_ok_def wv_key_def find_row_None_iff)
    then have "voters_ok db2"
      using same_but_witnessesD [OF adjust_witness_vote_tables [OF aw]] by (simp add: voters_ok_def)
    then show ?thesis using v voters_ok_modify [OF 1(3)] by simp
  next
    case (Some v)
    obtain x db1 db2 where 1: "witness_vote_weight a = Inr x" "cast_vote db ?n ?w False x = Inr db1"
        "modify_account db1 ?n (\<lambda>a. a\<lparr>acc_witnesses_voted_for := acc_witnesses_voted_for a - 1\<rparr>) = Inr db2"
        "db' = db2\<lparr>witness_votes := remove_row wv_key (?n, ?w) (witness_votes db2)\<rparr>"
      using assms(1) a Some by (auto simp: account_witness_vote_apply_def Let_def rbind_eq_Inr fc_assert_eq_Inr get_account_eq_Inr)
    have aw: "adjust_witness_vote db ?w (- weight_of db ?n) = Inr db1"
      using cast_vote_hf3 [OF assms(2) 1(2)] witness_vote_weight_value [OF 1(1)] wt by simp
    note m = modify_account_votes [OF 1(3)]
    have "weight_of db' = weight_of db2" by (simp add: 1(4) weight_of_def fun_eq_iff)
    then have v: "votes_ok db'"
      using votes_ok_delete [OF assms(3) Some aw, of db'] m(1-3) by (simp add: 1(4))
    have "voters_ok db1" using assms(4) same_but_witnessesD [OF adjust_witness_vote_tables [OF aw]] by (simp add: voters_ok_def)
    then have "voters_ok db2" using voters_ok_modify [OF 1(3)] by simp
    then have "voters_ok db'"
      using set_remove_row [of wv_key "(?n, ?w)" "witness_votes db2"]
      by (auto simp: voters_ok_def 1(4) table_simps)
    with v show ?thesis by simp
  qed
qed

text \<open>Clearing the votes of an account: the part of the counters that was still its own goes with them.\<close>

lemma update_row_self: "find_row key k rows = Some r \<Longrightarrow> update_row key k r rows = rows"
  by (induction rows) auto

lemma clear_witness_votes_modify:
  assumes "clear_witness_votes db name = Inr db'" "find_row acc_name name (accounts db) = Some a"
  obtains n where "modify_account (db\<lparr>witness_votes := filter (\<lambda>v. wv_account v \<noteq> name) (witness_votes db)\<rparr>) name
      (\<lambda>a. a\<lparr>acc_witnesses_voted_for := n\<rparr>) = Inr db'"
proof (cases "has_hardfork db 6")
  case True
  then show ?thesis using assms(1) that by (simp add: clear_witness_votes_def Let_def)
next
  case False
  then have "db' = db\<lparr>witness_votes := filter (\<lambda>v. wv_account v \<noteq> name) (witness_votes db)\<rparr>"
    using assms(1) by (simp add: clear_witness_votes_def Let_def)
  then show ?thesis
    using assms(2) that [of "acc_witnesses_voted_for a"] find_row_key [OF assms(2)]
    by (simp add: modify_account_def get_account_def get_row_def set_account_def update_row_self)
qed

lemma sum_rows_filter: "sum_rows f (filter P xs) = sum_rows (\<lambda>v. if P v then f v else 0) xs"
  by (induction xs) auto

lemma votes_filtered:
  assumes "voters_ok db" and db1: "db1 = db\<lparr>witness_votes := filter (\<lambda>v. wv_account v \<noteq> name) (witness_votes db)\<rparr>"
  shows "voters_ok db1" "votes_gap db name (weight_of db name) \<Longrightarrow> votes_ok db1"
proof -
  show "voters_ok db1" using assms(1) by (auto simp: db1 voters_ok_def distinct_map_filter)
  have wo: "weight_of db1 = weight_of db" by (simp add: db1 weight_of_def fun_eq_iff)
  show "votes_ok db1" if "votes_gap db name (weight_of db name)"
    using that unfolding votes_ok_def votes_gap_def wo
    by (simp add: db1 sum_rows_filter) (auto intro!: sum_rows_cong)
qed

definition vote_fields_kept :: "(account_object \<Rightarrow> account_object) \<Rightarrow> bool" where
  "vote_fields_kept f \<longleftrightarrow> (\<forall>a. acc_name (f a) = acc_name a \<and> acc_vesting_shares (f a) = acc_vesting_shares a \<and>
     acc_proxied_vsf_votes (f a) = acc_proxied_vsf_votes a \<and> (\<forall>s. account_held s (f a) = account_held s a) \<and>
     account_solvent (f a) = account_solvent a)"

lemma vote_fields_kept_simps [simp]:
  "vote_fields_kept (\<lambda>a. a\<lparr>acc_witnesses_voted_for := n\<rparr>)"
  "vote_fields_kept (\<lambda>a. a\<lparr>acc_proxy := p\<rparr>)"
  "vote_fields_kept (\<lambda>a. a\<lparr>acc_can_vote := b, acc_proxy := p\<rparr>)"
  "vote_fields_kept (\<lambda>a. a\<lparr>acc_witnesses_voted_for := acc_witnesses_voted_for a + 1\<rparr>)"
  "vote_fields_kept (\<lambda>a. a\<lparr>acc_witnesses_voted_for := acc_witnesses_voted_for a - 1\<rparr>)"
  by (simp_all add: vote_fields_kept_def account_held_def account_solvent_def)

lemma modify_vote_fields:
  assumes "modify_account db name f = Inr db'" "vote_fields_kept f"
  shows "surplus s db' = surplus s db" "solvent db \<Longrightarrow> solvent db'" "votes_ok db' = votes_ok db"
    "witness_votes db' = witness_votes db" "has_hardfork db' n = has_hardfork db n"
    "find_row acc_name k (accounts db') = (if k = name then map_option f (find_row acc_name k (accounts db)) else find_row acc_name k (accounts db))"
    "find_row acc_name name (accounts db) = Some a \<Longrightarrow> vsf_total db' = vsf_total db + vsf (f a) - vsf a"
    "dgpo db' = dgpo db" "decline_requests db' = decline_requests db" "map acc_name (accounts db') = map acc_name (accounts db)"
proof -
  have f: "\<And>a. acc_name (f a) = acc_name a" "\<And>a. acc_vesting_shares (f a) = acc_vesting_shares a"
      "\<And>a. acc_proxied_vsf_votes (f a) = acc_proxied_vsf_votes a" "\<And>a s. account_held s (f a) = account_held s a"
      "\<And>a. account_solvent (f a) = account_solvent a" using assms(2) by (simp_all add: vote_fields_kept_def)
  from assms(1) f(1) obtain b where b: "find_row acc_name name (accounts db) = Some b" "db' = set_account (f b) db" "acc_name b = name"
    "find_row acc_name (acc_name (f b)) (accounts db) = Some b" by (rule modify_account_effect)
  show "surplus s db' = surplus s db" by (rule modify_account_surplus [OF assms(1) f(1,4)])
  show "solvent db'" if "solvent db" using modify_account_solvent [OF assms(1) that] f(5) by simp
  show "votes_ok db' = votes_ok db" by (rule votes_ok_cong(2) [OF modify_account_votes(1-3) [OF assms(1) f(1,2,3)]])
  show "witness_votes db' = witness_votes db" "has_hardfork db' n = has_hardfork db n" "dgpo db' = dgpo db"
    "decline_requests db' = decline_requests db" "map acc_name (accounts db') = map acc_name (accounts db)"
    using b(3) f(1) by (simp_all add: b(2) set_account_def has_hardfork_def table_simps)
  show "find_row acc_name k (accounts db') = (if k = name then map_option f (find_row acc_name k (accounts db)) else find_row acc_name k (accounts db))"
    using b f(1) by (simp add: set_account_def table_simps)
  show "vsf_total db' = vsf_total db + vsf (f a) - vsf a" if "find_row acc_name name (accounts db) = Some a"
    using that b vsf_total_set_account [OF b(4)] by simp
qed

lemma modify_voters_ok:
  assumes "modify_account db name f = Inr db'" "vote_fields_kept f" "voters_ok db"
    "(\<forall>v \<in> set (witness_votes db). wv_account v \<noteq> name) \<or> (\<forall>a. acc_proxy (f a) = acc_proxy a)"
  shows "voters_ok db'"
  using voters_ok_modify [OF assms(1) _ _ _ assms(3,4)] assms(2) by (simp add: vote_fields_kept_def)

section \<open>No account is its own proxy, however long the chain\<close>

definition proxies :: "database \<Rightarrow> (account_name_type \<times> account_name_type) set" where
  "proxies db = {(n, p). \<exists>a. find_row acc_name n (accounts db) = Some a \<and> acc_proxy a = p \<and> p \<noteq> ''''}"

lemma proxies_alt: "proxies db = {(n, p). p \<noteq> '''' \<and> map_option acc_proxy (find_row acc_name n (accounts db)) = Some p}"
  unfolding proxies_def by fastforce

lemma proxies_frame:
  assumes "votes_frame db db'"
  shows "proxies db' = proxies db"
proof -
  have "map_option acc_proxy (find_row acc_name n (accounts db')) = map_option acc_proxy (find_row acc_name n (accounts db))" for n
    using arg_cong [OF votes_frameD(7) [OF assms, of n], of "map_option acc_proxy"] by (simp add: option.map_comp comp_def)
  then show ?thesis unfolding proxies_alt by simp
qed

text \<open>A walk that starts below an account does not touch it.\<close>

lemma adjust_proxied_array_unreachable:
  assumes "adjust_proxied_witness_votes_array db name delta depth = Inr db'" "voters_ok db" "length delta = 5" "depth \<le> 4"
    "(name, x) \<notin> (proxies db)\<^sup>+"
  shows "find_row acc_name x (accounts db') = find_row acc_name x (accounts db)"
  using assms
proof (induction db name delta depth rule: adjust_proxied_witness_votes_array.induct)
  case (1 db name delta depth)
  note eq = "1.prems"(1) [unfolded adjust_proxied_witness_votes_array.simps [of db name]]
  note d = freezone_MAX_PROXY_RECURSION_DEPTH_def freezone_PROXY_TO_SELF_ACCOUNT_def
  obtain a where a: "find_row acc_name name (accounts db) = Some a" using eq by (auto simp: res_simps)
  consider (self) "acc_proxy a = ''''" | (stop) "acc_proxy a \<noteq> ''''" "depth = 4" | (step) "acc_proxy a \<noteq> ''''" "depth < 4"
    using "1.prems"(4) by linarith
  then show ?case
  proof cases
    case self
    then obtain t where "adjust_witness_votes db name t = Inr db'"
      using eq a by (auto simp: d res_simps)
    then show ?thesis using same_but_witnessesD(1) [OF adjust_witness_votes_effect(1)] by simp
  next
    case stop
    then show ?thesis using eq a by (simp add: d get_account_def get_row_def)
  next
    case step
    then obtain p p' where p: "find_row acc_name (acc_proxy a) (accounts db) = Some p" "add_proxied_votes delta depth p = Inr p'"
        "adjust_proxied_witness_votes_array (set_account p' db) (acc_proxy a) delta (depth + 1) = Inr db'"
      using eq a by (auto simp: d res_simps)
    note ap = add_proxied_votes_effect [OF p(2) voters_ok_levels [OF "1.prems"(2) p(1)] "1.prems"(3,4)]
    note st = proxy_step [OF "1.prems"(2) a step(1) p(1) ap(1,2)]
    have e: "(name, acc_proxy a) \<in> proxies db" using a step(1) by (auto simp: proxies_def)
    then have x: "x \<noteq> acc_proxy a" "(acc_proxy a, x) \<notin> (proxies (set_account p' db))\<^sup>+"
      using "1.prems"(5) proxies_frame [OF st(1)] by (auto intro: trancl_into_trancl2)
    have "find_row acc_name x (accounts db') = find_row acc_name x (accounts (set_account p' db))"
      using "1.IH" [of a p p', OF _ _ _ _ _ p(3) st(2) "1.prems"(3) _ x(2)] a step p(1,2)
      by (simp add: d get_account_def get_row_def)
    also have "\<dots> = find_row acc_name x (accounts db)"
      using x(1) p(1) find_row_key [OF p(1)] arg_cong [OF ap(1), of acc_name] by (simp add: set_account_def table_simps)
    finally show ?thesis .
  qed
qed

lemma check_proxy_chain_sound:
  "check_proxy_chain db chain c = Inr () \<Longrightarrow> x \<in> set chain \<Longrightarrow> c \<noteq> x \<Longrightarrow> (c, x) \<notin> (proxies db)\<^sup>*"
proof (induction db chain c rule: check_proxy_chain.induct)
  case (1 db chain c)
  note eq = "1.prems"(1) [unfolded check_proxy_chain.simps [of db chain]]
  obtain a where a: "find_row acc_name c (accounts db) = Some a" using eq by (auto simp: res_simps)
  show ?case
  proof (cases "acc_proxy a = ''''")
    case True
    then have "\<nexists>y. (c, y) \<in> proxies db" using a by (auto simp: proxies_def)
    then show ?thesis using "1.prems"(3) by (meson converse_rtranclE)
  next
    case False
    then obtain n where n: "find_row acc_name (acc_proxy a) (accounts db) = Some n" "acc_name n \<notin> set chain"
        "Suc (length chain) \<le> freezone_MAX_PROXY_RECURSION_DEPTH" "check_proxy_chain db (acc_name n # chain) (acc_name n) = Inr ()"
      using eq a by (auto simp: res_simps)
    have "(acc_name n, x) \<notin> (proxies db)\<^sup>*"
      by (rule "1.IH" [of a n]) (use a n False "1.prems"(2) in \<open>auto simp: get_account_def get_row_def\<close>)
    moreover have "y = acc_name n" if "(c, y) \<in> proxies db" for y
      using that a find_row_key [OF n(1)] by (auto simp: proxies_def)
    ultimately show ?thesis using "1.prems"(3) by (metis converse_rtranclE)
  qed
qed

lemma modify_proxies:
  assumes "modify_account db name f = Inr db'" "vote_fields_kept f"
  shows "(\<And>a. acc_proxy (f a) = acc_proxy a) \<Longrightarrow> proxies db' = proxies db"
    "(\<And>a. acc_proxy (f a) = p) \<Longrightarrow> proxies db' \<subseteq> (if p = '''' then proxies db else insert (name, p) (proxies db))"
proof -
  note f = modify_vote_fields(6) [OF assms]
  show "proxies db' = proxies db" if "\<And>a. acc_proxy (f a) = acc_proxy a"
  proof -
    have "map_option acc_proxy (find_row acc_name k (accounts db')) = map_option acc_proxy (find_row acc_name k (accounts db))" for k
      by (simp add: f that option.map_comp comp_def)
    then show ?thesis unfolding proxies_alt by simp
  qed
  show "proxies db' \<subseteq> (if p = '''' then proxies db else insert (name, p) (proxies db))" if "\<And>a. acc_proxy (f a) = p"
    by (auto simp: proxies_alt f that split: if_splits)
qed

lemma negate_loop:
  "rfold (\<lambda>x acc. rbind (safe_neg x) (\<lambda>y. Inr (acc @ [y]))) xs acc = Inr ys \<Longrightarrow> ys = acc @ map uminus xs"
proof (induction xs arbitrary: acc)
  case (Cons x xs)
  then have "rfold (\<lambda>x acc. rbind (safe_neg x) (\<lambda>y. Inr (acc @ [y]))) xs (acc @ [- x]) = Inr ys"
    by (auto simp: res_simps dest!: safe_values)
  from Cons.IH [OF this] show ?case by simp
qed simp

lemma negated_votes_value:
  "negated_votes a = Inr delta \<Longrightarrow> delta = map uminus (amount (acc_vesting_shares a) # acc_proxied_vsf_votes a)"
  unfolding negated_votes_def using negate_loop by fastforce

text \<open>The weight of an account that is not at the end of the chain: what its proxy holds of it.\<close>

lemma weight_levels:
  assumes "length (acc_proxied_vsf_votes a) = 4"
  shows "sum_list (take 4 (amount (acc_vesting_shares a) # acc_proxied_vsf_votes a)) = weight a - acc_proxied_vsf_votes a ! 3"
    "sum_list (take 4 (map uminus (amount (acc_vesting_shares a) # acc_proxied_vsf_votes a))) = - (weight a - acc_proxied_vsf_votes a ! 3)"
proof -
  obtain b c d e where "acc_proxied_vsf_votes a = [b, c, d, e]"
    using assms by (auto simp: numeral_eq_Suc length_Suc_conv)
  then show "sum_list (take 4 (amount (acc_vesting_shares a) # acc_proxied_vsf_votes a)) = weight a - acc_proxied_vsf_votes a ! 3"
    "sum_list (take 4 (map uminus (amount (acc_vesting_shares a) # acc_proxied_vsf_votes a))) = - (weight a - acc_proxied_vsf_votes a ! 3)"
    by (simp_all add: weight_def eval_nat_numeral)
qed

text \<open>Taking an account's votes out, as the change of a proxy and a declined account start.\<close>

lemma withdraw_votes:
  assumes "adjust_proxied_witness_votes_array db name delta 0 = Inr db1" "negated_votes a = Inr delta"
    "find_row acc_name name (accounts db) = Some a" "votes_ok db" "voters_ok db"
  shows "votes_frame db db1" "voters_ok db1" "votes_gap db1 name (weight_of db1 name)"
    "vsf_total db1 = vsf_total db - (if acc_proxy a = '''' then 0 else weight a - acc_proxied_vsf_votes a ! 3)"
    "acc_proxy a = '''' \<or> acyclic (proxies db) \<Longrightarrow> find_row acc_name name (accounts db1) = Some a"
proof -
  note delta = negated_votes_value [OF assms(2)]
  have l4: "length (acc_proxied_vsf_votes a) = 4" by (rule voters_ok_levels [OF assms(5,3)])
  have len: "length delta = 5" using delta l4 by simp
  note eff = adjust_proxied_array_effect [OF assms(1,5,3) len, simplified]
  show f: "votes_frame db db1" and v: "voters_ok db1" using eff by auto
  show "vsf_total db1 = vsf_total db - (if acc_proxy a = '''' then 0 else weight a - acc_proxied_vsf_votes a ! 3)"
    using eff weight_levels(2) [OF l4] delta by simp
  have self: "adjust_witness_votes db name (- weight a) = Inr db1" if np: "acc_proxy a = ''''"
  proof -
    obtain t where t: "accumulate (rev delta) 0 = Inr t" "adjust_witness_votes db name t = Inr db1"
      using assms(1,3) np len unfolding adjust_proxied_witness_votes_array.simps [of db name]
      by (auto simp: res_simps freezone_MAX_PROXY_RECURSION_DEPTH_def freezone_PROXY_TO_SELF_ACCOUNT_def)
    have "sum_list (map uminus xs) = - sum_list xs" for xs :: "int list" by (induction xs) auto
    then have "t = - weight a" using accumulate_value [OF t(1)] delta by (simp add: sum_list_rev weight_def)
    then show ?thesis using t(2) by simp
  qed
  show "votes_gap db1 name (weight_of db1 name)"
  proof (cases "acc_proxy a = ''''")
    case True
    note e = adjust_witness_votes_effect [OF self [OF True]]
    have "weight_of db1 name = weight a" using assms(3) same_but_witnessesD(1) [OF e(1)] by (simp add: weight_of_def)
    then show ?thesis using e(2) [of "weight a"] assms(4) by simp
  next
    case False
    have nv: "\<forall>v \<in> set (witness_votes db). wv_account v \<noteq> name" using voter_without_proxy [OF assms(5,3) False] by blast
    then have "votes_ok db1" using eff votes_gap_without_votes [OF nv] assms(4) by blast
    then show ?thesis using votes_gap_without_votes [of db1 name] nv votes_frameD(5) [OF f] by simp
  qed
  show "find_row acc_name name (accounts db1) = Some a" if "acc_proxy a = '''' \<or> acyclic (proxies db)"
    using that
  proof
    assume "acc_proxy a = ''''"
    from same_but_witnessesD(1) [OF adjust_witness_votes_effect(1) [OF self [OF this]]] show ?thesis using assms(3) by simp
  next
    assume "acyclic (proxies db)"
    then show ?thesis
      using adjust_proxied_array_unreachable [OF assms(1,5) len] assms(3) by (simp add: acyclic_def)
  qed
qed

section \<open>The invariant of the votes\<close>

definition vote_state_ok :: "database \<Rightarrow> bool" where
  "vote_state_ok db \<longleftrightarrow> votes_ok db \<and> voters_ok db \<and> acyclic (proxies db)"

lemma witness_votes_frame [simp]:
  "surplus s (db\<lparr>witness_votes := vs\<rparr>) = surplus s db" "solvent (db\<lparr>witness_votes := vs\<rparr>) = solvent db"
  by (simp_all add: surplus_def held_def issued_def solvent_def)

lemma clear_votes_ok:
  assumes "clear_witness_votes db name = Inr db'" "voters_ok db" "votes_gap db name (weight_of db name)"
    "find_row acc_name name (accounts db) = Some a"
  obtains n where "votes_ok db'" "voters_ok db'" "\<forall>v \<in> set (witness_votes db'). wv_account v \<noteq> name"
    "find_row acc_name name (accounts db') = Some (a\<lparr>acc_witnesses_voted_for := n\<rparr>)" "vsf_total db' = vsf_total db"
    "proxies db' = proxies db" "\<forall>s. surplus s db' = surplus s db" "solvent db \<longrightarrow> solvent db'"
proof -
  let ?db1 = "db\<lparr>witness_votes := filter (\<lambda>v. wv_account v \<noteq> name) (witness_votes db)\<rparr>"
  from assms(1,4) obtain n where n: "modify_account ?db1 name (\<lambda>a. a\<lparr>acc_witnesses_voted_for := n\<rparr>) = Inr db'"
    by (rule clear_witness_votes_modify)
  note vf = votes_filtered [OF assms(2) refl, of name]
  note m = modify_vote_fields [OF n vote_fields_kept_simps(1)]
  show ?thesis
  proof (rule that [of n])
    show "votes_ok db'" using vf(2) [OF assms(3)] m(3) by simp
    show "voters_ok db'" using modify_voters_ok [OF n _ vf(1)] by simp
    show "\<forall>v \<in> set (witness_votes db'). wv_account v \<noteq> name" using m(4) by simp
    show "find_row acc_name name (accounts db') = Some (a\<lparr>acc_witnesses_voted_for := n\<rparr>)" using m(6) assms(4) by simp
    show "vsf_total db' = vsf_total db" using m(7) [of a] assms(4) by (simp add: vsf_def weight_def vsf_total_def)
    show "proxies db' = proxies db" using modify_proxies(1) [OF n] by (simp add: proxies_def)
    show "\<forall>s. surplus s db' = surplus s db" by (simp add: m(1))
    show "solvent db \<longrightarrow> solvent db'" using m(2) by simp
  qed
qed

lemma account_witness_vote_state:
  assumes "account_witness_vote_apply db o1 = Inr db'" "has_hardfork db 3" "vote_state_ok db"
  shows "vote_state_ok db' \<and> vsf_total db' = vsf_total db \<and> surplus s db' = surplus s db \<and> (solvent db \<longrightarrow> solvent db')"
proof -
  let ?n = "awv_account o1" and ?w = "awv_witness o1"
  have ok: "votes_ok db' \<and> voters_ok db'" using account_witness_vote_ok [OF assms(1,2)] assms(3) by (simp add: vote_state_ok_def)
  obtain vs db1 db2 x k where 1: "adjust_witness_vote (db\<lparr>witness_votes := vs\<rparr>) ?w x = Inr db1"
      "modify_account db1 ?n (\<lambda>a. a\<lparr>acc_witnesses_voted_for := acc_witnesses_voted_for a + k\<rparr>) = Inr db2"
      "db' = db2\<lparr>witness_votes := witness_votes db'\<rparr>"
  proof (cases "find_row wv_key (?n, ?w) (witness_votes db)")
    case None
    let ?db1 = "db\<lparr>witness_votes := witness_votes db @ [\<lparr>wv_witness = ?w, wv_account = ?n\<rparr>]\<rparr>"
    obtain x db2 where 1: "cast_vote ?db1 ?n ?w True x = Inr db2"
        "modify_account db2 ?n (\<lambda>a. a\<lparr>acc_witnesses_voted_for := acc_witnesses_voted_for a + 1\<rparr>) = Inr db'"
      using assms(1) None by (auto simp: account_witness_vote_apply_def Let_def rbind_eq_Inr fc_assert_eq_Inr get_account_eq_Inr)
    have "has_hardfork ?db1 3" using assms(2) by (simp add: has_hardfork_def)
    from cast_vote_hf3 [OF this 1(1)] 1(2) show ?thesis by (intro that [where x = x and ?db1.0 = db2 and k = 1 and ?db2.0 = db']) auto
  next
    case (Some v)
    obtain x db1 db2 where 1: "cast_vote db ?n ?w False x = Inr db1"
        "modify_account db1 ?n (\<lambda>a. a\<lparr>acc_witnesses_voted_for := acc_witnesses_voted_for a - 1\<rparr>) = Inr db2"
        "db' = db2\<lparr>witness_votes := remove_row wv_key (?n, ?w) (witness_votes db2)\<rparr>"
      using assms(1) Some by (auto simp: account_witness_vote_apply_def Let_def rbind_eq_Inr fc_assert_eq_Inr get_account_eq_Inr)
    from cast_vote_hf3 [OF assms(2) 1(1)] 1(2,3) show ?thesis
      by (intro that [where vs = "witness_votes db" and x = "- x" and ?db1.0 = db1 and k = "- 1" and ?db2.0 = db2]) auto
  qed
  have kept: "vote_fields_kept (\<lambda>a. a\<lparr>acc_witnesses_voted_for := acc_witnesses_voted_for a + k\<rparr>)"
    by (simp add: vote_fields_kept_def account_held_def account_solvent_def)
  note m = modify_vote_fields [OF 1(2) kept]
  note w = same_but_witnessesD [OF adjust_witness_vote_tables [OF 1(1)]]
  obtain a where a: "find_row acc_name ?n (accounts db1) = Some a"
    using 1(2) by (auto simp: modify_account_def res_simps)
  have "accounts db' = accounts db2" using arg_cong [OF 1(3), of accounts] by simp
  moreover have "proxies db2 = proxies db1" using modify_proxies(1) [OF 1(2) kept] by simp
  moreover have "vsf_total db2 = vsf_total db1" using m(7) [OF a] by (simp add: vsf_def weight_def)
  ultimately have v: "proxies db' = proxies db \<and> vsf_total db' = vsf_total db"
    using w(1) by (simp add: proxies_def vsf_total_def)
  have "surplus s db' = surplus s db2" "solvent db' = solvent db2"
    by (subst 1(3), rule witness_votes_frame)+
  then show ?thesis
    using ok v assms(3) m(1) [of s] m(2) w(3) [of s] w(4) by (simp add: vote_state_ok_def)
qed

end
