(* ===== verification/Vote_State.thy ===== *)
theory Vote_State
  imports Voting
begin

text \<open>
  The evaluators of votes and proxies keep the counters of the witnesses equal to the weights of the
  accounts that vote for them, the total of the votes, and the ledger.
\<close>

lemma vsf_of_proxy:
  "acc_proxy a \<noteq> '''' \<Longrightarrow> vsf a = acc_proxied_vsf_votes a ! 3" "acc_proxy a = '''' \<Longrightarrow> vsf a = weight a"
  by (simp_all add: vsf_def freezone_MAX_PROXY_RECURSION_DEPTH_def freezone_PROXY_TO_SELF_ACCOUNT_def)

lemma account_witness_proxy_state:
  assumes "account_witness_proxy_apply db o1 = Inr db'" "awp_account o1 \<noteq> awp_proxy o1" "vote_state_ok db"
  shows "vote_state_ok db' \<and> vsf_total db' = vsf_total db \<and> surplus s db' = surplus s db \<and> (solvent db \<longrightarrow> solvent db')"
proof -
  let ?n = "awp_account o1" and ?p = "awp_proxy o1"
  have ok: "votes_ok db" "voters_ok db" "acyclic (proxies db)" using assms(3) by (auto simp: vote_state_ok_def)
  obtain a delta db1 where 1: "find_row acc_name ?n (accounts db) = Some a" "acc_proxy a \<noteq> ?p" "negated_votes a = Inr delta"
      "adjust_proxied_witness_votes_array db ?n delta 0 = Inr db1"
    using assms(1) by (auto simp: account_witness_proxy_apply_def res_simps)
  have l4: "length (acc_proxied_vsf_votes a) = 4" by (rule voters_ok_levels [OF ok(2) 1(1)])
  note w = withdraw_votes [OF 1(4,3,1) ok(1,2)]
  note f1 = votes_frameD [OF w(1)]
  have a1: "find_row acc_name ?n (accounts db1) = Some a" using w(5) ok(3) by simp
  have p1: "acyclic (proxies db1)" using proxies_frame [OF w(1)] ok(3) by simp
  show ?thesis
  proof (cases "?p = ''''")
    case True
    then have m: "modify_account db1 ?n (\<lambda>a. a\<lparr>acc_proxy := ''''\<rparr>) = Inr db'"
      using assms(1) 1 by (simp add: account_witness_proxy_apply_def get_account_def get_row_def fc_assert_eq_Inr)
    note mf = modify_vote_fields [OF m vote_fields_kept_simps(2)]
    have nv: "\<forall>v \<in> set (witness_votes db1). wv_account v \<noteq> ?n"
      using voter_without_proxy [OF ok(2) 1(1)] 1(2) True f1(5) by auto
    have "votes_ok db'" using w(3) votes_gap_without_votes [OF nv] mf(3) by simp
    moreover have "voters_ok db'" using modify_voters_ok [OF m _ w(2)] nv by simp
    moreover have "proxies db' \<subseteq> proxies db1" using modify_proxies(2) [OF m, of "''''"] by simp
    moreover have "vsf_total db' = vsf_total db"
      using mf(7) [OF a1] w(4) 1(2) True by (simp add: vsf_of_proxy weight_def)
    ultimately show ?thesis
      using mf(1) [of s] mf(2) f1(1) [of s] f1(2) acyclic_subset [OF p1] by (simp add: vote_state_ok_def)
  next
    case False
    then obtain db2 db3 delta' where 2: "check_proxy_chain db1 (remdups [?n, ?p]) ?p = Inr ()" "clear_witness_votes db1 ?n = Inr db2"
        "modify_account db2 ?n (\<lambda>a. a\<lparr>acc_proxy := ?p\<rparr>) = Inr db3"
        "rfold (\<lambda>x acc. rbind (safe_neg x) (\<lambda>y. Inr (acc @ [y]))) delta [] = Inr delta'"
        "adjust_proxied_witness_votes_array db3 ?n delta' 0 = Inr db'"
      using assms(1) 1 by (auto simp: account_witness_proxy_apply_def get_account_def get_row_def rbind_eq_Inr fc_assert_eq_Inr split: if_splits)
    from 2(2) w(2,3) a1 obtain k where c: "votes_ok db2" "voters_ok db2" "\<forall>v \<in> set (witness_votes db2). wv_account v \<noteq> ?n"
        "find_row acc_name ?n (accounts db2) = Some (a\<lparr>acc_witnesses_voted_for := k\<rparr>)" "vsf_total db2 = vsf_total db1"
        "proxies db2 = proxies db1" "\<forall>s. surplus s db2 = surplus s db1" "solvent db1 \<longrightarrow> solvent db2"
      by (rule clear_votes_ok)
    note mf = modify_vote_fields [OF 2(3) vote_fields_kept_simps(2)]
    have v3: "voters_ok db3" using modify_voters_ok [OF 2(3) _ c(2)] c(3) by simp
    have a3: "find_row acc_name ?n (accounts db3) = Some (a\<lparr>acc_witnesses_voted_for := k, acc_proxy := ?p\<rparr>)"
      using mf(6) c(4) by simp
    have delta': "delta' = amount (acc_vesting_shares a) # acc_proxied_vsf_votes a"
      using negate_loop [OF 2(4)] negated_votes_value [OF 1(3)] by (simp add: comp_def)
    have "length delta' = 5" using l4 by (simp add: delta')
    note eff = adjust_proxied_array_effect [OF 2(5) v3 a3 this, simplified]
    have "votes_ok db'" using eff c(1,3) mf(3,4) votes_gap_without_votes [of db3 ?n] by simp
    moreover have "acyclic (proxies db')"
    proof -
      have "(?p, ?n) \<notin> (proxies db1)\<^sup>*" by (rule check_proxy_chain_sound [OF 2(1)]) (use assms(2) in auto)
      then have "acyclic (insert (?n, ?p) (proxies db2))" using p1 c(6) by (simp add: acyclic_insert)
      moreover have "proxies db' \<subseteq> insert (?n, ?p) (proxies db2)"
        using modify_proxies(2) [OF 2(3), of ?p] False proxies_frame [of db3 db'] eff by simp
      ultimately show ?thesis by (rule acyclic_subset)
    qed
    moreover have "vsf_total db' = vsf_total db"
      using eff False mf(7) [OF c(4)] c(5) w(4) weight_levels(1) [OF l4]
      by (cases "acc_proxy a = ''''") (simp_all add: vsf_of_proxy weight_def delta')
    moreover have "votes_frame db3 db'" using eff by simp
    ultimately show ?thesis
      using eff votes_frameD(1,2) [of db3 db'] mf(1) [of s] mf(2) c(7,8) f1(1) [of s] f1(2) by (simp add: vote_state_ok_def)
  qed
qed

lemma decline_voting_rights_of_state:
  assumes "decline_voting_rights_of r db = Inr db'" "vote_state_ok db"
  shows "vote_state_ok db' \<and> vsf_total db' = vsf_total db \<and> surplus s db' = surplus s db \<and> (solvent db \<longrightarrow> solvent db')"
proof -
  let ?n = "dv_account r"
  have ok: "votes_ok db" "voters_ok db" "acyclic (proxies db)" using assms(2) by (auto simp: vote_state_ok_def)
  obtain a delta db1 db2 db3 where 1: "find_row acc_name ?n (accounts db) = Some a" "negated_votes a = Inr delta"
      "adjust_proxied_witness_votes_array db ?n delta 0 = Inr db1" "clear_witness_votes db1 ?n = Inr db2"
      "modify_account db2 ?n (\<lambda>a. a\<lparr>acc_can_vote := False, acc_proxy := ''''\<rparr>) = Inr db3"
      "db' = db3\<lparr>decline_requests := remove_row dv_account ?n (decline_requests db3)\<rparr>"
    using assms(1) by (auto simp: decline_voting_rights_of_def freezone_PROXY_TO_SELF_ACCOUNT_def res_simps)
  note w = withdraw_votes [OF 1(3,2,1) ok(1,2)]
  note f1 = votes_frameD [OF w(1)]
  have a1: "find_row acc_name ?n (accounts db1) = Some a" using w(5) ok(3) by simp
  from 1(4) w(2,3) a1 obtain k where c: "votes_ok db2" "voters_ok db2" "\<forall>v \<in> set (witness_votes db2). wv_account v \<noteq> ?n"
      "find_row acc_name ?n (accounts db2) = Some (a\<lparr>acc_witnesses_voted_for := k\<rparr>)" "vsf_total db2 = vsf_total db1"
      "proxies db2 = proxies db1" "\<forall>s. surplus s db2 = surplus s db1" "solvent db1 \<longrightarrow> solvent db2"
    by (rule clear_votes_ok)
  note mf = modify_vote_fields [OF 1(5) vote_fields_kept_simps(3)]
  have v3: "voters_ok db3" using modify_voters_ok [OF 1(5) _ c(2)] c(3) by simp
  have "proxies db3 \<subseteq> proxies db2" using modify_proxies(2) [OF 1(5), of "''''"] by simp
  then have p3: "acyclic (proxies db3)" using c(6) proxies_frame [OF w(1)] ok(3) by (auto intro: acyclic_subset)
  have t: "vsf_total db3 = vsf_total db"
    using mf(7) [OF c(4)] c(5) w(4) by (cases "acc_proxy a = ''''") (simp_all add: vsf_of_proxy weight_def)
  have "weight_of db' = weight_of db3" by (simp add: 1(6) weight_of_def fun_eq_iff)
  then have "votes_ok db' = votes_ok db3" by (intro votes_ok_cong) (simp_all add: 1(6))
  moreover have "voters_ok db' = voters_ok db3" "proxies db' = proxies db3" "vsf_total db' = vsf_total db3"
    "surplus s db' = surplus s db3" "solvent db' = solvent db3"
    by (simp_all add: 1(6) voters_ok_def proxies_def vsf_total_def surplus_def held_def issued_def solvent_def)
  ultimately show ?thesis
    using v3 p3 t c(1) mf(1) [of s] mf(2,3) c(7,8) f1(1) [of s] f1(2) by (simp add: vote_state_ok_def)
qed

section \<open>Sequences of votes\<close>

lemma process_decline_voting_rights_state:
  assumes "process_decline_voting_rights db = Inr db'" "vote_state_ok db"
  shows "vote_state_ok db' \<and> vsf_total db' = vsf_total db \<and> surplus s db' = surplus s db \<and> (solvent db \<longrightarrow> solvent db')"
proof -
  have "(\<lambda>d. vote_state_ok d \<and> vsf_total d = vsf_total db \<and> surplus s d = surplus s db \<and> (solvent db \<longrightarrow> solvent d)) db'"
    by (rule rfold_invariant [OF assms(1) [unfolded process_decline_voting_rights_def]])
      (use assms(2) decline_voting_rights_of_state in auto)
  then show ?thesis by simp
qed

lemma decline_voting_rights_state:
  assumes "decline_voting_rights_apply db o1 = Inr db'"
  shows "vote_state_ok db' = vote_state_ok db \<and> vsf_total db' = vsf_total db \<and> surplus s db' = surplus s db \<and> solvent db' = solvent db"
proof -
  obtain rs where rs: "db' = db\<lparr>decline_requests := rs\<rparr>"
    using assms by (auto simp: decline_voting_rights_apply_def res_simps split: option.splits if_splits)
  have "weight_of db' = weight_of db" by (simp add: rs weight_of_def fun_eq_iff)
  then have "votes_ok db' = votes_ok db" by (intro votes_ok_cong) (simp_all add: rs)
  then show ?thesis
    by (simp add: rs vote_state_ok_def voters_ok_def proxies_def vsf_total_def surplus_def held_def issued_def solvent_def)
qed

text \<open>The hardforks never change, so the rules that hold in the first state hold in all of them.\<close>

lemma adjust_witness_votes_hardfork: "adjust_witness_votes db n d = Inr db' \<Longrightarrow> has_hardfork db' h = has_hardfork db h"
  using same_but_witnessesD(5) [OF adjust_witness_votes_effect(1)] by blast

lemma set_account_hardfork: "has_hardfork (set_account a db) h = has_hardfork db h"
  by (simp add: has_hardfork_def set_account_def)

lemma modify_account_hardfork: "modify_account db n f = Inr db' \<Longrightarrow> has_hardfork db' h = has_hardfork db h"
  by (auto simp: modify_account_def res_simps set_account_hardfork)

lemma array_hardfork:
  "adjust_proxied_witness_votes_array db n delta depth = Inr db' \<Longrightarrow> has_hardfork db' h = has_hardfork db h"
proof (induction db n delta depth rule: adjust_proxied_witness_votes_array.induct)
  case (1 db n delta depth)
  note eq = "1.prems" [unfolded adjust_proxied_witness_votes_array.simps [of db n]]
  obtain a where a: "find_row acc_name n (accounts db) = Some a" using eq by (auto simp: res_simps)
  show ?case
  proof (cases "acc_proxy a \<noteq> freezone_PROXY_TO_SELF_ACCOUNT \<and> \<not> freezone_MAX_PROXY_RECURSION_DEPTH \<le> depth")
    case True
    then obtain p p' where p: "get_account db (acc_proxy a) = Inr p" "add_proxied_votes delta depth p = Inr p'"
        "adjust_proxied_witness_votes_array (set_account p' db) (acc_proxy a) delta (depth + 1) = Inr db'"
      using eq a by (auto simp: get_account_def get_row_def rbind_eq_Inr)
    from "1.IH" [OF _ _ _ p(1,2) this(3)] True a show ?thesis by (simp add: get_account_def get_row_def set_account_hardfork)
  next
    case False
    then show ?thesis
      using eq a adjust_witness_votes_hardfork by (auto simp: get_account_def get_row_def rbind_eq_Inr split: if_splits)
  qed
qed

lemma clear_witness_votes_hardfork: "clear_witness_votes db n = Inr db' \<Longrightarrow> has_hardfork db' h = has_hardfork db h"
  by (auto simp: clear_witness_votes_def Let_def has_hardfork_def [of "db\<lparr>witness_votes := _\<rparr>"] has_hardfork_def [of db]
      dest!: modify_account_hardfork [where h = h] split: if_splits)

lemmas voting_hardfork = array_hardfork clear_witness_votes_hardfork modify_account_hardfork

lemma account_witness_proxy_hardfork: "account_witness_proxy_apply db o1 = Inr db' \<Longrightarrow> has_hardfork db' h = has_hardfork db h"
  by (auto simp: account_witness_proxy_apply_def rbind_eq_Inr fc_assert_eq_Inr split: if_splits
      dest!: voting_hardfork [where h = h])

lemma account_witness_vote_hardfork:
  assumes "account_witness_vote_apply db o1 = Inr db'" "has_hardfork db 3"
  shows "has_hardfork db' h = has_hardfork db h"
proof -
  have c: "has_hardfork d' h = has_hardfork d h" if "cast_vote d v w b x = Inr d'" "has_hardfork d 3" for d d' v w b x
    using same_but_witnessesD(5) [OF adjust_witness_vote_tables [OF cast_vote_hf3 [OF that(2,1)]]] .
  have e: "has_hardfork (d\<lparr>witness_votes := vs\<rparr>) i = has_hardfork d i" for d vs i by (simp add: has_hardfork_def)
  show ?thesis
    using assms by (auto simp: account_witness_vote_apply_def Let_def rbind_eq_Inr fc_assert_eq_Inr e
        split: option.splits dest!: c modify_account_hardfork [where h = h])
qed

lemma process_decline_hardfork:
  assumes "process_decline_voting_rights db = Inr db'"
  shows "has_hardfork db' h = has_hardfork db h"
proof -
  have e: "has_hardfork (d\<lparr>decline_requests := rs\<rparr>) h = has_hardfork d h" for d rs by (simp add: has_hardfork_def)
  have "(\<lambda>d. has_hardfork d h = has_hardfork db h) db'"
    by (rule rfold_invariant [OF assms [unfolded process_decline_voting_rights_def]])
      (auto simp: decline_voting_rights_of_def rbind_eq_Inr e dest!: voting_hardfork [where h = h])
  then show ?thesis .
qed

text \<open>
  The operations on votes, as steps: a vote, a change of proxy to another account, as the
  validation of the operation demands, a request to decline, and the hourly declines.
\<close>

inductive vote_step :: "database \<Rightarrow> database \<Rightarrow> bool" where
  vote: "account_witness_vote_apply db v = Inr db' \<Longrightarrow> vote_step db db'"
| set_proxy: "awp_account p \<noteq> awp_proxy p \<Longrightarrow> account_witness_proxy_apply db p = Inr db' \<Longrightarrow> vote_step db db'"
| request: "decline_voting_rights_apply db r = Inr db' \<Longrightarrow> vote_step db db'"
| decline: "process_decline_voting_rights db = Inr db' \<Longrightarrow> vote_step db db'"

lemma vote_step_keeps:
  assumes "vote_step db db'" "has_hardfork db 3" "vote_state_ok db"
  shows "has_hardfork db' 3 \<and> vote_state_ok db' \<and> vsf_total db' = vsf_total db \<and> surplus s db' = surplus s db \<and>
    (solvent db \<longrightarrow> solvent db')"
  using assms
proof cases
  case (vote v)
  then show ?thesis using account_witness_vote_state account_witness_vote_hardfork assms(2,3) by blast
next
  case (set_proxy p)
  then show ?thesis using account_witness_proxy_state account_witness_proxy_hardfork assms(2,3) by blast
next
  case (request r)
  then have "has_hardfork db' 3 = has_hardfork db 3"
    by (auto simp: decline_voting_rights_apply_def res_simps has_hardfork_def split: option.splits if_splits)
  with request show ?thesis using decline_voting_rights_state assms(2,3) by blast
next
  case decline
  then show ?thesis using process_decline_voting_rights_state process_decline_hardfork assms(2,3) by blast
qed

text \<open>
  C18: after any sequence of votes, changes of proxy and declined voting rights, every witness has
  exactly the sum of the weights of the accounts that vote for it, only accounts without a proxy
  vote, the proxies form no cycle, the total of the votes is the one at the start, and no asset was
  created or destroyed.
\<close>

theorem witness_votes_invariant:
  assumes "vote_step\<^sup>*\<^sup>* db db'" "has_hardfork db 3" "vote_state_ok db"
  shows "vote_state_ok db' \<and> vsf_total db' = vsf_total db \<and> surplus s db' = surplus s db \<and> (solvent db \<longrightarrow> solvent db')"
proof -
  have "has_hardfork db' 3 \<and> vote_state_ok db' \<and> vsf_total db' = vsf_total db \<and> surplus s db' = surplus s db \<and> (solvent db \<longrightarrow> solvent db')"
    using assms
  proof (induction rule: rtranclp_induct)
    case (step y z)
    then show ?case using vote_step_keeps [OF step.hyps(2), of s] by simp
  qed simp
  then show ?thesis by simp
qed

text \<open>
  C19: a proxy that would close a loop, directly or through other accounts, is refused, whatever the
  state of the votes.
\<close>

theorem proxy_loop_refused:
  assumes "awp_proxy o1 \<noteq> ''''" "awp_proxy o1 \<noteq> awp_account o1" "(awp_proxy o1, awp_account o1) \<in> (proxies db)\<^sup>*"
    "voters_ok db"
  shows "\<exists>e. account_witness_proxy_apply db o1 = Inl e"
proof (cases "account_witness_proxy_apply db o1")
  case (Inr db')
  let ?n = "awp_account o1" and ?p = "awp_proxy o1"
  obtain a delta db1 where 1: "find_row acc_name ?n (accounts db) = Some a" "negated_votes a = Inr delta"
      "adjust_proxied_witness_votes_array db ?n delta 0 = Inr db1" "check_proxy_chain db1 (remdups [?n, ?p]) ?p = Inr ()"
    using Inr assms(1) by (auto simp: account_witness_proxy_apply_def get_account_eq_Inr rbind_eq_Inr fc_assert_eq_Inr)
  have "length delta = 5"
    using negated_votes_value [OF 1(2)] voters_ok_levels [OF assms(4) 1(1)] by simp
  from adjust_proxied_array_effect [OF 1(3) assms(4) 1(1) this] have "proxies db1 = proxies db"
    using proxies_frame by simp
  then show ?thesis using check_proxy_chain_sound [OF 1(4), of ?n] assms(2,3) by simp
qed blast

section \<open>A sample state\<close>

definition sample_witness :: witness_object where
  "sample_witness = \<lparr>wit_owner = ''bob'', wit_created = 0, wit_url = '''', wit_total_missed = 0, wit_last_aslot = 0,
     wit_last_confirmed_block_num = 0, wit_pow_worker = 0, wit_signing_key = '''',
     wit_props = \<lparr>cp_account_creation_fee = mk_asset 0 freezone_SYMBOL, cp_maximum_block_size = 131072, cp_sbd_interest_rate = 1000,
       cp_account_subsidy_budget = 0, cp_account_subsidy_decay = 0\<rparr>,
     wit_sbd_exchange_rate = price_default, wit_last_sbd_exchange_update = 0, wit_votes = 7, wit_schedule = sched_elected,
     wit_virtual_last_update = 0, wit_virtual_position = 0, wit_virtual_scheduled_time = 0, wit_last_work = '''',
     wit_running_version = 0, wit_hardfork_version_vote = 0, wit_hardfork_time_vote = 0,
     wit_available_witness_account_subsidies = 0\<rparr>"

text \<open>Alice, with seven vesting shares, votes for Bob.\<close>

definition sample_votes_db :: database where
  "sample_votes_db = sample_db\<lparr>
     accounts := [(sample_account ''alice'' 5000)\<lparr>acc_vesting_shares := mk_asset 7 VESTS_SYMBOL\<rparr>, sample_account ''bob'' 10],
     witnesses := [sample_witness], witness_votes := [\<lparr>wv_witness = ''bob'', wv_account = ''alice''\<rparr>],
     dgpo := dynamic_global_property_object_default\<lparr>gp_total_vesting_shares := mk_asset 7 VESTS_SYMBOL\<rparr>\<rparr>"

lemma sample_account_votes [simp]:
  "acc_proxy (sample_account n x) = ''''" "acc_proxied_vsf_votes (sample_account n x) = [0, 0, 0, 0]"
  "acc_can_vote (sample_account n x)" "acc_vesting_shares (sample_account n x) = mk_asset 0 VESTS_SYMBOL"
  by (simp_all add: sample_account_def account_object_default_def)

lemma sample_votes_ok: "vote_state_ok sample_votes_db" "has_hardfork sample_votes_db 3"
proof -
  have "proxies sample_votes_db = {}"
    by (auto simp: proxies_def sample_votes_db_def split: if_splits)
  then have "acyclic (proxies sample_votes_db)" by (simp add: acyclic_def)
  moreover have "votes_ok sample_votes_db"
    by (simp add: votes_ok_def sample_votes_db_def sample_witness_def weight_of_def weight_def)
  moreover have "voters_ok sample_votes_db"
    by (simp add: voters_ok_def sample_votes_db_def wv_key_def freezone_MAX_PROXY_RECURSION_DEPTH_def)
  ultimately show "vote_state_ok sample_votes_db" by (simp add: vote_state_ok_def)
  show "has_hardfork sample_votes_db 3" by (simp add: has_hardfork_def sample_votes_db_def sample_db_def)
qed

definition sample_unvote :: account_witness_vote_operation where
  "sample_unvote = \<lparr>awv_account = ''alice'', awv_witness = ''bob'', awv_approve = False\<rparr>"

lemma adjust_witness_vote_succeeds:
  assumes "find_row wit_owner k (witnesses db) = Some w" "safe_add (wit_votes w) delta = Inr n"
    "n \<le> amount (gp_total_vesting_shares (dgpo db))" "i64_wrap (n + 1) \<noteq> 0"
  shows "\<exists>w'. adjust_witness_vote db k delta = Inr (set_witness w' db) \<and> wit_owner w' = k \<and> wit_votes w' = n"
proof -
  obtain db' where a: "adjust_witness_vote db k delta = Inr db'"
    using assms by (simp add: adjust_witness_vote_def get_witness_def get_row_def Let_def)
  moreover have "n = wit_votes w + delta" using assms(2) by (auto dest: safe_values)
  ultimately show ?thesis using assms(1) by (auto elim!: adjust_witness_vote_effect)
qed

lemma sample_unvote_succeeds:
  "\<exists>db'. account_witness_vote_apply sample_votes_db sample_unvote = Inr db' \<and> map wit_votes (witnesses db') = [0] \<and> witness_votes db' = []"
proof -
  let ?al = "(sample_account ''alice'' 5000)\<lparr>acc_vesting_shares := mk_asset 7 VESTS_SYMBOL\<rparr>"
  have r: "get_account sample_votes_db ''alice'' = Inr ?al" "find_row wit_owner ''bob'' (witnesses sample_votes_db) = Some sample_witness"
      "find_row wv_key (''alice'', ''bob'') (witness_votes sample_votes_db) = Some \<lparr>wv_witness = ''bob'', wv_account = ''alice''\<rparr>"
      "dgpo sample_votes_db = dynamic_global_property_object_default\<lparr>gp_total_vesting_shares := mk_asset 7 VESTS_SYMBOL\<rparr>"
    by (simp_all add: get_account_def get_row_def sample_votes_db_def sample_witness_def wv_key_def)
  obtain w where w: "adjust_witness_vote sample_votes_db ''bob'' (- 7) = Inr (set_witness w sample_votes_db)" "wit_owner w = ''bob''" "wit_votes w = 0"
    using adjust_witness_vote_succeeds [OF r(2), of "- 7" 0] r(4) by (auto simp: sample_witness_def safe_add_def i64_wrap_def)
  have h: "has_hardfork sample_votes_db 2" "has_hardfork sample_votes_db 3" by (simp_all add: has_hardfork_def sample_votes_db_def sample_db_def)
  have "cast_vote sample_votes_db ''alice'' ''bob'' False 7 = Inr (set_witness w sample_votes_db)"
    using w(1) h by (simp add: cast_vote_def safe_neg_def)
  moreover have "witness_vote_weight ?al = Inr 7" by (simp add: witness_vote_weight_def accumulate_def safe_add_def)
  moreover have "get_account (set_witness w sample_votes_db) ''alice'' = Inr ?al"
    using r(1) by (simp add: get_account_def)
  moreover define a where "a = ?al\<lparr>acc_witnesses_voted_for := acc_witnesses_voted_for ?al - 1\<rparr>"
  ultimately have "account_witness_vote_apply sample_votes_db sample_unvote =
      Inr ((set_account a (set_witness w sample_votes_db))\<lparr>witness_votes :=
        remove_row wv_key (''alice'', ''bob'') (witness_votes sample_votes_db)\<rparr>)"
    using r by (simp add: account_witness_vote_apply_def sample_unvote_def get_witness_def get_row_def modify_account_def set_account_def)
  moreover have "map wit_votes (witnesses (set_account a (set_witness w sample_votes_db))) = [0]"
    using w(2,3) by (simp add: set_witness_def set_account_def sample_votes_db_def sample_witness_def)
  moreover have "remove_row wv_key (''alice'', ''bob'') (witness_votes sample_votes_db) = []"
    by (simp add: sample_votes_db_def wv_key_def)
  ultimately show ?thesis by simp
qed

theorem witness_votes_invariant_witness:
  "\<exists>db'. vote_step sample_votes_db db' \<and> vote_state_ok db' \<and> vsf_total db' = 7 \<and> map wit_votes (witnesses db') = [0]"
proof -
  from sample_unvote_succeeds obtain db' where 1: "account_witness_vote_apply sample_votes_db sample_unvote = Inr db'"
      "map wit_votes (witnesses db') = [0]"
    by (elim exE conjE)
  have "vsf_total sample_votes_db = 7"
    by (simp add: vsf_total_def sample_votes_db_def vsf_of_proxy weight_def)
  moreover have s: "vote_step sample_votes_db db'" using 1(1) by (rule vote_step.vote)
  moreover note witness_votes_invariant [OF r_into_rtranclp [of vote_step, OF s] sample_votes_ok(2,1), of VESTS_SYMBOL]
  ultimately show ?thesis using 1(2) by (intro exI [of _ db']) simp
qed

definition sample_proxy_db :: database where
  "sample_proxy_db = sample_db\<lparr>accounts := [sample_account ''alice'' 5000, (sample_account ''bob'' 10)\<lparr>acc_proxy := ''alice''\<rparr>]\<rparr>"

theorem proxy_loop_refused_witness:
  "\<exists>e. account_witness_proxy_apply sample_proxy_db \<lparr>awp_account = ''alice'', awp_proxy = ''bob''\<rparr> = Inl e"
proof (rule proxy_loop_refused)
  have "(''bob'', ''alice'') \<in> proxies sample_proxy_db" by (simp add: proxies_def sample_proxy_db_def)
  then show "(awp_proxy \<lparr>awp_account = ''alice'', awp_proxy = ''bob''\<rparr>, awp_account \<lparr>awp_account = ''alice'', awp_proxy = ''bob''\<rparr>)
      \<in> (proxies sample_proxy_db)\<^sup>*" by auto
  show "voters_ok sample_proxy_db"
    by (simp add: voters_ok_def sample_proxy_db_def sample_db_def empty_database_def freezone_MAX_PROXY_RECURSION_DEPTH_def)
qed simp_all

end
