(* ===== verification/Vote_Frame.thy ===== *)
theory Vote_Frame
  imports Vote_State
begin

text \<open>
  How the votes and the balances interact: a change of vesting shares that is passed on to the proxies
  keeps the counters right, and no balance function for another symbol touches the votes.
\<close>

section \<open>A change of shares reaches the counters\<close>

lemma voters_ok_same_votes:
  assumes "voters_ok db" "find_row acc_name (acc_name a') (accounts db) = Some a" "acc_proxy a' = acc_proxy a"
    "acc_proxied_vsf_votes a' = acc_proxied_vsf_votes a"
  shows "voters_ok (set_account a' db)" "proxies (set_account a' db) = proxies db"
proof -
  have f: "find_row acc_name k (accounts (set_account a' db)) = (if k = acc_name a' then Some a' else find_row acc_name k (accounts db))" for k
    using assms(2) by (simp add: set_account_def table_simps)
  have "length (acc_proxied_vsf_votes b) = freezone_MAX_PROXY_RECURSION_DEPTH" if "b \<in> set (accounts (set_account a' db))" for b
    using that assms(1,4) find_row_in_set [OF assms(2)] set_update_row [of acc_name "acc_name a'" a' "accounts db"]
    by (auto simp: voters_ok_def set_account_def)
  then show "voters_ok (set_account a' db)"
    using assms(1,2,3) unfolding voters_ok_def f by (auto simp: set_account_def)
  have "map_option acc_proxy (find_row acc_name k (accounts (set_account a' db))) = map_option acc_proxy (find_row acc_name k (accounts db))" for k
    using assms(2,3) by (simp add: f)
  then show "proxies (set_account a' db) = proxies db" by (simp add: proxies_alt)
qed

lemma votes_tables_cong:
  assumes "accounts db1 = accounts db" "witnesses db1 = witnesses db" "witness_votes db1 = witness_votes db"
  shows "votes_gap db1 n d = votes_gap db n d" "voters_ok db1 = voters_ok db" "proxies db1 = proxies db" "vsf_total db1 = vsf_total db"
    "votes_ok db1 = votes_ok db" "vote_state_ok db1 = vote_state_ok db"
proof -
  have w: "weight_of db1 = weight_of db" by (simp add: weight_of_def fun_eq_iff assms(1))
  show v: "votes_gap db1 n d = votes_gap db n d" "votes_ok db1 = votes_ok db" using votes_ok_cong [OF assms(2,3) w] by auto
  show o: "voters_ok db1 = voters_ok db" "proxies db1 = proxies db" "vsf_total db1 = vsf_total db"
    by (simp_all add: voters_ok_def proxies_def vsf_total_def assms)
  show "vote_state_ok db1 = vote_state_ok db" using v(2) o by (simp add: vote_state_ok_def)
qed

text \<open>
  The shares of an account change by an amount and the function on proxies is told that amount: the
  counters stay right, and the total of the votes changes by the amount.
\<close>

lemma shares_change_votes:
  assumes "vote_state_ok db" "find_row acc_name (acc_name a') (accounts db) = Some a" "acc_proxy a' = acc_proxy a"
    "acc_proxied_vsf_votes a' = acc_proxied_vsf_votes a" "amount (acc_vesting_shares a') = amount (acc_vesting_shares a) + d"
    "accounts db1 = accounts (set_account a' db)" "witnesses db1 = witnesses db" "witness_votes db1 = witness_votes db"
    "adjust_proxied_witness_votes db1 (acc_name a') d 0 = Inr db'"
  shows "vote_state_ok db' \<and> vsf_total db' = vsf_total db + d \<and> votes_frame db1 db'"
proof -
  let ?db0 = "set_account a' db"
  have ok: "votes_ok db" "voters_ok db" "acyclic (proxies db)" using assms(1) by (auto simp: vote_state_ok_def)
  note c = votes_tables_cong [of db1 ?db0, OF assms(6)]
  have t: "witnesses db1 = witnesses ?db0" "witness_votes db1 = witness_votes ?db0" using assms(7,8) by (simp_all add: set_account_def)
  note sv = voters_ok_same_votes [OF ok(2) assms(2-4)]
  have w: "weight a' - weight a = d" using assms(4,5) by (simp add: weight_def)
  have g: "votes_gap db1 (acc_name a') d" using votes_gap_set_account [OF assms(2) ok(1)] w c(1) [OF t] by simp
  have v: "voters_ok db1" using sv(1) c(2) [OF t] by simp
  have f: "find_row acc_name (acc_name a') (accounts db1) = Some a'"
    using assms(2) by (simp add: assms(6) set_account_def table_simps)
  note e = adjust_proxied_effect [OF assms(9) v f]
  have "vsf a' - vsf a + (if acc_proxy a' = '''' then 0 else d) = d"
    using w assms(3,4) by (auto simp: vsf_of_proxy)
  then have "vsf_total db' = vsf_total db + d"
    using e c(4) [OF t] vsf_total_set_account [OF assms(2)] by auto
  moreover have "proxies db' = proxies db" using e proxies_frame [of db1 db'] c(3) [OF t] sv(2) by simp
  ultimately show ?thesis using e g ok(3) by (simp add: vote_state_ok_def)
qed

lemma adjust_proxied_frame: "adjust_proxied_witness_votes db name d depth = Inr db' \<Longrightarrow> votes_frame db db'"
proof (induction db name d depth rule: adjust_proxied_witness_votes.induct)
  case (1 db name d depth)
  note eq = "1.prems" [unfolded adjust_proxied_witness_votes.simps [of db name]]
  obtain a where a: "get_account db name = Inr a" using eq by (auto simp: rbind_eq_Inr)
  show ?case
  proof (cases "acc_proxy a \<noteq> freezone_PROXY_TO_SELF_ACCOUNT \<and> \<not> freezone_MAX_PROXY_RECURSION_DEPTH \<le> depth")
    case True
    then obtain p x where p: "get_account db (acc_proxy a) = Inr p" "safe_add (acc_proxied_vsf_votes p ! depth) d = Inr x"
        "adjust_proxied_witness_votes (set_account (p\<lparr>acc_proxied_vsf_votes := (acc_proxied_vsf_votes p)[depth := x]\<rparr>) db)
          (acc_proxy a) d (depth + 1) = Inr db'"
      using eq a by (auto simp: rbind_eq_Inr)
    have "find_row acc_name (acc_name p) (accounts db) = Some p" using p(1) find_row_key by (fastforce simp: res_simps)
    then have "votes_frame db (set_account (p\<lparr>acc_proxied_vsf_votes := (acc_proxied_vsf_votes p)[depth := x]\<rparr>) db)"
      by (intro votes_frame_set_account) auto
    moreover have "votes_frame (set_account (p\<lparr>acc_proxied_vsf_votes := (acc_proxied_vsf_votes p)[depth := x]\<rparr>) db) db'"
      using "1.IH" [OF a _ _ p] True by simp
    ultimately show ?thesis by (rule votes_frame_trans)
  next
    case False
    then show ?thesis
      using eq a by (auto simp: rbind_eq_Inr split: if_splits intro: same_but_witnesses_frame adjust_witness_votes_effect(1))
  qed
qed

text \<open>The part of the votes that no pool accounts for; \<^verbatim>\<open>validate_invariants\<close> asks it to be zero.\<close>

definition vsf_surplus :: "database \<Rightarrow> int" where
  "vsf_surplus db = vsf_total db - amount (gp_total_vesting_shares (dgpo db))"

definition pool_typed :: "dynamic_global_property_object \<Rightarrow> bool" where
  "pool_typed g \<longleftrightarrow> symbol (gp_total_vesting_fund_freezone g) = freezone_SYMBOL \<and> symbol (gp_total_vesting_shares g) = VESTS_SYMBOL"



lemma update_row_twice: "update_row key k r (update_row key k r' rows) = update_row key k r rows" if "key r' = k"
  using that by (induction rows) auto

lemma set_account_twice: "acc_name a = acc_name b \<Longrightarrow> set_account a (set_account b db) = set_account a db"
  by (simp add: set_account_def update_row_twice)

section \<open>Balance functions leave the votes alone\<close>

text \<open>What the counters of votes depend on.\<close>

definition vote_view :: "account_object \<Rightarrow> account_name_type \<times> account_name_type \<times> share_type list \<times> asset" where
  "vote_view a = (acc_name a, acc_proxy a, acc_proxied_vsf_votes a, acc_vesting_shares a)"

definition votes_untouched :: "database \<Rightarrow> database \<Rightarrow> bool" where
  "votes_untouched db db' \<longleftrightarrow>
     map vote_view (accounts db') = map vote_view (accounts db) \<and> witnesses db' = witnesses db \<and> witness_votes db' = witness_votes db \<and>
     gp_total_vesting_shares (dgpo db') = gp_total_vesting_shares (dgpo db) \<and>
     symbol (gp_total_vesting_fund_freezone (dgpo db')) = symbol (gp_total_vesting_fund_freezone (dgpo db))"

lemma votes_untouched_refl [simp]: "votes_untouched db db"
  by (simp add: votes_untouched_def)

lemma votes_untouched_trans: "votes_untouched db db1 \<Longrightarrow> votes_untouched db1 db2 \<Longrightarrow> votes_untouched db db2"
  by (simp add: votes_untouched_def)

lemma map_view_find:
  "map vote_view as' = map vote_view as \<Longrightarrow>
   map_option vote_view (find_row acc_name n as') = map_option vote_view (find_row acc_name n as)"
proof (induction as' arbitrary: as)
  case (Cons a' as')
  then obtain a bs where as: "as = a # bs" "vote_view a' = vote_view a" "map vote_view as' = map vote_view bs" by (cases as) auto
  then have "acc_name a' = acc_name a" by (simp add: vote_view_def)
  then show ?case using Cons.IH [OF as(3)] as by simp
qed simp

lemma votes_untouchedD:
  assumes "votes_untouched db db'"
  shows "vote_state_ok db' = vote_state_ok db" "vsf_total db' = vsf_total db" "vsf_surplus db' = vsf_surplus db"
    "pool_typed (dgpo db') = pool_typed (dgpo db)"
proof -
  have m: "map vote_view (accounts db') = map vote_view (accounts db)" "witnesses db' = witnesses db" "witness_votes db' = witness_votes db"
    using assms by (auto simp: votes_untouched_def)
  note f = map_view_find [OF m(1)]
  have view: "map_option g (find_row acc_name n (accounts db')) = map_option g (find_row acc_name n (accounts db))"
    if "\<And>a b. vote_view a = vote_view b \<Longrightarrow> g a = g b" for g :: "account_object \<Rightarrow> 'b" and n
    using f [of n] by (cases "find_row acc_name n (accounts db')"; cases "find_row acc_name n (accounts db)") (auto intro: that)
  have wt: "vote_view a = vote_view b \<Longrightarrow> weight a = weight b" "vote_view a = vote_view b \<Longrightarrow> vsf a = vsf b" for a b
    by (auto simp: vote_view_def weight_def vsf_def)
  have w: "weight_of db' n = weight_of db n" for n
  proof -
    have "map_option weight (find_row acc_name n (accounts db')) = map_option weight (find_row acc_name n (accounts db))"
      by (rule view) (rule wt)
    then show ?thesis
      unfolding weight_of_def by (cases "find_row acc_name n (accounts db')"; cases "find_row acc_name n (accounts db)") auto
  qed
  have v: "votes_ok db' = votes_ok db" using votes_ok_cong(2) [OF m(2,3)] w by (simp add: fun_eq_iff)
  have px: "map_option acc_proxy (find_row acc_name n (accounts db')) = map_option acc_proxy (find_row acc_name n (accounts db))" for n
    by (rule view) (simp add: vote_view_def)
  then have p: "proxies db' = proxies db" by (simp add: proxies_alt)
  have ml: "map (\<lambda>a. length (acc_proxied_vsf_votes a)) (accounts db') = map (\<lambda>a. length (acc_proxied_vsf_votes a)) (accounts db)"
    using arg_cong [OF m(1), of "map (\<lambda>(_, _, vs, _). length vs)"] by (simp add: comp_def vote_view_def)
  have i: "(\<lambda>a. length (acc_proxied_vsf_votes a)) ` set (accounts db') = (\<lambda>a. length (acc_proxied_vsf_votes a)) ` set (accounts db)"
    using arg_cong [OF ml, of set] by simp
  have l: "(\<forall>a \<in> set (accounts db'). length (acc_proxied_vsf_votes a) = n) = (\<forall>a \<in> set (accounts db). length (acc_proxied_vsf_votes a) = n)" for n
    using ball_simps(9) [of "\<lambda>a. length (acc_proxied_vsf_votes a)" "set (accounts db')" "\<lambda>x. x = n"]
      ball_simps(9) [of "\<lambda>a. length (acc_proxied_vsf_votes a)" "set (accounts db)" "\<lambda>x. x = n"] i by simp
  have "(\<exists>a. find_row acc_name n (accounts db') = Some a \<and> acc_proxy a = '''') = (\<exists>a. find_row acc_name n (accounts db) = Some a \<and> acc_proxy a = '''')" for n
    using px [of n] by (cases "find_row acc_name n (accounts db')"; cases "find_row acc_name n (accounts db)") auto
  then have "voters_ok db' = voters_ok db" unfolding voters_ok_def l m(3) by simp
  then show "vote_state_ok db' = vote_state_ok db" using v p by (simp add: vote_state_ok_def)
  have vs: "vsf = (\<lambda>(n, p, vs, v). if p = freezone_PROXY_TO_SELF_ACCOUNT then amount v + sum_list vs
      else vs ! (freezone_MAX_PROXY_RECURSION_DEPTH - 1)) \<circ> vote_view"
    by (simp add: fun_eq_iff vsf_def weight_def vote_view_def)
  have "map vsf (accounts db') = map vsf (accounts db)" unfolding vs map_map [symmetric] m(1) ..
  then show t: "vsf_total db' = vsf_total db" by (simp add: vsf_total_def sum_rows_def)
  show "vsf_surplus db' = vsf_surplus db" "pool_typed (dgpo db') = pool_typed (dgpo db)"
    using assms t by (simp_all add: vsf_surplus_def votes_untouched_def pool_typed_def)
qed

lemma set_account_untouched:
  assumes "find_row acc_name (acc_name a) (accounts db) = Some a0" "vote_view a = vote_view a0" "votes_untouched db0 db"
  shows "votes_untouched db0 (set_account a db)"
proof -
  have "map vote_view (update_row acc_name (acc_name a) a as) = map vote_view as" if "find_row acc_name (acc_name a) as = Some a0" for as
    using that assms(2) by (induction as) (auto split: if_splits)
  then show ?thesis using assms(1,3) by (simp add: votes_untouched_def set_account_def)
qed

lemma untouched_fields [simp]:
  "votes_untouched db (d\<lparr>vops := v\<rparr>) = votes_untouched db d" "votes_untouched db (d\<lparr>regular_balances := bs\<rparr>) = votes_untouched db d"
  "votes_untouched db (d\<lparr>rewards_balances := rs\<rparr>) = votes_untouched db d" "votes_untouched db (set_token t d) = votes_untouched db d"
  "votes_untouched db (push_virtual_operation d x) = votes_untouched db d"
  by (simp_all add: votes_untouched_def set_token_def push_virtual_operation_def)

lemma issue_interest_untouched: "issue_interest db x = Inr db' \<Longrightarrow> votes_untouched db db'"
  by (auto simp: issue_interest_def Let_def res_simps votes_untouched_def)

lemma push_untouched: "votes_untouched (push_virtual_operation db v) db' = votes_untouched db db'"
  by (simp add: votes_untouched_def push_virtual_operation_def)

lemma accrue_interest_untouched: "accrue_interest db name bal secs lu lp = Inr (r, db') \<Longrightarrow> votes_untouched db db'"
  by (auto simp: accrue_interest_def Let_def res_simps push_untouched split: if_splits dest: issue_interest_untouched)

lemma accrue_interest_votes:
  "accrue_interest db name bal secs lu lp = Inr (r, db') \<Longrightarrow> votes_untouched db db' \<and> accounts db' = accounts db"
  by (cases r) (simp add: accrue_interest_untouched accrue_interest_accounts)

lemma modify_balance_untouched:
  assumes "modify_balance db name x cb = Inr db'" "symbol x \<noteq> VESTS_SYMBOL"
  shows "votes_untouched db db'"
proof -
  obtain a where a: "find_row acc_name name (accounts db) = Some a" using assms by (auto simp: modify_balance_def res_simps)
  note n [simp] = find_row_key [OF a]
  show ?thesis
    using assms a by (auto simp: modify_balance_def res_simps vote_view_def split: if_splits
        dest!: accrue_interest_votes intro!: set_account_untouched [where ?a0.0 = a])
qed

lemma adjust_SST_untouched:
  "adjust_SST_regular db name x ca = Inr db' \<Longrightarrow> votes_untouched db db'"
  "adjust_SST_rewards db name x y ca = Inr db' \<Longrightarrow> votes_untouched db db'"
  by (auto simp: adjust_SST_regular_def adjust_SST_rewards_def Let_def res_simps split: if_splits option.splits)

lemma adjust_supply_untouched: "adjust_supply db x av = Inr db' \<Longrightarrow> votes_untouched db db'"
  by (auto simp: adjust_supply_def Let_def res_simps votes_untouched_def set_token_def split: if_splits dest!: asset_add_value)

lemma adjust_balance_untouched:
  "adjust_balance db name x = Inr db' \<Longrightarrow> symbol x \<noteq> VESTS_SYMBOL \<Longrightarrow> votes_untouched db db'"
  "adjust_balance_of db name x = Inr db' \<Longrightarrow> symbol x \<noteq> VESTS_SYMBOL \<Longrightarrow> votes_untouched db db'"
  by (auto simp: adjust_balance_def adjust_balance_of_def rbind_eq_Inr split: if_splits
      dest: adjust_SST_untouched adjust_supply_untouched modify_balance_untouched)

lemma adjust_savings_balance_untouched:
  assumes "adjust_savings_balance db name x = Inr db'"
  shows "votes_untouched db db'"
proof -
  obtain a where a: "find_row acc_name name (accounts db) = Some a" using assms by (auto simp: adjust_savings_balance_def Let_def res_simps)
  note n [simp] = find_row_key [OF a]
  show ?thesis
    using assms a by (auto simp: adjust_savings_balance_def Let_def res_simps vote_view_def split: if_splits
        dest!: accrue_interest_votes intro!: set_account_untouched [where ?a0.0 = a])
qed

lemma adjust_reward_balance_untouched:
  assumes "adjust_reward_balance db name x y = Inr db'"
  shows "votes_untouched db db'"
proof (cases "space (symbol x) = SST_nai_space")
  case True
  then show ?thesis using assms
    by (auto simp: adjust_reward_balance_def rbind_eq_Inr fc_assert_eq_Inr split: if_splits dest: adjust_supply_untouched adjust_SST_untouched)
next
  case False
  then have m: "modify_reward_balance db name x y (has_hardfork db 20) = Inr db'" using assms by (auto simp: adjust_reward_balance_def fc_assert_eq_Inr)
  obtain a where a: "find_row acc_name name (accounts db) = Some a" using m by (auto simp: modify_reward_balance_def res_simps)
  note n [simp] = find_row_key [OF a]
  show ?thesis
    using m a by (auto simp: modify_reward_balance_def res_simps vote_view_def split: if_splits intro!: set_account_untouched [where ?a0.0 = a])
qed

end
