(* ===== verification/Manabar.thy ===== *)
theory Manabar
  imports Objects
begin

text \<open>
  Mana bars: \<^verbatim>\<open>libraries/chain/include/steem/chain/util/manabar.hpp\<close>, the regenerating allowance
  that limits the votes of an account.
\<close>

section \<open>Model\<close>

record manabar_params =
  max_mana :: int
  regen_time :: "32 word"

definition manabar_params_validate :: "manabar_params \<Rightarrow> 'a result \<Rightarrow> 'a result" where
  "manabar_params_validate p k = fc_assert (max_mana p \<ge> 0) '''' k"

definition to_int64 :: "128 word \<Rightarrow> int result" where
  "to_int64 x = fc_assert (u128_hi x = 0) '''' (
     fc_assert ((ucast x :: 64 word) \<le> word_of_int i64_max) '''' (Inr (i64_of_u64 (ucast x))))"

text \<open>The template argument \<^verbatim>\<open>skip_cap_regen\<close> is the first argument.\<close>

definition regenerate_mana :: "bool \<Rightarrow> manabar_params \<Rightarrow> 32 word \<Rightarrow> manabar \<Rightarrow> manabar result" where
  "regenerate_mana skip_cap_regen params now m =
     manabar_params_validate params (
     fc_assert (now \<ge> last_update_time m) '''' (
     let dt0 = now - last_update_time m in
     if current_mana m \<ge> max_mana params then Inr (m\<lparr>current_mana := max_mana params, last_update_time := now\<rparr>)
     else
       let dt = (if \<not> skip_cap_regen then (if dt0 > regen_time params then regen_time params else dt0) else dt0);
           max_mana_dt = ucast (word_of_int (if max_mana params \<ge> 0 then max_mana params else 0) :: 64 word) * ucast dt :: 128 word in
       throw_unless (regen_time params \<noteq> 0) Divide_by_zero_exception (
       rbind (to_uint64 (max_mana_dt div ucast (regen_time params))) (\<lambda>u_regen.
       fc_assert (u_regen \<le> word_of_int i64_max) '''' (
       let new_current_mana = signed_sat_add (current_mana m) (i64_of_u64 u_regen) in
       Inr (m\<lparr>current_mana := (if new_current_mana > max_mana params then max_mana params else new_current_mana),
              last_update_time := now\<rparr>))))))"

definition has_mana :: "int \<Rightarrow> manabar \<Rightarrow> bool" where
  "has_mana mana_needed m \<longleftrightarrow> mana_needed \<le> 0 \<or> current_mana m \<ge> mana_needed"

definition has_mana_u64 :: "64 word \<Rightarrow> manabar \<Rightarrow> bool result" where
  "has_mana_u64 mana_needed m =
     fc_assert (mana_needed \<le> word_of_int i64_max) '''' (Inr (has_mana (i64_of_u64 mana_needed) m))"

definition use_mana :: "int \<Rightarrow> int \<Rightarrow> manabar \<Rightarrow> manabar" where
  "use_mana mana_used min_mana m =
     (let c = signed_sat_sub (current_mana m) mana_used in
      m\<lparr>current_mana := (if c < min_mana then min_mana else c)\<rparr>)"

definition use_mana_u64 :: "64 word \<Rightarrow> int \<Rightarrow> manabar \<Rightarrow> manabar result" where
  "use_mana_u64 mana_used min_mana m =
     fc_assert (mana_used \<le> word_of_int i64_max) '''' (Inr (use_mana (i64_of_u64 mana_used) min_mana m))"

text \<open>
  \<^verbatim>\<open>get_effective_vesting_shares\<close> and \<^verbatim>\<open>update_manabar\<close> are templates over the account type, which is
  \<^verbatim>\<open>account_object\<close> for the native shares and \<^verbatim>\<open>account_regular_balance_object\<close> for the shares of a
  token.  \<open>shareholder\<close> has the members of the two types that the templates use.
\<close>

record shareholder =
  sh_vesting_shares :: asset
  sh_delegated_vesting_shares :: asset
  sh_received_vesting_shares :: asset
  sh_vesting_withdraw_rate :: asset
  sh_next_vesting_withdrawal :: time_point_sec
  sh_withdrawn :: share_type
  sh_to_withdraw :: share_type
  sh_voting_manabar :: manabar
  sh_downvote_manabar :: manabar

definition account_shares :: "account_object \<Rightarrow> shareholder" where
  "account_shares a = \<lparr>sh_vesting_shares = acc_vesting_shares a, sh_delegated_vesting_shares = acc_delegated_vesting_shares a,
     sh_received_vesting_shares = acc_received_vesting_shares a, sh_vesting_withdraw_rate = acc_vesting_withdraw_rate a,
     sh_next_vesting_withdrawal = acc_next_vesting_withdrawal a, sh_withdrawn = acc_withdrawn a,
     sh_to_withdraw = acc_to_withdraw a, sh_voting_manabar = acc_voting_manabar a, sh_downvote_manabar = acc_downvote_manabar a\<rparr>"

definition put_account_shares :: "shareholder \<Rightarrow> account_object \<Rightarrow> account_object" where
  "put_account_shares h a = a\<lparr>acc_vesting_shares := sh_vesting_shares h, acc_delegated_vesting_shares := sh_delegated_vesting_shares h,
     acc_received_vesting_shares := sh_received_vesting_shares h, acc_vesting_withdraw_rate := sh_vesting_withdraw_rate h,
     acc_next_vesting_withdrawal := sh_next_vesting_withdrawal h, acc_withdrawn := sh_withdrawn h,
     acc_to_withdraw := sh_to_withdraw h, acc_voting_manabar := sh_voting_manabar h, acc_downvote_manabar := sh_downvote_manabar h\<rparr>"

definition balance_shares :: "account_regular_balance_object \<Rightarrow> shareholder" where
  "balance_shares b = \<lparr>sh_vesting_shares = arb_vesting_shares b, sh_delegated_vesting_shares = arb_delegated_vesting_shares b,
     sh_received_vesting_shares = arb_received_vesting_shares b, sh_vesting_withdraw_rate = arb_vesting_withdraw_rate b,
     sh_next_vesting_withdrawal = arb_next_vesting_withdrawal b, sh_withdrawn = arb_withdrawn b,
     sh_to_withdraw = arb_to_withdraw b, sh_voting_manabar = arb_voting_manabar b, sh_downvote_manabar = arb_downvote_manabar b\<rparr>"

definition put_balance_shares :: "shareholder \<Rightarrow> account_regular_balance_object \<Rightarrow> account_regular_balance_object" where
  "put_balance_shares h b = b\<lparr>arb_vesting_shares := sh_vesting_shares h, arb_delegated_vesting_shares := sh_delegated_vesting_shares h,
     arb_received_vesting_shares := sh_received_vesting_shares h, arb_vesting_withdraw_rate := sh_vesting_withdraw_rate h,
     arb_next_vesting_withdrawal := sh_next_vesting_withdrawal h, arb_withdrawn := sh_withdrawn h,
     arb_to_withdraw := sh_to_withdraw h, arb_voting_manabar := sh_voting_manabar h, arb_downvote_manabar := sh_downvote_manabar h\<rparr>"

definition get_effective_vesting_shares :: "shareholder \<Rightarrow> int" where
  "get_effective_vesting_shares a =
     (let e = i64_wrap (i64_wrap (amount (sh_vesting_shares a) + amount (sh_received_vesting_shares a)) -
                amount (sh_delegated_vesting_shares a)) in
      if sh_next_vesting_withdrawal a \<noteq> time_point_sec_maximum
      then i64_wrap (e - min (amount (sh_vesting_withdraw_rate a)) (i64_wrap (sh_to_withdraw a - sh_withdrawn a)))
      else e)"

text \<open>\<^verbatim>\<open>use_mana\<close> has the default \<^verbatim>\<open>min_mana = 0\<close>; the division of \<^verbatim>\<open>int64_t\<close> truncates.\<close>

definition update_manabar ::
    "dynamic_global_property_object \<Rightarrow> shareholder \<Rightarrow> 32 word \<Rightarrow> bool \<Rightarrow> int \<Rightarrow> shareholder result" where
  "update_manabar gpo a mana_regen_seconds downvote_mana new_mana =
     (let effective_vests = get_effective_vesting_shares a in
      rbind (regenerate_mana False \<lparr>max_mana = effective_vests, regen_time = mana_regen_seconds\<rparr> (gp_time gpo) (sh_voting_manabar a)) (\<lambda>m.
      let a1 = a\<lparr>sh_voting_manabar := use_mana (i64_wrap (- new_mana)) 0 m\<rparr> in
      if downvote_mana then
        rbind (to_int64 (u128_of_i64 effective_vests * ucast (gp_downvote_pool_percent gpo) div u128_of_i64 freezone_100_PERCENT)) (\<lambda>mm.
        rbind (regenerate_mana False \<lparr>max_mana = mm, regen_time = mana_regen_seconds\<rparr> (gp_time gpo) (sh_downvote_manabar a1)) (\<lambda>d.
        Inr (a1\<lparr>sh_downvote_manabar :=
          use_mana (i64_wrap (i64_wrap (- new_mana) * uint (gp_downvote_pool_percent gpo)) sdiv freezone_100_PERCENT) 0 d\<rparr>)))
      else Inr a1))"

text \<open>Only the two bars change.\<close>

lemma update_manabar_effect:
  "update_manabar gpo a r dv n = Inr a' \<Longrightarrow> \<exists>m d. a' = a\<lparr>sh_voting_manabar := m, sh_downvote_manabar := d\<rparr>"
  by (cases a) (auto simp: update_manabar_def Let_def res_simps split: if_splits)

lemma put_account_bars:
  "put_account_shares ((account_shares a)\<lparr>sh_voting_manabar := m, sh_downvote_manabar := d\<rparr>) a =
     a\<lparr>acc_voting_manabar := m, acc_downvote_manabar := d\<rparr>"
  by (simp add: put_account_shares_def account_shares_def)

lemma shareholder_lens [simp]:
  "account_shares (put_account_shares h a) = h" "put_account_shares (account_shares a) a = a"
  "balance_shares (put_balance_shares h b) = h" "put_balance_shares (balance_shares b) b = b"
  by (simp_all add: account_shares_def put_account_shares_def balance_shares_def put_balance_shares_def)

section \<open>Regeneration\<close>

lemma u64_max: "uint (word_of_int i64_max :: 64 word) = i64_max"
  by (simp add: uint_word_of_int)

lemma regen_word:
  assumes "0 \<le> x" "x \<le> i64_max" "r \<noteq> (0 :: 32 word)"
  shows "uint ((ucast (word_of_int x :: 64 word) * ucast (d :: 32 word) :: 128 word) div ucast r) = x * uint d div uint r"
proof -
  have d: "0 \<le> uint d" "uint d < 2 ^ 32" using uint_lt2p [of d] by auto
  have p: "0 \<le> x * uint d" "x * uint d < 2 ^ 63 * 2 ^ 32"
    using assms(1,2) d mult_strict_mono [of x "2 ^ 63" "uint d" "2 ^ 32"] by (auto simp: mult_nonneg_nonneg)
  have u: "uint (ucast (word_of_int x :: 64 word) :: 128 word) = x" "uint (ucast d :: 128 word) = uint d" "uint (ucast r :: 128 word) = uint r"
    using assms(1,2) d uint_lt2p [of r] by (simp_all add: unsigned_ucast_eq uint_word_of_int take_bit_eq_mod)
  have "uint (ucast (word_of_int x :: 64 word) * ucast d :: 128 word) = x * uint d"
    using p by (simp add: uint_word_ariths u)
  then show ?thesis by (simp add: uint_div_distrib u)
qed

text \<open>The value of \<open>regenerate_mana\<close>, for the time \<open>d\<close> that counts.\<close>

lemma regenerate_mana_value:
  assumes "0 \<le> max_mana p" "in_i64 (max_mana p)" "in_i64 (current_mana m)" "last_update_time m \<le> now" "regen_time p \<noteq> 0"
    and d: "d = (if \<not> sk then min (uint (now - last_update_time m)) (uint (regen_time p)) else uint (now - last_update_time m))"
    and ok: "max_mana p * d div uint (regen_time p) \<le> i64_max"
  shows "regenerate_mana sk p now m =
    Inr \<lparr>current_mana = min (max_mana p) (current_mana m + max_mana p * d div uint (regen_time p)), last_update_time = now\<rparr>"
proof -
  let ?r = "max_mana p * d div uint (regen_time p)"
  let ?dt = "if \<not> sk then (if now - last_update_time m > regen_time p then regen_time p else now - last_update_time m) else now - last_update_time m"
  have r0: "uint (regen_time p) > 0" using assms(5) uint_ge_0 [of "regen_time p"] uint_0_iff [of "regen_time p"] by linarith
  have dd: "d = uint ?dt" by (auto simp: d word_less_def min_def)
  have nn: "0 \<le> ?r" using assms(1) r0 dd by (simp add: pos_imp_zdiv_nonneg_iff)
  show ?thesis
  proof (cases "current_mana m \<ge> max_mana p")
    case True
    then show ?thesis using assms(1,4) nn by (cases m) (simp add: regenerate_mana_def manabar_params_validate_def Let_def min_def)
  next
    case False
    let ?q = "(ucast (word_of_int (max_mana p) :: 64 word) * ucast ?dt :: 128 word) div ucast (regen_time p)"
    have q: "uint ?q = ?r" unfolding dd by (rule regen_word) (use assms in \<open>auto simp: in_i64_def\<close>)
    have c: "ucast ?q = (word_of_int ?r :: 64 word)" by (simp only: ucast_eq [of ?q] q)
    have "u128_hi ?q = 0" by (simp only: u128_hi_eq_0_iff q) (use ok in simp)
    then have 1: "to_uint64 ?q = Inr (word_of_int ?r)" by (simp only: to_uint64_def fc_assert_def c) simp
    have u: "uint (word_of_int ?r :: 64 word) = ?r" using nn ok by (simp add: uint_word_of_int)
    then have 2: "(word_of_int ?r :: 64 word) \<le> word_of_int i64_max" using ok by (simp only: word_le_def u64_max)
    have 3: "i64_of_u64 (word_of_int ?r) = ?r" using u ok by (simp add: i64_of_u64_small)
    have "signed_sat_add (current_mana m) ?r = saturate (current_mana m + ?r)"
      by (rule signed_sat_value) (use assms(3) nn ok in \<open>auto simp: in_i64_def\<close>)
    then have 4: "(if signed_sat_add (current_mana m) ?r > max_mana p then max_mana p else signed_sat_add (current_mana m) ?r) =
        min (max_mana p) (current_mana m + ?r)"
      using assms(2,3) nn by (auto simp: saturate_def in_i64_def)
    have "\<not> max_mana p \<le> current_mana m" using False .
    then show ?thesis
      using assms(1,4,5) unfolding regenerate_mana_def manabar_params_validate_def Let_def
      by (simp only: fc_assert_def if_True if_False 1 throw_unless_def rbind_Inr 2 3 4 simp_thms) (cases m, simp)
  qed
qed

lemma regen_bound: "0 \<le> (x :: int) \<Longrightarrow> 0 < r \<Longrightarrow> 0 \<le> d \<Longrightarrow> d \<le> r \<Longrightarrow> x * d div r \<le> x"
  using zdiv_mono1 [of "x * d" "x * r" r] mult_left_mono [of d r x] by simp

text \<open>How much mana a stretch of \<open>t\<close> seconds gives, without and with the cap.\<close>

definition mana_after :: "manabar_params \<Rightarrow> int \<Rightarrow> int \<Rightarrow> int" where
  "mana_after p mana t = min (max_mana p) (mana + max_mana p * min t (uint (regen_time p)) div uint (regen_time p))"

text \<open>
  C20: with a capped regeneration the call always succeeds, and gives the mana it had plus the share
  of the maximum that the elapsed time is of the regeneration time, rounded down and limited to the
  maximum; a bar that is not overdrawn is full after the regeneration time.
\<close>

theorem regenerate_mana_exact:
  assumes "0 \<le> max_mana p" "in_i64 (max_mana p)" "in_i64 (current_mana m)" "last_update_time m \<le> now" "regen_time p \<noteq> 0"
  shows "regenerate_mana False p now m =
      Inr \<lparr>current_mana = mana_after p (current_mana m) (uint (now - last_update_time m)), last_update_time = now\<rparr> \<and>
    (0 \<le> current_mana m \<and> regen_time p \<le> now - last_update_time m \<longrightarrow>
      regenerate_mana False p now m = Inr \<lparr>current_mana = max_mana p, last_update_time = now\<rparr>)"
proof -
  have r0: "uint (regen_time p) > 0" using assms(5) uint_ge_0 [of "regen_time p"] uint_0_iff [of "regen_time p"] by linarith
  have "max_mana p * min (uint (now - last_update_time m)) (uint (regen_time p)) div uint (regen_time p) \<le> i64_max"
    using regen_bound [OF assms(1) r0, of "min (uint (now - last_update_time m)) (uint (regen_time p))"] assms(2) by (simp add: in_i64_def)
  then have v: "regenerate_mana False p now m =
      Inr \<lparr>current_mana = mana_after p (current_mana m) (uint (now - last_update_time m)), last_update_time = now\<rparr>"
    unfolding mana_after_def by (intro regenerate_mana_value [OF assms]) simp_all
  moreover have "mana_after p (current_mana m) (uint (now - last_update_time m)) = max_mana p"
    if "0 \<le> current_mana m" "regen_time p \<le> now - last_update_time m"
    using that r0 by (simp add: mana_after_def word_le_def min_absorb2)
  ultimately show ?thesis by simp
qed

lemma div_add_bounds: "0 < (r :: int) \<Longrightarrow> x div r + y div r \<le> (x + y) div r \<and> (x + y) div r \<le> x div r + y div r + 1"
proof -
  assume r: "0 < r"
  let ?s = "x mod r + y mod r"
  have s: "0 \<le> ?s" "?s < 2 * r"
    using pos_mod_bound [OF r, of x] pos_mod_bound [OF r, of y] pos_mod_sign [OF r, of x] pos_mod_sign [OF r, of y] by linarith+
  have "?s div r * r \<le> ?s" using r div_mult_mod_eq [of ?s r] pos_mod_sign [OF r, of ?s] by linarith
  then have "?s div r * r < 2 * r" using s by linarith
  then have "?s div r < 2" using r by (simp add: mult_less_cancel_right)
  moreover have "0 \<le> ?s div r" using r s by (simp add: pos_imp_zdiv_nonneg_iff)
  ultimately show ?thesis by (simp add: div_add1_eq [of x y])
qed


text \<open>Spending: the bar never goes below the floor, and a bar that has the mana pays it in full.\<close>

lemma use_mana_value:
  assumes "in_i64 (current_mana m)" "in_i64 x"
  shows "current_mana (use_mana x lo m) = max lo (saturate (current_mana m - x))"
  by (simp add: use_mana_def Let_def signed_sat_value(2) [OF assms])

theorem regenerate_mana_exact_witness:
  "regenerate_mana False \<lparr>max_mana = 1000, regen_time = 100\<rparr> 50 \<lparr>current_mana = 10, last_update_time = 20\<rparr> =
     Inr \<lparr>current_mana = 310, last_update_time = 50\<rparr>"
  using regenerate_mana_exact [of "\<lparr>max_mana = 1000, regen_time = 100\<rparr>" "\<lparr>current_mana = 10, last_update_time = 20\<rparr>" 50]
  by (simp add: in_i64_def mana_after_def)


end
