(* ===== verification/Vesting.thy ===== *)
theory Vesting
  imports Vote_Frame Manabar
begin

text \<open>
  Vesting: \<^verbatim>\<open>create_vesting2\<close> of \<^verbatim>\<open>chain/include/steem/chain/vesting.hpp\<close>, the evaluators
  \<^verbatim>\<open>transfer_to_vesting\<close>, \<^verbatim>\<open>withdraw_vesting\<close> and \<^verbatim>\<open>set_withdraw_vesting_route\<close> of
  \<^verbatim>\<open>chain/steem_evaluator.cpp\<close> and \<^verbatim>\<open>process_vesting_withdrawals\<close> of \<^verbatim>\<open>chain/database.cpp\<close>.
\<close>

section \<open>Operations\<close>

record transfer_to_vesting_operation =
  ttv_from :: account_name_type
  ttv_to :: account_name_type
  ttv_amount :: asset

record withdraw_vesting_operation =
  wv_op_account :: account_name_type
  wv_op_vesting_shares :: asset

record set_withdraw_vesting_route_operation =
  swr_from_account :: account_name_type
  swr_to_account :: account_name_type
  swr_percent :: "16 word"
  swr_auto_vest :: bool

definition freezone_VESTING_WITHDRAW_INTERVALS_PRE_HF_16 :: int where "freezone_VESTING_WITHDRAW_INTERVALS_PRE_HF_16 = 104"
definition freezone_VESTING_WITHDRAW_INTERVALS :: int where "freezone_VESTING_WITHDRAW_INTERVALS = 13"
definition freezone_VESTING_WITHDRAW_INTERVAL_SECONDS :: "32 word" where
  "freezone_VESTING_WITHDRAW_INTERVAL_SECONDS = 60 * 60 * 24 * 7"
definition SST_VESTING_WITHDRAW_INTERVAL_SECONDS :: "32 word" where
  "SST_VESTING_WITHDRAW_INTERVAL_SECONDS = 60 * 60 * 24 * 7"
definition freezone_MAX_WITHDRAW_ROUTES :: int where "freezone_MAX_WITHDRAW_ROUTES = 10"

section \<open>Creating shares\<close>

text \<open>
  \<^verbatim>\<open>update_manabar\<close> applied to an account of the database.
\<close>

definition update_account_mana :: "database \<Rightarrow> account_name_type \<Rightarrow> int \<Rightarrow> database result" where
  "update_account_mana db name new_mana =
     rbind (get_account db name) (\<lambda>a.
     rbind (update_manabar (dgpo db) (account_shares a) (word_of_int freezone_VOTING_MANA_REGENERATION_SECONDS)
              (has_hardfork db 21) new_mana) (\<lambda>h.
     Inr (set_account (put_account_shares h a) db)))"

text \<open>The pools: \<open>fund\<close> and \<open>shares\<close> are the amounts added to them.\<close>

definition grow_pool :: "bool \<Rightarrow> asset \<Rightarrow> asset \<Rightarrow> dynamic_global_property_object \<Rightarrow> dynamic_global_property_object result" where
  "grow_pool to_reward_balance fund shares g =
     (if to_reward_balance then
        rbind (asset_add (gp_pending_rewarded_vesting_shares g) shares) (\<lambda>sh.
        rbind (asset_add (gp_pending_rewarded_vesting_freezone g) fund) (\<lambda>f.
        Inr (g\<lparr>gp_pending_rewarded_vesting_shares := sh, gp_pending_rewarded_vesting_freezone := f\<rparr>)))
      else
        rbind (asset_add (gp_total_vesting_fund_freezone g) fund) (\<lambda>f.
        rbind (asset_add (gp_total_vesting_shares g) shares) (\<lambda>sh.
        Inr (g\<lparr>gp_total_vesting_fund_freezone := f, gp_total_vesting_shares := sh\<rparr>))))"

definition grow_token_pool :: "bool \<Rightarrow> asset \<Rightarrow> asset \<Rightarrow> SST_token_object \<Rightarrow> SST_token_object result" where
  "grow_token_pool to_reward_balance fund shares t =
     (if to_reward_balance then
        rbind (safe_add (tok_pending_rewarded_vesting_shares t) (amount shares)) (\<lambda>sh.
        rbind (safe_add (tok_pending_rewarded_vesting_SST t) (amount fund)) (\<lambda>f.
        Inr (t\<lparr>tok_pending_rewarded_vesting_shares := sh, tok_pending_rewarded_vesting_SST := f\<rparr>)))
      else
        rbind (safe_add (tok_total_vesting_fund_SST t) (amount fund)) (\<lambda>f.
        rbind (safe_add (tok_total_vesting_shares t) (amount shares)) (\<lambda>sh.
        Inr (t\<lparr>tok_total_vesting_fund_SST := f, tok_total_vesting_shares := sh\<rparr>))))"

text \<open>
  \<open>before\<close> is the caller's callback, which only sends notifications.  The result is the amount of
  new shares.
\<close>

definition create_vesting2 ::
    "(asset \<Rightarrow> database \<Rightarrow> database) \<Rightarrow> database \<Rightarrow> account_name_type \<Rightarrow> asset \<Rightarrow> bool \<Rightarrow> (asset \<times> database) result" where
  "create_vesting2 before db to liquid to_reward_balance =
     (if space (symbol liquid) = SST_nai_space then
        fc_assert (\<not> is_vesting (symbol liquid)) '''' (
        if to = freezone_NULL_ACCOUNT then
          let new_vesting = mk_asset 0 (get_paired_symbol (symbol liquid)) in
          rbind (asset_neg liquid) (\<lambda>d.
          rbind (adjust_supply (before new_vesting db) d False) (\<lambda>db1. Inr (new_vesting, db1)))
        else
          rbind (get_token db (symbol liquid)) (\<lambda>token.
          fc_assert (\<not> to_reward_balance \<or> tok_allow_voting token)
            ''Cannot create vests for the reward balance when voting is disabled. Please report this as it should not be triggered.'' (
          rbind (if to_reward_balance then tok_get_reward_vesting_share_price token else tok_get_vesting_share_price token) (\<lambda>p.
          rbind (asset_mul_price liquid p) (\<lambda>new_vesting.
          rbind (if to_reward_balance then adjust_reward_balance (before new_vesting db) to liquid new_vesting
                 else adjust_balance_of (before new_vesting db) to new_vesting) (\<lambda>db1.
          rbind (get_token db1 (symbol liquid)) (\<lambda>token1.
          rbind (grow_token_pool to_reward_balance liquid new_vesting token1) (\<lambda>token2.
          Inr (new_vesting, set_token token2 db1))))))))
        )
      else
        fc_assert (symbol liquid = freezone_SYMBOL) '''' (
        rbind (if to_reward_balance then get_reward_vesting_share_price (dgpo db) else get_vesting_share_price (dgpo db)) (\<lambda>p.
        rbind (asset_mul_price liquid p) (\<lambda>new_vesting.
        rbind (if to_reward_balance then adjust_reward_balance (before new_vesting db) to liquid new_vesting
               else rbind (if has_hardfork db 20 then update_account_mana (before new_vesting db) to (amount new_vesting)
                           else Inr (before new_vesting db)) (\<lambda>db1.
                    adjust_balance_of db1 to new_vesting)) (\<lambda>db2.
        rbind (grow_pool to_reward_balance liquid new_vesting (dgpo db2)) (\<lambda>g.
        let db3 = db2\<lparr>dgpo := g\<rparr> in
        rbind (if to_reward_balance then Inr db3 else adjust_proxied_witness_votes db3 to (amount new_vesting) 0) (\<lambda>db4.
        Inr (new_vesting, db4))))))))"

definition create_vesting :: "database \<Rightarrow> account_name_type \<Rightarrow> asset \<Rightarrow> bool \<Rightarrow> (asset \<times> database) result" where
  "create_vesting = create_vesting2 (\<lambda>_ db. db)"

definition transfer_to_vesting_apply :: "database \<Rightarrow> transfer_to_vesting_operation \<Rightarrow> database result" where
  "transfer_to_vesting_apply db o1 =
     rbind (get_account db (ttv_from o1)) (\<lambda>from_account.
     rbind (if ttv_to o1 \<noteq> '''' then get_account db (ttv_to o1) else Inr from_account) (\<lambda>to_account.
     fc_assert (\<not> has_hardfork db 21 \<or> symbol (ttv_amount o1) = SBD_SYMBOL \<or> ttv_to o1 \<noteq> freezone_TREASURY_ACCOUNT)
       ''Can only transfer SBD to ${s}'' (
     rbind (asset_neg (ttv_amount o1)) (\<lambda>d.
     rbind (adjust_balance_of db (acc_name from_account) d) (\<lambda>db1.
     rbind (create_vesting db1 (acc_name to_account) (ttv_amount o1) False) (\<lambda>(_, db2).
     Inr db2))))))"

section \<open>Withdrawing\<close>

text \<open>The weekly rate of a withdrawal of an amount over a number of intervals.\<close>

definition withdraw_rate :: "bool \<Rightarrow> share_type \<Rightarrow> int \<Rightarrow> share_type result" where
  "withdraw_rate round_up shares intervals =
     rbind (safe_div shares intervals) (\<lambda>r0.
     let r = (if r0 = 0 then 1 else r0) in
     if round_up then
       rbind (safe_mul r intervals) (\<lambda>t. if t < shares then safe_add r 1 else Inr r)
     else Inr r)"

definition stop_withdraw :: "asset_symbol_type \<Rightarrow> shareholder \<Rightarrow> shareholder" where
  "stop_withdraw s h = h\<lparr>sh_vesting_withdraw_rate := mk_asset 0 s, sh_next_vesting_withdrawal := time_point_sec_maximum,
     sh_to_withdraw := 0, sh_withdrawn := 0\<rparr>"

definition start_withdraw :: "asset \<Rightarrow> time_point_sec \<Rightarrow> share_type \<Rightarrow> shareholder \<Rightarrow> shareholder" where
  "start_withdraw rate next shares h = h\<lparr>sh_vesting_withdraw_rate := rate, sh_next_vesting_withdrawal := next,
     sh_to_withdraw := shares, sh_withdrawn := 0\<rparr>"

definition withdraw_token_vesting :: "database \<Rightarrow> account_name_type \<Rightarrow> asset \<Rightarrow> database result" where
  "withdraw_token_vesting db name shares =
     fc_assert (has_hardfork db 23) ''Withdraw vesting operation for SSTs is not enabled until the SST hardfork.'' (
     fc_assert (is_vesting (symbol shares)) ''Vesting shares must be a vesting symbol.'' (
     let liquid_symbol = get_paired_symbol (symbol shares); key = (name, liquid_symbol) in
     case find_row arb_key key (regular_balances db) of
       None \<Rightarrow> Inl (Fc_assert ''Account does not have sufficient Token Power for withdrawal.'')
     | Some b \<Rightarrow>
         rbind (asset_sub (arb_vesting_shares b) (arb_delegated_vesting_shares b)) (\<lambda>free.
         rbind (asset_ge free shares) (\<lambda>enough.
         fc_assert enough ''Account does not have sufficient Token Power for withdrawal.'' (
         if amount shares = 0 then
           fc_assert (amount (arb_vesting_withdraw_rate b) \<noteq> 0) ''This operation would not change the vesting withdraw rate.'' (
           Inr (db\<lparr>regular_balances := update_row arb_key key
             (put_balance_shares (stop_withdraw (get_paired_symbol liquid_symbol) (balance_shares b)) b) (regular_balances db)\<rparr>))
         else
           rbind (withdraw_rate True (amount shares) freezone_VESTING_WITHDRAW_INTERVALS) (\<lambda>r.
           let rate = mk_asset r (get_paired_symbol liquid_symbol) in
           rbind (asset_ne (arb_vesting_withdraw_rate b) rate) (\<lambda>changes.
           fc_assert changes ''This operation would not change the vesting withdraw rate.'' (
           Inr (db\<lparr>regular_balances := update_row arb_key key
             (put_balance_shares (start_withdraw rate (head_block_time db + SST_VESTING_WITHDRAW_INTERVAL_SECONDS)
                (amount shares) (balance_shares b)) b) (regular_balances db)\<rparr>)))))))))"

definition withdraw_native_vesting :: "database \<Rightarrow> account_object \<Rightarrow> asset \<Rightarrow> database result" where
  "withdraw_native_vesting db a shares =
     fc_assert (symbol shares = VESTS_SYMBOL) ''Vesting shares must be a vesting symbol.'' (
     rbind (asset_ge (acc_vesting_shares a) (mk_asset 0 VESTS_SYMBOL)) (\<lambda>ok.
     fc_assert ok ''Account does not have sufficient freezone Power for withdraw.'' (
     rbind (asset_sub (acc_vesting_shares a) (acc_delegated_vesting_shares a)) (\<lambda>free.
     rbind (asset_ge free shares) (\<lambda>enough.
     fc_assert enough ''Account does not have sufficient freezone Power for withdraw.'' (
     if amount shares = 0 then
       fc_assert (\<not> has_hardfork db 5 \<or> amount (acc_vesting_withdraw_rate a) \<noteq> 0)
         ''This operation would not change the vesting withdraw rate.'' (
       Inr (set_account (put_account_shares (stop_withdraw VESTS_SYMBOL (account_shares a)) a) db))
     else
       let intervals = (if has_hardfork db 16 then freezone_VESTING_WITHDRAW_INTERVALS
                        else freezone_VESTING_WITHDRAW_INTERVALS_PRE_HF_16) in
       rbind (withdraw_rate (has_hardfork db 21) (amount shares) intervals) (\<lambda>r.
       let rate = mk_asset r VESTS_SYMBOL in
       rbind (if has_hardfork db 5 then asset_ne (acc_vesting_withdraw_rate a) rate else Inr True) (\<lambda>changes.
       fc_assert changes ''This operation would not change the vesting withdraw rate.'' (
       Inr (set_account (put_account_shares (start_withdraw rate (head_block_time db + freezone_VESTING_WITHDRAW_INTERVAL_SECONDS)
              (amount shares) (account_shares a)) a) db))))))))))"

definition withdraw_vesting_apply :: "database \<Rightarrow> withdraw_vesting_operation \<Rightarrow> database result" where
  "withdraw_vesting_apply db o1 =
     rbind (get_account db (wv_op_account o1)) (\<lambda>account.
     let shares = wv_op_vesting_shares o1 in
     if amount shares < 0 then
       (if has_hardfork db 20 then Inl (Fc_assert ''Cannot withdraw negative VESTS. account: ${account}, vests:${vests}'') else Inr db)
     else if space (symbol shares) = SST_nai_space then withdraw_token_vesting db (acc_name account) shares
     else withdraw_native_vesting db account shares)"

section \<open>Routes\<close>

definition wr_key :: "withdraw_vesting_route_object \<Rightarrow> account_name_type \<times> account_name_type" where
  "wr_key r = (wr_from_account r, wr_to_account r)"

text \<open>The routes of an account in the order of the destination.\<close>

definition routes_of :: "database \<Rightarrow> account_name_type \<Rightarrow> withdraw_vesting_route_object list" where
  "routes_of db name =
     sort_key wr_to_account (filter (\<lambda>r. wr_from_account r = name \<and> wr_to_account r > '''') (withdraw_vesting_routes db))"

text \<open>\<^verbatim>\<open>total_percent\<close> is a \<^verbatim>\<open>uint16_t\<close>.\<close>

definition total_percent :: "withdraw_vesting_route_object list \<Rightarrow> 16 word" where
  "total_percent rs = foldl (\<lambda>t r. t + wr_percent r) 0 rs"

definition set_withdraw_vesting_route_apply :: "database \<Rightarrow> set_withdraw_vesting_route_operation \<Rightarrow> database result" where
  "set_withdraw_vesting_route_apply db o1 =
     rbind (get_account db (swr_from_account o1)) (\<lambda>from_account.
     rbind (get_account db (swr_to_account o1)) (\<lambda>to_account.
     fc_assert (\<not> has_hardfork db 21 \<or> swr_to_account o1 \<noteq> freezone_TREASURY_ACCOUNT) ''Cannot withdraw vesting to ${s}'' (
     let key = (acc_name from_account, acc_name to_account);
         route = \<lparr>wr_from_account = acc_name from_account, wr_to_account = acc_name to_account,
                  wr_percent = swr_percent o1, wr_auto_vest = swr_auto_vest o1\<rparr> in
     rbind (case find_row wr_key key (withdraw_vesting_routes db) of
              None \<Rightarrow>
                fc_assert (swr_percent o1 \<noteq> 0) ''Cannot create a 0% destination.'' (
                fc_assert (uint (acc_withdraw_routes from_account) < freezone_MAX_WITHDRAW_ROUTES)
                  ''Account already has the maximum number of routes.'' (
                modify_account (db\<lparr>withdraw_vesting_routes := withdraw_vesting_routes db @ [route]\<rparr>) (acc_name from_account)
                  (\<lambda>a. a\<lparr>acc_withdraw_routes := acc_withdraw_routes a + 1\<rparr>)))
            | Some r \<Rightarrow>
                if swr_percent o1 = 0 then
                  modify_account (db\<lparr>withdraw_vesting_routes := remove_row wr_key key (withdraw_vesting_routes db)\<rparr>)
                    (acc_name from_account) (\<lambda>a. a\<lparr>acc_withdraw_routes := acc_withdraw_routes a - 1\<rparr>)
                else Inr (db\<lparr>withdraw_vesting_routes := update_row wr_key key route (withdraw_vesting_routes db)\<rparr>)) (\<lambda>db1.
     fc_assert (uint (total_percent (routes_of db1 (acc_name from_account))) \<le> freezone_100_PERCENT)
       ''More than 100% of vesting withdrawals allocated to destinations.'' (Inr db1)))))"

section \<open>The weekly withdrawals\<close>

text \<open>How many shares an account or a token balance withdraws this week.\<close>

definition shares_to_withdraw :: "shareholder \<Rightarrow> share_type result" where
  "shares_to_withdraw h =
     rbind (safe_sub (sh_to_withdraw h) (sh_withdrawn h)) (\<lambda>left.
     if left < amount (sh_vesting_withdraw_rate h) then
       rbind (safe_mod (sh_to_withdraw h) (amount (sh_vesting_withdraw_rate h))) (\<lambda>x. Inr (min (amount (sh_vesting_shares h)) x))
     else Inr (min (amount (sh_vesting_shares h)) (amount (sh_vesting_withdraw_rate h))))"

text \<open>The bookkeeping after the shares have left.\<close>

definition advance_withdraw :: "32 word \<Rightarrow> share_type \<Rightarrow> shareholder \<Rightarrow> shareholder result" where
  "advance_withdraw interval to_withdraw h =
     rbind (safe_add (sh_withdrawn h) to_withdraw) (\<lambda>w.
     let h1 = h\<lparr>sh_withdrawn := w\<rparr> in
     if w \<ge> sh_to_withdraw h \<or> amount (sh_vesting_shares h) = 0 then
       Inr (h1\<lparr>sh_vesting_withdraw_rate := (sh_vesting_withdraw_rate h)\<lparr>amount := 0\<rparr>,
               sh_next_vesting_withdrawal := time_point_sec_maximum\<rparr>)
     else Inr (h1\<lparr>sh_next_vesting_withdrawal := sh_next_vesting_withdrawal h + interval\<rparr>))"

definition withdraw_token_step :: "account_name_type \<times> asset_symbol_type \<Rightarrow> database \<Rightarrow> database result" where
  "withdraw_token_step key db =
     rbind (get_row arb_key key (regular_balances db)) (\<lambda>b.
     rbind (get_token db (symbol (arb_liquid b))) (\<lambda>token.
     rbind (shares_to_withdraw (balance_shares b)) (\<lambda>to_withdraw.
     let withdraw_token = mk_asset to_withdraw (get_paired_symbol (tok_liquid_symbol token)) in
     rbind (tok_get_vesting_share_price token) (\<lambda>p.
     rbind (asset_mul_price withdraw_token p) (\<lambda>converted.
     let db1 = push_virtual_operation db (fill_vesting_withdraw_operation (arb_name b) (arb_name b) withdraw_token converted) in
     rbind (asset_sub (arb_vesting_shares b) withdraw_token) (\<lambda>v.
     rbind (asset_add (arb_liquid b) converted) (\<lambda>l.
     let b1 = b\<lparr>arb_vesting_shares := v, arb_liquid := l\<rparr> in
     rbind (advance_withdraw SST_VESTING_WITHDRAW_INTERVAL_SECONDS to_withdraw (balance_shares b1)) (\<lambda>h.
     let db2 = db1\<lparr>regular_balances := update_row arb_key key (put_balance_shares h b1) (regular_balances db1)\<rparr> in
     rbind (safe_sub (tok_total_vesting_fund_SST token) (amount converted)) (\<lambda>f.
     rbind (safe_sub (tok_total_vesting_shares token) to_withdraw) (\<lambda>sh.
     Inr (set_token (token\<lparr>tok_total_vesting_fund_SST := f, tok_total_vesting_shares := sh\<rparr>) db2)))))))))))"

text \<open>
  A row of a withdrawal index is ordered by its time and then its key.  The loop over the token
  balances increments its iterator after the row has moved to its new place: it goes on with the rows
  behind that place, and the rows in between wait for another block.
\<close>

definition due_token_withdrawals :: "database \<Rightarrow> (time_point_sec \<times> account_name_type \<times> asset_symbol_type) list" where
  "due_token_withdrawals db =
     sort (map (\<lambda>b. (arb_next_vesting_withdrawal b, arb_key b))
       (filter (\<lambda>b. arb_next_vesting_withdrawal b \<le> head_block_time db) (regular_balances db)))"

function withdraw_tokens ::
    "(time_point_sec \<times> account_name_type \<times> asset_symbol_type) list \<Rightarrow> database \<Rightarrow> database result" where
  "withdraw_tokens [] db = Inr db"
| "withdraw_tokens ((t, key) # rows) db =
     rbind (withdraw_token_step key db) (\<lambda>db1.
     rbind (get_row arb_key key (regular_balances db1)) (\<lambda>b.
     withdraw_tokens (filter (\<lambda>r. r > (arb_next_vesting_withdrawal b, key)) rows) db1))"
  by pat_completeness auto
termination by (relation "measure (\<lambda>(rows, _). length rows)") (auto simp: le_imp_less_Suc)

text \<open>Part of the amount that goes along a route, in units of a hundredth of a percent.\<close>

definition route_share :: "share_type \<Rightarrow> withdraw_vesting_route_object \<Rightarrow> share_type result" where
  "route_share to_withdraw r =
     rbind (to_uint64 (u128_of_i64 to_withdraw * ucast (wr_percent r) div u128_of_i64 freezone_100_PERCENT)) (\<lambda>x.
     Inr (i64_of_u64 x))"

definition add_vesting_shares :: "database \<Rightarrow> account_name_type \<Rightarrow> share_type \<Rightarrow> database result" where
  "add_vesting_shares db name d =
     rbind (get_account db name) (\<lambda>a.
     rbind (safe_add (amount (acc_vesting_shares a)) d) (\<lambda>n.
     Inr (set_account (a\<lparr>acc_vesting_shares := (acc_vesting_shares a)\<lparr>amount := n\<rparr>\<rparr>) db)))"

definition route_to_vests ::
    "account_name_type \<Rightarrow> share_type \<Rightarrow> withdraw_vesting_route_object \<Rightarrow> share_type \<times> database \<Rightarrow> (share_type \<times> database) result" where
  "route_to_vests from to_withdraw r = (\<lambda>(deposited, db).
     if wr_auto_vest r then
       rbind (route_share to_withdraw r) (\<lambda>to_deposit.
       rbind (safe_add deposited to_deposit) (\<lambda>deposited'.
       if to_deposit > 0 then
         rbind (get_account db (wr_to_account r)) (\<lambda>to_account.
         let db1 = push_virtual_operation db (fill_vesting_withdraw_operation from (acc_name to_account)
                     (mk_asset to_deposit VESTS_SYMBOL) (mk_asset to_deposit VESTS_SYMBOL)) in
         rbind (add_vesting_shares db1 (acc_name to_account) to_deposit) (\<lambda>db2.
         rbind (adjust_proxied_witness_votes db2 (acc_name to_account) to_deposit 0) (\<lambda>db3.
         Inr (deposited', db3))))
       else Inr (deposited', db)))
     else Inr (deposited, db))"

text \<open>Shares leave the pool together with the funds they were converted to.\<close>

definition shrink_pool :: "asset \<Rightarrow> share_type \<Rightarrow> database \<Rightarrow> database result" where
  "shrink_pool fund shares db =
     (let g = dgpo db in
      rbind (asset_sub (gp_total_vesting_fund_freezone g) fund) (\<lambda>f.
      rbind (safe_sub (amount (gp_total_vesting_shares g)) shares) (\<lambda>sh.
      Inr (db\<lparr>dgpo := g\<lparr>gp_total_vesting_fund_freezone := f,
        gp_total_vesting_shares := (gp_total_vesting_shares g)\<lparr>amount := sh\<rparr>\<rparr>\<rparr>))))"

definition route_to_liquid ::
    "account_name_type \<Rightarrow> share_type \<Rightarrow> withdraw_vesting_route_object \<Rightarrow>
     share_type \<times> asset \<times> database \<Rightarrow> (share_type \<times> asset \<times> database) result" where
  "route_to_liquid from to_withdraw r = (\<lambda>(deposited, total, db).
     if \<not> wr_auto_vest r then
       rbind (get_account db (wr_to_account r)) (\<lambda>to_account.
       rbind (route_share to_withdraw r) (\<lambda>to_deposit.
       rbind (safe_add deposited to_deposit) (\<lambda>deposited'.
       rbind (get_vesting_share_price (dgpo db)) (\<lambda>p.
       rbind (asset_mul_price (mk_asset to_deposit VESTS_SYMBOL) p) (\<lambda>converted.
       rbind (asset_add total converted) (\<lambda>total'.
       if to_deposit > 0 then
         let db1 = push_virtual_operation db (fill_vesting_withdraw_operation from (acc_name to_account)
                     (mk_asset to_deposit VESTS_SYMBOL) converted) in
         rbind (get_account db1 (acc_name to_account)) (\<lambda>a.
         rbind (asset_add (acc_balance a) converted) (\<lambda>b.
         rbind (shrink_pool converted to_deposit (set_account (a\<lparr>acc_balance := b\<rparr>) db1)) (\<lambda>db2.
         Inr (deposited', total', db2))))
       else Inr (deposited', total', db)))))))
     else Inr (deposited, total, db))"

definition withdraw_account_step :: "account_name_type \<Rightarrow> database \<Rightarrow> database result" where
  "withdraw_account_step from db =
     rbind (get_account db from) (\<lambda>from_account.
     rbind (shares_to_withdraw (account_shares from_account)) (\<lambda>to_withdraw.
     rbind (rfold (route_to_vests from to_withdraw) (routes_of db from) (0, db)) (\<lambda>(as_vests, db1).
     rbind (rfold (route_to_liquid from to_withdraw) (routes_of db1 from) (0, mk_asset 0 freezone_SYMBOL, db1))
       (\<lambda>(as_freezone, total, db2).
     rbind (safe_sub to_withdraw as_freezone) (\<lambda>x.
     rbind (safe_sub x as_vests) (\<lambda>to_convert.
     fc_assert (to_convert \<ge> 0) ''Deposited more vests than were supposed to be withdrawn'' (
     rbind (get_vesting_share_price (dgpo db2)) (\<lambda>p.
     rbind (asset_mul_price (mk_asset to_convert VESTS_SYMBOL) p) (\<lambda>converted.
     let db3 = push_virtual_operation db2 (fill_vesting_withdraw_operation from from (mk_asset to_convert VESTS_SYMBOL) converted) in
     rbind (get_account db3 from) (\<lambda>a.
     rbind (safe_sub (amount (acc_vesting_shares a)) to_withdraw) (\<lambda>v.
     rbind (asset_add (acc_balance a) converted) (\<lambda>b.
     let a1 = a\<lparr>acc_vesting_shares := (acc_vesting_shares a)\<lparr>amount := v\<rparr>, acc_balance := b\<rparr> in
     rbind (advance_withdraw freezone_VESTING_WITHDRAW_INTERVAL_SECONDS to_withdraw (account_shares a1)) (\<lambda>h.
     rbind (shrink_pool converted to_convert (set_account (put_account_shares h a1) db3)) (\<lambda>db4.
     if to_withdraw > 0 then rbind (safe_neg to_withdraw) (\<lambda>d. adjust_proxied_witness_votes db4 from d 0)
     else Inr db4))))))))))))))"

text \<open>
  The loop over the accounts increments its iterator before the account moves.  An account whose
  next withdrawal is due as well is visited again, if it moves behind the row the iterator is at.
\<close>

definition due_withdrawals :: "database \<Rightarrow> (time_point_sec \<times> account_name_type) list" where
  "due_withdrawals db =
     sort (map (\<lambda>a. (acc_next_vesting_withdrawal a, acc_name a))
       (filter (\<lambda>a. acc_next_vesting_withdrawal a \<le> head_block_time db) (accounts db)))"

definition requeue ::
    "time_point_sec \<Rightarrow> time_point_sec \<times> account_name_type \<Rightarrow> time_point_sec \<times> account_name_type \<Rightarrow>
     (time_point_sec \<times> account_name_type) list \<Rightarrow> (time_point_sec \<times> account_name_type) list" where
  "requeue now old new rows =
     (case rows of [] \<Rightarrow> [] | r # _ \<Rightarrow> if fst new \<le> now \<and> new > old \<and> new > r then insort new rows else rows)"

lemma requeue_measure:
  "sum_list (map (\<lambda>k. Suc (unat now - unat (fst k))) (requeue now (t, n) (t', n) rows)) <
   Suc (unat now - unat t) + sum_list (map (\<lambda>k. Suc (unat now - unat (fst k))) rows)"
proof (cases "t' \<le> now \<and> t < t'")
  case True
  have "sum_list (map f (insort x xs)) = f x + sum_list (map f xs)" for f :: "_ \<Rightarrow> nat" and x :: "time_point_sec \<times> account_name_type" and xs
    by (induction xs) auto
  moreover have "unat now - unat t' < unat now - unat t"
    using True unfolding word_le_nat_alt word_less_nat_alt by linarith
  ultimately show ?thesis by (auto simp: requeue_def split: list.split)
next
  case False
  then show ?thesis by (auto simp: requeue_def split: list.split)
qed

function withdraw_accounts ::
    "time_point_sec \<Rightarrow> (time_point_sec \<times> account_name_type) list \<Rightarrow> database \<Rightarrow> database result" where
  "withdraw_accounts now [] db = Inr db"
| "withdraw_accounts now ((t, n) # rows) db =
     rbind (withdraw_account_step n db) (\<lambda>db1.
     rbind (get_account db1 n) (\<lambda>a.
     withdraw_accounts now (requeue now (t, n) (acc_next_vesting_withdrawal a, n) rows) db1))"
  by pat_completeness auto
termination
  by (relation "measure (\<lambda>(now, rows, _). sum_list (map (\<lambda>k. Suc (unat now - unat (fst k))) rows))")
    (use requeue_measure in auto)

definition process_vesting_withdrawals :: "database \<Rightarrow> database result" where
  "process_vesting_withdrawals db =
     rbind (withdraw_tokens (due_token_withdrawals db) db) (\<lambda>db1.
     withdraw_accounts (head_block_time db1) (due_withdrawals db1) db1)"

section \<open>Creating shares conserves\<close>

definition notifies :: "(asset \<Rightarrow> database \<Rightarrow> database) \<Rightarrow> bool" where
  "notifies before \<longleftrightarrow> (\<forall>x db. \<exists>v. before x db = db\<lparr>vops := v\<rparr>)"

lemma notifiesD:
  assumes "notifies before"
  shows "surplus s (before x db) = surplus s db" "solvent (before x db) = solvent db" "has_hardfork (before x db) n = has_hardfork db n"
    "accounts (before x db) = accounts db" "dgpo (before x db) = dgpo db" "SST_tokens (before x db) = SST_tokens db"
    "witnesses (before x db) = witnesses db" "witness_votes (before x db) = witness_votes db"
    "get_token (before x db) = get_token db" "get_account (before x db) = get_account db"
proof -
  obtain v where "before x db = db\<lparr>vops := v\<rparr>" using assms by (auto simp: notifies_def)
  then show "surplus s (before x db) = surplus s db" "solvent (before x db) = solvent db" "has_hardfork (before x db) n = has_hardfork db n"
    "accounts (before x db) = accounts db" "dgpo (before x db) = dgpo db" "SST_tokens (before x db) = SST_tokens db"
    "witnesses (before x db) = witnesses db" "witness_votes (before x db) = witness_votes db"
    "get_token (before x db) = get_token db" "get_account (before x db) = get_account db"
    by (simp_all add: solvent_def has_hardfork_def get_token_def get_account_def fun_eq_iff)
qed

lemma update_account_mana_effect:
  assumes "update_account_mana db name n = Inr db'"
  obtains a m d where "find_row acc_name name (accounts db) = Some a"
    "db' = set_account (a\<lparr>acc_voting_manabar := m, acc_downvote_manabar := d\<rparr>) db" "acc_name a = name"
proof -
  obtain a h where 1: "find_row acc_name name (accounts db) = Some a" "db' = set_account (put_account_shares h a) db"
      "update_manabar (dgpo db) (account_shares a) (word_of_int freezone_VOTING_MANA_REGENERATION_SECONDS) (has_hardfork db 21) n = Inr h"
    using assms by (auto simp: update_account_mana_def res_simps)
  then obtain m d where "h = (account_shares a)\<lparr>sh_voting_manabar := m, sh_downvote_manabar := d\<rparr>"
    using update_manabar_effect by blast
  then show ?thesis using that 1(1,2) find_row_key [OF 1(1)] put_account_bars by metis
qed

lemma update_account_mana_surplus: "update_account_mana db name n = Inr db' \<Longrightarrow> surplus s db' = surplus s db"
  by (erule update_account_mana_effect) (auto simp: ledger_simps account_held_def)

lemma grow_pool_held:
  "grow_pool r fund shares g = Inr g' \<Longrightarrow>
   gp_held s g' - gp_issued s g' = gp_held s g - gp_issued s g + amt s fund - amt s shares"
  by (auto simp: grow_pool_def res_simps gp_held_def gp_issued_def split: if_splits dest!: amt_ops [where s = s])

lemma grow_token_pool_held:
  assumes "grow_token_pool r fund shares t = Inr t'" "symbol fund = tok_liquid_symbol t" "symbol shares = get_paired_symbol (tok_liquid_symbol t)"
  shows "token_held s t' - token_issued s t' = token_held s t - token_issued s t + amt s fund - amt s shares"
    "tok_liquid_symbol t' = tok_liquid_symbol t" "tok_phase t' = tok_phase t"
proof -
  have f: "amt s fund = (if tok_liquid_symbol t = s then amount fund else 0)"
    "amt s shares = (if get_paired_symbol (tok_liquid_symbol t) = s then amount shares else 0)"
    using assms(2,3) by (simp_all add: amt_def)
  consider (reward) "t' = t\<lparr>tok_pending_rewarded_vesting_shares := tok_pending_rewarded_vesting_shares t + amount shares,
        tok_pending_rewarded_vesting_SST := tok_pending_rewarded_vesting_SST t + amount fund\<rparr>"
    | (pool) "t' = t\<lparr>tok_total_vesting_fund_SST := tok_total_vesting_fund_SST t + amount fund,
        tok_total_vesting_shares := tok_total_vesting_shares t + amount shares\<rparr>"
    using assms(1) by (auto simp: grow_token_pool_def res_simps split: if_splits dest!: safe_values)
  then show "token_held s t' - token_issued s t' = token_held s t - token_issued s t + amt s fund - amt s shares"
    "tok_liquid_symbol t' = tok_liquid_symbol t" "tok_phase t' = tok_phase t"
    unfolding f by (cases; simp add: token_held_def token_issued_def)+
qed

lemma adjust_reward_shares_surplus:
  assumes "adjust_reward_balance db name v sh = Inr db'" "amount sh \<noteq> 0" "amount v \<noteq> 0" "name \<noteq> freezone_NULL_ACCOUNT"
  shows "surplus s db' = surplus s db + amt s sh"
proof (cases "space (symbol v) = SST_nai_space")
  case True
  then show ?thesis
    using assms
    by (auto simp: adjust_reward_balance_def adjust_SST_rewards_def Let_def res_simps ledger_simps table_simps
        arw_held_def arw_initialize_assets_def split: if_splits option.splits
        dest!: rewards_add_held [where s = s])
next
  case False
  then obtain a where a: "find_row acc_name name (accounts db) = Some a"
    using assms by (auto simp: adjust_reward_balance_def modify_reward_balance_def res_simps)
  note n [simp] = find_row_key [OF a]
  show ?thesis
    using assms a False
    by (auto simp: adjust_reward_balance_def modify_reward_balance_def res_simps ledger_simps account_held_def
        split: if_splits dest!: amt_ops [where s = s])
qed

lemma paired_differs: "space s = SST_nai_space \<Longrightarrow> get_paired_symbol s \<noteq> s"
proof
  assume "space s = SST_nai_space" "get_paired_symbol s = s"
  then have "s XOR SST_ASSET_NUM_VESTING_MASK = s" by (simp add: paired_SST)
  then have "SST_ASSET_NUM_VESTING_MASK = 0" by (metis xor.right_neutral xor_right_cancel xor.commute)
  then show False by (simp add: SST_ASSET_NUM_VESTING_MASK_def)
qed

lemma asset_mul_price_symbol:
  "asset_mul_price a p = Inr b \<Longrightarrow> symbol b = (if symbol a = symbol (base p) then symbol (quote p) else symbol (base p))"
  by (auto simp: asset_mul_price_def res_simps split: if_splits)

lemma token_price_symbols:
  assumes "(if r then tok_get_reward_vesting_share_price t else tok_get_vesting_share_price t) = Inr p"
  shows "symbol (base p) = get_paired_symbol (tok_liquid_symbol t)" "symbol (quote p) = tok_liquid_symbol t"
  using assms
  by (auto simp: tok_get_reward_vesting_share_price_def tok_get_vesting_share_price_def initial_vesting_share_price_def Let_def
      res_simps mk_price_eq_Inr split: if_splits)

lemma create_vesting2_cases:
  assumes "create_vesting2 before db to liquid r = Inr (nv, db')"
  obtains (null) d where "space (symbol liquid) = SST_nai_space" "to = freezone_NULL_ACCOUNT" "asset_neg liquid = Inr d"
      "adjust_supply (before nv db) d False = Inr db'" "nv = mk_asset 0 (get_paired_symbol (symbol liquid))"
  | (token) t p db1 t1 t2 where "space (symbol liquid) = SST_nai_space" "to \<noteq> freezone_NULL_ACCOUNT"
      "find_row tok_liquid_symbol (symbol liquid) (SST_tokens db) = Some t"
      "(if r then tok_get_reward_vesting_share_price t else tok_get_vesting_share_price t) = Inr p"
      "asset_mul_price liquid p = Inr nv"
      "(if r then adjust_reward_balance (before nv db) to liquid nv else adjust_balance_of (before nv db) to nv) = Inr db1"
      "find_row tok_liquid_symbol (symbol liquid) (SST_tokens db1) = Some t1" "grow_token_pool r liquid nv t1 = Inr t2"
      "db' = set_token t2 db1"
  | (reward) p db2 g where "symbol liquid = freezone_SYMBOL" "r" "get_reward_vesting_share_price (dgpo db) = Inr p"
      "asset_mul_price liquid p = Inr nv" "adjust_reward_balance (before nv db) to liquid nv = Inr db2"
      "grow_pool True liquid nv (dgpo db2) = Inr g" "db' = db2\<lparr>dgpo := g\<rparr>"
  | (native) p db1 db2 g where "symbol liquid = freezone_SYMBOL" "\<not> r" "get_vesting_share_price (dgpo db) = Inr p"
      "asset_mul_price liquid p = Inr nv"
      "(if has_hardfork db 20 then update_account_mana (before nv db) to (amount nv) else Inr (before nv db)) = Inr db1"
      "adjust_balance_of db1 to nv = Inr db2" "grow_pool False liquid nv (dgpo db2) = Inr g"
      "adjust_proxied_witness_votes (db2\<lparr>dgpo := g\<rparr>) to (amount nv) 0 = Inr db'"
proof (cases "space (symbol liquid) = SST_nai_space")
  case True
  show ?thesis
  proof (cases "to = freezone_NULL_ACCOUNT")
    case True
    show ?thesis using assms \<open>space (symbol liquid) = SST_nai_space\<close> True
      by (auto simp: create_vesting2_def Let_def rbind_eq_Inr fc_assert_eq_Inr intro: null)
  next
    case False
    show ?thesis using assms \<open>space (symbol liquid) = SST_nai_space\<close> False
      by (auto simp: create_vesting2_def Let_def rbind_eq_Inr fc_assert_eq_Inr get_token_eq_Inr intro: token)
  qed
next
  case False
  show ?thesis
  proof (cases r)
    case True
    show ?thesis using assms False True
      by (auto simp: create_vesting2_def Let_def rbind_eq_Inr fc_assert_eq_Inr intro: reward)
  next
    case nr: False
    show ?thesis using assms False nr
      by (auto simp: create_vesting2_def Let_def rbind_eq_Inr fc_assert_eq_Inr intro: native)
  qed
qed

lemma paired_supply_neutral: "amt s (mk_asset 0 x) = 0"
  by simp

lemma create_vesting2_surplus:
  assumes "create_vesting2 before db to liquid r = Inr (nv, db')" "notifies before" "r \<Longrightarrow> to \<noteq> freezone_NULL_ACCOUNT"
    "r \<Longrightarrow> amount nv \<noteq> 0 \<or> amount liquid = 0"
  shows "surplus s db' = surplus s db + amt s liquid"
  using assms(1)
proof (cases rule: create_vesting2_cases)
  case (null d)
  then show ?thesis using adjust_supply_surplus [OF null(4), of s] amt_neg [OF null(3), of s] notifiesD(1) [OF assms(2)] by simp
next
  case (token t p db1 t1 t2)
  have t1: "tok_liquid_symbol t1 = symbol liquid" and t: "tok_liquid_symbol t = symbol liquid"
    using find_row_key [OF token(7)] find_row_key [OF token(3)] by auto
  note ps = token_price_symbols [OF token(4)]
  have nvs: "symbol nv = get_paired_symbol (symbol liquid)"
    using asset_mul_price_symbol [OF token(5)] ps t paired_differs [OF token(1)] by simp
  note g = grow_token_pool_held [OF token(8)]
  have "find_row tok_liquid_symbol (tok_liquid_symbol t2) (SST_tokens db1) = Some t1"
    using g(2) t1 token(7) nvs by simp
  then have "surplus s db' = surplus s db1 + amt s liquid - amt s nv"
    using surplus_set_token [of t2 db1 t1 s] g(1) [of s] g(3) t1 nvs by (simp add: token(9))
  moreover have "surplus s db1 = surplus s db + amt s nv"
  proof (cases r)
    case True
    show ?thesis
    proof (cases "amount liquid = 0")
      case z: True
      then have "amount nv = 0"
        using token(5) by (auto simp: asset_mul_price_def mul_div_amount_def u128_of_i64_def to_uint64_def u128_hi_def i64_of_u64_def res_simps split: if_splits)
      then show ?thesis using adjust_reward_balance_surplus [of "before nv db" to liquid nv db1 s] token(6) True z notifiesD(1) [OF assms(2)] by simp
    next
      case False
      then show ?thesis using adjust_reward_shares_surplus [of "before nv db" to liquid nv db1 s] token(6) True assms(3,4) notifiesD(1) [OF assms(2)] by simp
    qed
  next
    case False
    then show ?thesis using adjust_balance_of_surplus [of "before nv db" to nv db1 s] token(6) notifiesD(1) [OF assms(2)] by simp
  qed
  ultimately show ?thesis by simp
next
  case (reward p db2 g)
  have "surplus s db' = surplus s db2 + amt s liquid - amt s nv"
    using grow_pool_held [OF reward(6), of s] by (simp add: reward(7) surplus_dgpo)
  moreover have "surplus s db2 = surplus s db + amt s nv"
  proof (cases "amount liquid = 0")
    case z: True
    then have "amount nv = 0"
      using reward(4) by (auto simp: asset_mul_price_def mul_div_amount_def u128_of_i64_def to_uint64_def u128_hi_def i64_of_u64_def res_simps split: if_splits)
    then show ?thesis using adjust_reward_balance_surplus [OF reward(5), of s] z notifiesD(1) [OF assms(2)] by simp
  next
    case False
    then show ?thesis using adjust_reward_shares_surplus [OF reward(5), of s] reward(2) assms(3,4) notifiesD(1) [OF assms(2)] by simp
  qed
  ultimately show ?thesis by simp
next
  case (native p db1 db2 g)
  have 1: "surplus s db1 = surplus s db"
    using native(5) update_account_mana_surplus [of "before nv db" to "amount nv" db1 s] notifiesD(1) [OF assms(2)] by (auto split: if_splits)
  have 2: "surplus s (db2\<lparr>dgpo := g\<rparr>) = surplus s db2 + amt s liquid - amt s nv"
    using grow_pool_held [OF native(7), of s] by (simp add: surplus_dgpo)
  have 3: "surplus s db' = surplus s (db2\<lparr>dgpo := g\<rparr>)" by (rule votes_frameD(1) [OF adjust_proxied_frame [OF native(8)]])
  show ?thesis using 1 2 3 adjust_balance_of_surplus [OF native(6), of s] by simp
qed

lemma share_price_symbols:
  assumes "get_vesting_share_price g = Inr p" "pool_typed g"
  shows "symbol (base p) = VESTS_SYMBOL \<and> symbol (quote p) = freezone_SYMBOL \<or> symbol (base p) = freezone_SYMBOL \<and> symbol (quote p) = VESTS_SYMBOL"
  using assms by (auto simp: get_vesting_share_price_def pool_typed_def res_simps split: if_splits)

lemma share_price_result:
  assumes "get_vesting_share_price g = Inr p" "pool_typed g" "asset_mul_price x p = Inr y"
  shows "symbol x = freezone_SYMBOL \<Longrightarrow> symbol y = VESTS_SYMBOL" "symbol x = VESTS_SYMBOL \<Longrightarrow> symbol y = freezone_SYMBOL"
  using asset_mul_price_symbol [OF assms(3)] share_price_symbols [OF assms(1,2)] by auto

lemma add_vests_effect:
  assumes "adjust_balance_of db name x = Inr db'" "symbol x = VESTS_SYMBOL"
  obtains a where "find_row acc_name name (accounts db) = Some a" "acc_name a = name" "symbol (acc_vesting_shares a) = VESTS_SYMBOL"
    "db' = set_account (a\<lparr>acc_vesting_shares := mk_asset (amount (acc_vesting_shares a) + amount x) VESTS_SYMBOL\<rparr>) db"
proof -
  obtain a b where a: "find_row acc_name name (accounts db) = Some a" "asset_add (acc_vesting_shares a) x = Inr b"
      "db' = set_account (a\<lparr>acc_vesting_shares := b\<rparr>) db"
    using assms by (auto simp: adjust_balance_of_def modify_balance_def res_simps split: if_splits)
  with asset_add_value [OF a(2)] show ?thesis using that find_row_key [OF a(1)] assms(2) by auto
qed

lemma grow_pool_fields:
  assumes "grow_pool False fund shares g = Inr g'"
  shows "amount (gp_total_vesting_shares g') = amount (gp_total_vesting_shares g) + amount shares"
    "amount (gp_total_vesting_fund_freezone g') = amount (gp_total_vesting_fund_freezone g) + amount fund"
    "pool_typed g' = pool_typed g"
  using assms by (auto simp: grow_pool_def res_simps pool_typed_def dest!: asset_add_value)

text \<open>The account that gets native shares, before its proxies are told.\<close>

lemma native_shares_account:
  assumes "(if has_hardfork db 20 then update_account_mana (before nv db) to (amount nv) else Inr (before nv db)) = Inr db1"
    "adjust_balance_of db1 to nv = Inr db2" "symbol nv = VESTS_SYMBOL" "notifies before"
  obtains a a' where "find_row acc_name (acc_name a') (accounts db) = Some a" "acc_name a' = to" "acc_proxy a' = acc_proxy a"
    "acc_proxied_vsf_votes a' = acc_proxied_vsf_votes a" "amount (acc_vesting_shares a') = amount (acc_vesting_shares a) + amount nv"
    "db2 = set_account a' (before nv db)"
proof (cases "has_hardfork db 20")
  case True
  with assms(1) have "update_account_mana (before nv db) to (amount nv) = Inr db1" by simp
  then obtain a m d where a: "find_row acc_name to (accounts db) = Some a"
      "db1 = set_account (a\<lparr>acc_voting_manabar := m, acc_downvote_manabar := d\<rparr>) (before nv db)" "acc_name a = to"
    using update_account_mana_effect [of "before nv db"] notifiesD(4) [OF assms(4)] by metis
  let ?b = "a\<lparr>acc_voting_manabar := m, acc_downvote_manabar := d\<rparr>"
  have f: "find_row acc_name to (accounts db1) = Some ?b"
    using a notifiesD(4) [OF assms(4)] by (simp add: set_account_def table_simps)
  from assms(2,3) obtain c where c: "find_row acc_name to (accounts db1) = Some c"
      "db2 = set_account (c\<lparr>acc_vesting_shares := mk_asset (amount (acc_vesting_shares c) + amount nv) VESTS_SYMBOL\<rparr>) db1"
    by (rule add_vests_effect)
  have "c = ?b" using c(1) f by simp
  then show ?thesis
    using a c(2) by (intro that [of "?b\<lparr>acc_vesting_shares := mk_asset (amount (acc_vesting_shares ?b) + amount nv) VESTS_SYMBOL\<rparr>" a])
      (simp_all add: set_account_twice)
next
  case False
  then have "db1 = before nv db" using assms(1) by simp
  with assms(2,3) obtain c where c: "find_row acc_name to (accounts db) = Some c" "acc_name c = to"
      "db2 = set_account (c\<lparr>acc_vesting_shares := mk_asset (amount (acc_vesting_shares c) + amount nv) VESTS_SYMBOL\<rparr>) (before nv db)"
    using notifiesD(4) [OF assms(4)] by (elim add_vests_effect) simp_all
  then show ?thesis
    by (intro that [of "c\<lparr>acc_vesting_shares := mk_asset (amount (acc_vesting_shares c) + amount nv) VESTS_SYMBOL\<rparr>" c]) simp_all
qed

lemma create_vesting2_votes:
  assumes "create_vesting2 before db to liquid False = Inr (nv, db')" "notifies before" "symbol liquid = freezone_SYMBOL"
    "vote_state_ok db" "pool_typed (dgpo db)"
  shows "vote_state_ok db' \<and> vsf_surplus db' = vsf_surplus db \<and> pool_typed (dgpo db')"
  using assms(1)
proof (cases rule: create_vesting2_cases)
  case (native p db1 db2 g)
  have nv: "symbol nv = VESTS_SYMBOL" using share_price_result(1) [OF native(3) assms(5) native(4,1)] .
  from native(5,6) nv assms(2) obtain a a' where a: "find_row acc_name (acc_name a') (accounts db) = Some a" "acc_name a' = to"
      "acc_proxy a' = acc_proxy a" "acc_proxied_vsf_votes a' = acc_proxied_vsf_votes a"
      "amount (acc_vesting_shares a') = amount (acc_vesting_shares a) + amount nv" "db2 = set_account a' (before nv db)"
    by (rule native_shares_account)
  have t: "accounts (db2\<lparr>dgpo := g\<rparr>) = accounts (set_account a' db)" "witnesses (db2\<lparr>dgpo := g\<rparr>) = witnesses db"
      "witness_votes (db2\<lparr>dgpo := g\<rparr>) = witness_votes db" "dgpo db2 = dgpo db"
    using notifiesD [OF assms(2)] by (simp_all add: a(6) set_account_def)
  have "adjust_proxied_witness_votes (db2\<lparr>dgpo := g\<rparr>) (acc_name a') (amount nv) 0 = Inr db'" using native(8) a(2) by simp
  from shares_change_votes [OF assms(4) a(1,3,4,5) t(1-3) this]
  have v: "vote_state_ok db'" "vsf_total db' = vsf_total db + amount nv" "votes_frame (db2\<lparr>dgpo := g\<rparr>) db'" by auto
  note gf = grow_pool_fields [OF native(7) [unfolded t(4)]]
  have "dgpo db' = g" using votes_frameD(4) [OF v(3)] by simp
  then show ?thesis using v(1,2) gf assms(5) by (simp add: vsf_surplus_def)
qed (use assms(3) in auto)

end
