(* ===== verification/Withdrawals.thy ===== *)
theory Withdrawals
  imports Vesting
begin

text \<open>
  The weekly withdrawals conserve every asset, the votes follow the shares, and no share is paid out
  twice along the routes.
\<close>

section \<open>Steps\<close>

lemma advance_withdraw_effect:
  assumes "advance_withdraw i x h = Inr h'"
  shows "sh_vesting_shares h' = sh_vesting_shares h" "sh_to_withdraw h' = sh_to_withdraw h"
    "sh_delegated_vesting_shares h' = sh_delegated_vesting_shares h" "sh_received_vesting_shares h' = sh_received_vesting_shares h"
    "sh_vesting_withdraw_rate h' = sh_vesting_withdraw_rate h \<or> sh_vesting_withdraw_rate h' = (sh_vesting_withdraw_rate h)\<lparr>amount := 0\<rparr>"
    "sh_withdrawn h' = sh_withdrawn h + x"
  using assms by (auto simp: advance_withdraw_def Let_def res_simps split: if_splits dest!: safe_values)

lemma put_account_fields [simp]:
  "acc_name (put_account_shares h a) = acc_name a" "acc_proxy (put_account_shares h a) = acc_proxy a"
  "acc_proxied_vsf_votes (put_account_shares h a) = acc_proxied_vsf_votes a" "acc_vesting_shares (put_account_shares h a) = sh_vesting_shares h"
  "acc_balance (put_account_shares h a) = acc_balance a" "acc_vesting_withdraw_rate (put_account_shares h a) = sh_vesting_withdraw_rate h"
  "acc_to_withdraw (put_account_shares h a) = sh_to_withdraw h"
  by (simp_all add: put_account_shares_def)

lemma account_shares_fields [simp]:
  "sh_vesting_shares (account_shares a) = acc_vesting_shares a" "sh_vesting_withdraw_rate (account_shares a) = acc_vesting_withdraw_rate a"
  "sh_to_withdraw (account_shares a) = acc_to_withdraw a" "sh_withdrawn (account_shares a) = acc_withdrawn a"
  by (simp_all add: account_shares_def)

lemma put_account_held: "account_held s (put_account_shares h a) = account_held s a + amt s (sh_vesting_shares h) - amt s (acc_vesting_shares a)"
  by (simp add: account_held_def put_account_shares_def)

text \<open>What a withdrawal needs of an account.\<close>

definition withdraw_ok :: "account_object \<Rightarrow> bool" where
  "withdraw_ok a \<longleftrightarrow> symbol (acc_vesting_shares a) = VESTS_SYMBOL \<and>
     0 \<le> amount (acc_vesting_shares a) \<and> amount (acc_vesting_shares a) \<le> i64_max \<and> 0 \<le> amount (acc_vesting_withdraw_rate a) \<and> 0 \<le> acc_to_withdraw a"

definition withdraws_ok :: "database \<Rightarrow> bool" where
  "withdraws_ok db \<longleftrightarrow> (\<forall>a \<in> set (accounts db). withdraw_ok a)"

lemma shares_to_withdraw_bounds:
  assumes "shares_to_withdraw h = Inr x"
  shows "x \<le> amount (sh_vesting_shares h)"
    "0 \<le> amount (sh_vesting_shares h) \<Longrightarrow> 0 \<le> amount (sh_vesting_withdraw_rate h) \<Longrightarrow> 0 \<le> sh_to_withdraw h \<Longrightarrow> 0 \<le> x"
proof -
  have m: "0 \<le> z" if "safe_mod a b = Inr z" "0 \<le> a" "0 \<le> b" for a b z
    using that by (auto simp: safe_mod_def smod_int_alt_def sgn_if split: if_splits)
  show "x \<le> amount (sh_vesting_shares h)"
    using assms by (auto simp: shares_to_withdraw_def res_simps split: if_splits)
  show "0 \<le> amount (sh_vesting_shares h) \<Longrightarrow> 0 \<le> amount (sh_vesting_withdraw_rate h) \<Longrightarrow> 0 \<le> sh_to_withdraw h \<Longrightarrow> 0 \<le> x"
    using assms m by (auto simp: shares_to_withdraw_def res_simps split: if_splits)
qed

lemma withdraws_ok_account: "withdraws_ok db \<Longrightarrow> find_row acc_name n (accounts db) = Some a \<Longrightarrow> withdraw_ok a"
  by (auto simp: withdraws_ok_def dest: find_row_in_set)

lemma withdraws_ok_set_account: "withdraws_ok db \<Longrightarrow> withdraw_ok a \<Longrightarrow> withdraws_ok (set_account a db)"
  using set_update_row [of acc_name "acc_name a" a "accounts db"] by (auto simp: withdraws_ok_def set_account_def)

lemma withdraw_ok_strip: "withdraw_ok (strip a) = withdraw_ok a"
  by (simp add: withdraw_ok_def strip_def)

lemma withdraws_ok_frame: "votes_frame db db' \<Longrightarrow> withdraws_ok db' = withdraws_ok db"
proof -
  assume "votes_frame db db'"
  then have "map strip (accounts db') = map strip (accounts db)" by (auto simp: votes_frame_def)
  from arg_cong [OF this, of "\<lambda>xs. list_all withdraw_ok xs"] show ?thesis
    by (simp add: withdraws_ok_def list_all_iff withdraw_ok_strip)
qed

lemma route_share_bounds:
  assumes "route_share x r = Inr y" "0 \<le> x" "x \<le> i64_max" "uint (wr_percent r) \<le> freezone_100_PERCENT"
  shows "y = x * uint (wr_percent r) div freezone_100_PERCENT" "0 \<le> y" "y \<le> x"
proof -
  let ?p = "uint (wr_percent r)"
  have p: "0 \<le> ?p" "?p \<le> 10000" using assms(4) by (simp_all add: freezone_100_PERCENT_def)
  have b: "0 \<le> x * ?p div 10000" "x * ?p div 10000 \<le> x"
    using assms(2) p mult_left_mono [of ?p 10000 x] zdiv_mono1 [of "x * ?p" "x * 10000" 10000] by (auto simp: pos_imp_zdiv_nonneg_iff)
  have "(ucast (wr_percent r) :: 128 word) = u128_of_i64 ?p"
    by (simp only: u128_of_i64_def ucast_eq)
  then have u: "uint (u128_of_i64 x * ucast (wr_percent r) div u128_of_i64 freezone_100_PERCENT) = x * ?p div 10000"
    using mul_div_word [of x ?p 10000] assms(2,3) p by (simp add: freezone_100_PERCENT_def)
  let ?q = "u128_of_i64 x * ucast (wr_percent r) div u128_of_i64 freezone_100_PERCENT"
  have y: "y = i64_of_u64 (ucast ?q)" using assms(1) by (auto simp: route_share_def to_uint64_def res_simps)
  have "uint (ucast ?q :: 64 word) = take_bit 64 (uint ?q)" by (rule unsigned_ucast_eq [THEN trans]) simp
  also have "\<dots> = uint ?q" using b assms(3) by (intro take_bit_int_eq_self) (simp_all only: u, simp_all)
  finally have "uint (ucast ?q :: 64 word) = uint ?q" .
  then have "y = x * ?p div 10000" using y u b assms(3) by (simp add: i64_of_u64_small)
  then show "y = x * ?p div freezone_100_PERCENT" "0 \<le> y" "y \<le> x" using b by (simp_all add: freezone_100_PERCENT_def)
qed

lemma safe_add_range: "safe_add a b = Inr c \<Longrightarrow> a \<le> i64_max \<Longrightarrow> c \<le> i64_max"
  by (auto simp: safe_add_def split: if_splits)

section \<open>The routes of one account\<close>

text \<open>
  While the routes of an account are paid, \<open>d\<close> shares have been handed out that are still counted
  at the account itself.
\<close>

definition pays :: "account_name_type \<Rightarrow> database \<Rightarrow> share_type \<Rightarrow> database \<Rightarrow> bool" where
  "pays from db0 d db \<longleftrightarrow>
     vote_state_ok db \<and> pool_typed (dgpo db) \<and> withdraws_ok db \<and> withdraw_vesting_routes db = withdraw_vesting_routes db0 \<and>
     vsf_surplus db = vsf_surplus db0 + d \<and>
     (\<forall>s. surplus s db = surplus s db0 + (if s = VESTS_SYMBOL then d else 0)) \<and>
     (\<exists>a0 a. find_row acc_name from (accounts db0) = Some a0 \<and> find_row acc_name from (accounts db) = Some a \<and>
        amount (acc_vesting_shares a0) \<le> amount (acc_vesting_shares a))"

lemma push_fields [simp]:
  "accounts (push_virtual_operation db v) = accounts db" "witnesses (push_virtual_operation db v) = witnesses db"
  "witness_votes (push_virtual_operation db v) = witness_votes db" "dgpo (push_virtual_operation db v) = dgpo db"
  "withdraw_vesting_routes (push_virtual_operation db v) = withdraw_vesting_routes db"
  by (simp_all add: push_virtual_operation_def)

lemma set_account_fields [simp]:
  "witnesses (set_account a db) = witnesses db" "witness_votes (set_account a db) = witness_votes db"
  "dgpo (set_account a db) = dgpo db" "withdraw_vesting_routes (set_account a db) = withdraw_vesting_routes db"
  by (simp_all add: set_account_def)

lemma find_account_set:
  "find_row acc_name (acc_name a) (accounts db) = Some a0 \<Longrightarrow>
   find_row acc_name n (accounts (set_account a db)) = (if n = acc_name a then Some a else find_row acc_name n (accounts db))"
  by (simp add: set_account_def table_simps)

lemma votes_frame_routes: "votes_frame db db' \<Longrightarrow> withdraw_vesting_routes db' = withdraw_vesting_routes db"
  by (auto simp: votes_frame_def)

lemma votes_frame_vests:
  assumes "votes_frame db db'" "find_row acc_name n (accounts db) = Some a"
  obtains a' where "find_row acc_name n (accounts db') = Some a'" "acc_vesting_shares a' = acc_vesting_shares a"
  using votes_frameD(7) [OF assms(1), of n] assms(2) by (auto) (metis strip_simps(6))

lemma route_to_vests_pays:
  assumes "route_to_vests from tw r (d, db) = Inr (d', db')" "pays from db0 d db" "0 \<le> tw" "tw \<le> i64_max"
    "uint (wr_percent r) \<le> freezone_100_PERCENT"
  shows "pays from db0 d' db'"
proof (cases "wr_auto_vest r")
  case False
  then show ?thesis using assms(1,2) by (simp add: route_to_vests_def)
next
  case True
  then obtain x where x: "route_share tw r = Inr x" "safe_add d x = Inr d'"
    using assms(1) by (auto simp: route_to_vests_def rbind_eq_Inr split: if_splits)
  have d: "d' = d + x" "0 \<le> x" using safe_add_value [OF x(2)] route_share_bounds(2) [OF x(1) assms(3-5)] by auto
  show ?thesis
  proof (cases "x > 0")
    case False
    then show ?thesis using assms(1,2) True x d by (simp add: route_to_vests_def)
  next
    case pos: True
    obtain t a n v where t: "find_row acc_name t (accounts db) = Some a" "safe_add (amount (acc_vesting_shares a)) x = Inr n"
        "adjust_proxied_witness_votes (set_account (a\<lparr>acc_vesting_shares := (acc_vesting_shares a)\<lparr>amount := n\<rparr>\<rparr>)
           (push_virtual_operation db v)) t x 0 = Inr db'"
      using assms(1) True x pos by (auto simp: route_to_vests_def add_vesting_shares_def Let_def res_simps)
    let ?a = "a\<lparr>acc_vesting_shares := (acc_vesting_shares a)\<lparr>amount := n\<rparr>\<rparr>"
    let ?db = "set_account ?a (push_virtual_operation db v)"
    have nm: "acc_name a = t" by (rule find_row_key [OF t(1)])
    have n: "n = amount (acc_vesting_shares a) + x" "amount (acc_vesting_shares a) \<le> i64_max \<Longrightarrow> n \<le> i64_max"
      using safe_add_value [OF t(2)] safe_add_range [OF t(2)] by auto
    have p: "vote_state_ok db" "pool_typed (dgpo db)" "withdraws_ok db" "withdraw_vesting_routes db = withdraw_vesting_routes db0"
        "vsf_surplus db = vsf_surplus db0 + d" "\<And>s. surplus s db = surplus s db0 + (if s = VESTS_SYMBOL then d else 0)"
      using assms(2) by (auto simp: pays_def)
    obtain f0 f where f: "find_row acc_name from (accounts db0) = Some f0" "find_row acc_name from (accounts db) = Some f"
        "amount (acc_vesting_shares f0) \<le> amount (acc_vesting_shares f)"
      using assms(2) by (auto simp: pays_def)
    have fa: "find_row acc_name (acc_name ?a) (accounts db) = Some a" using t(1) nm by simp
    have "vote_state_ok db' \<and> vsf_total db' = vsf_total db + x \<and> votes_frame ?db db'"
      using t(3) nm n(1) by (intro shares_change_votes [OF p(1) fa, where ?db1.0 = ?db]) (simp_all add: set_account_def)
    then have v: "vote_state_ok db'" "vsf_total db' = vsf_total db + x" and fr: "votes_frame ?db db'" by auto
    have wa: "withdraw_ok a" by (rule withdraws_ok_account [OF p(3) t(1)])
    have "withdraws_ok db'" unfolding withdraws_ok_frame [OF fr]
      using p(3) wa n d(2) by (intro withdraws_ok_set_account) (auto simp: withdraw_ok_def withdraws_ok_def)
    moreover have "surplus s db' = surplus s db0 + (if s = VESTS_SYMBOL then d' else 0)" for s
    proof -
      have "surplus s db' = surplus s ?db" by (rule votes_frameD(1) [OF fr])
      also have "\<dots> = surplus s (push_virtual_operation db v) + account_held s ?a - account_held s a"
        using fa by (intro surplus_set_account) simp
      also have "account_held s ?a = account_held s a + (if s = VESTS_SYMBOL then x else 0)"
        using wa n(1) by (simp add: account_held_def amt_def withdraw_ok_def)
      finally show ?thesis using p(6) [of s] d(1) by (simp add: ledger_simps)
    qed
    moreover have "\<exists>f'. find_row acc_name from (accounts db') = Some f' \<and> amount (acc_vesting_shares f0) \<le> amount (acc_vesting_shares f')"
    proof -
      have "find_row acc_name from (accounts ?db) = Some (if from = t then ?a else f)"
        using fa f(2) nm find_account_set [of ?a "push_virtual_operation db v" a "from"] by simp
      then obtain f' where "find_row acc_name from (accounts db') = Some f'" "acc_vesting_shares f' = acc_vesting_shares (if from = t then ?a else f)"
        by (rule votes_frame_vests [OF fr])
      then show ?thesis using f t(1) n(1) d(2) by (auto split: if_splits)
    qed
    ultimately show ?thesis
      using v p(2,4,5) d(1) f(1) votes_frameD(4) [OF fr] votes_frame_routes [OF fr] unfolding pays_def vsf_surplus_def by auto
  qed
qed

lemma shrink_pool_effect:
  assumes "shrink_pool fund shares db = Inr db'"
  obtains f sh where "db' = db\<lparr>dgpo := (dgpo db)\<lparr>gp_total_vesting_fund_freezone := f, gp_total_vesting_shares := sh\<rparr>\<rparr>"
    "f = mk_asset (amount (gp_total_vesting_fund_freezone (dgpo db)) - amount fund) (symbol fund)"
    "symbol (gp_total_vesting_fund_freezone (dgpo db)) = symbol fund"
    "sh = (gp_total_vesting_shares (dgpo db))\<lparr>amount := amount (gp_total_vesting_shares (dgpo db)) - shares\<rparr>"
proof -
  let ?g = "dgpo db"
  obtain f n where e: "asset_sub (gp_total_vesting_fund_freezone ?g) fund = Inr f" "safe_sub (amount (gp_total_vesting_shares ?g)) shares = Inr n"
      "db' = db\<lparr>dgpo := ?g\<lparr>gp_total_vesting_fund_freezone := f, gp_total_vesting_shares := (gp_total_vesting_shares ?g)\<lparr>amount := n\<rparr>\<rparr>\<rparr>"
    using assms by (auto simp: shrink_pool_def Let_def rbind_eq_Inr)
  show ?thesis using asset_sub_value [OF e(1)] safe_sub_value [OF e(2)] by (intro that [OF e(3)]) auto
qed

lemma shrink_pool_surplus:
  assumes "shrink_pool fund shares db = Inr db'" "pool_typed (dgpo db)"
  shows "surplus s db' = surplus s db - amt s fund + (if s = VESTS_SYMBOL then shares else 0)"
    "vsf_surplus db' = vsf_surplus db + shares" "pool_typed (dgpo db')" "vote_state_ok db' = vote_state_ok db"
    "withdraw_vesting_routes db' = withdraw_vesting_routes db" "accounts db' = accounts db" "vsf_total db' = vsf_total db"
    "witnesses db' = witnesses db" "witness_votes db' = witness_votes db" "head_block_time db' = head_block_time db"
proof -
  obtain f sh where e: "db' = db\<lparr>dgpo := (dgpo db)\<lparr>gp_total_vesting_fund_freezone := f, gp_total_vesting_shares := sh\<rparr>\<rparr>"
    "f = mk_asset (amount (gp_total_vesting_fund_freezone (dgpo db)) - amount fund) (symbol fund)"
    "symbol (gp_total_vesting_fund_freezone (dgpo db)) = symbol fund"
    "sh = (gp_total_vesting_shares (dgpo db))\<lparr>amount := amount (gp_total_vesting_shares (dgpo db)) - shares\<rparr>"
    by (rule shrink_pool_effect [OF assms(1)])
  have t: "symbol fund = freezone_SYMBOL" "symbol (gp_total_vesting_shares (dgpo db)) = VESTS_SYMBOL"
    using assms(2) e(3) by (auto simp: pool_typed_def)
  show "surplus s db' = surplus s db - amt s fund + (if s = VESTS_SYMBOL then shares else 0)"
    using t e(3) by (simp add: e(1,2,4) surplus_dgpo gp_held_def gp_issued_def amt_def)
  show c: "accounts db' = accounts db" "witnesses db' = witnesses db" "witness_votes db' = witness_votes db"
    "head_block_time db' = head_block_time db" "withdraw_vesting_routes db' = withdraw_vesting_routes db"
    by (simp_all add: e(1) head_block_time_def)
  note k = votes_tables_cong [OF c(1-3)]
  show "vsf_total db' = vsf_total db" "vote_state_ok db' = vote_state_ok db" using k by auto
  then show "vsf_surplus db' = vsf_surplus db + shares" by (simp add: vsf_surplus_def) (simp add: e)
  show "pool_typed (dgpo db')" using t by (simp add: e pool_typed_def)
qed

lemma route_to_liquid_pays:
  assumes "route_to_liquid from tw r (d, t, db) = Inr (d', t', db')" "pays from db0 d db" "0 \<le> tw" "tw \<le> i64_max"
    "uint (wr_percent r) \<le> freezone_100_PERCENT"
  shows "pays from db0 d' db'"
proof (cases "wr_auto_vest r")
  case True
  then show ?thesis using assms(1,2) by (simp add: route_to_liquid_def)
next
  case False
  then obtain x p c where x: "route_share tw r = Inr x" "safe_add d x = Inr d'" "get_vesting_share_price (dgpo db) = Inr p"
      "asset_mul_price (mk_asset x VESTS_SYMBOL) p = Inr c"
    using assms(1) by (auto simp: route_to_liquid_def rbind_eq_Inr Let_def split: if_splits)
  have d: "d' = d + x" "0 \<le> x" using safe_add_value [OF x(2)] route_share_bounds(2) [OF x(1) assms(3-5)] by auto
  show ?thesis
  proof (cases "x > 0")
    case False
    then show ?thesis using assms(1,2) \<open>\<not> wr_auto_vest r\<close> x d by (auto simp: route_to_liquid_def rbind_eq_Inr)
  next
    case True
    obtain n a b v where t: "find_row acc_name n (accounts db) = Some a" "asset_add (acc_balance a) c = Inr b"
        "shrink_pool c x (set_account (a\<lparr>acc_balance := b\<rparr>) (push_virtual_operation db v)) = Inr db'"
      using assms(1) \<open>\<not> wr_auto_vest r\<close> x True by (auto simp: route_to_liquid_def Let_def res_simps)
    let ?a = "a\<lparr>acc_balance := b\<rparr>"
    let ?db = "set_account ?a (push_virtual_operation db v)"
    have nm: "acc_name a = n" by (rule find_row_key [OF t(1)])
    have p: "vote_state_ok db" "pool_typed (dgpo db)" "withdraws_ok db" "withdraw_vesting_routes db = withdraw_vesting_routes db0"
        "vsf_surplus db = vsf_surplus db0 + d" "\<And>s. surplus s db = surplus s db0 + (if s = VESTS_SYMBOL then d else 0)"
      using assms(2) by (auto simp: pays_def)
    obtain f0 f where f: "find_row acc_name from (accounts db0) = Some f0" "find_row acc_name from (accounts db) = Some f"
        "amount (acc_vesting_shares f0) \<le> amount (acc_vesting_shares f)"
      using assms(2) by (auto simp: pays_def)
    have fa: "find_row acc_name (acc_name ?a) (accounts (push_virtual_operation db v)) = Some a" using t(1) nm by simp
    have "votes_untouched db ?db" by (rule set_account_untouched [OF fa]) (simp_all add: vote_view_def)
    note u = votes_untouchedD [OF this]
    have pt: "pool_typed (dgpo ?db)" using p(2) by simp
    note s = shrink_pool_surplus [OF t(3) pt]
    have "withdraw_ok ?a" using withdraws_ok_account [OF p(3) t(1)] by (simp add: withdraw_ok_def)
    then have "withdraws_ok ?db" using p(3) by (intro withdraws_ok_set_account) (auto simp: withdraws_ok_def)
    then have "withdraws_ok db'" by (simp add: withdraws_ok_def s(6))
    moreover have "surplus sy db' = surplus sy db0 + (if sy = VESTS_SYMBOL then d' else 0)" for sy
    proof -
      have "surplus sy ?db = surplus sy (push_virtual_operation db v) + account_held sy ?a - account_held sy a"
        by (rule surplus_set_account [OF fa])
      also have "account_held sy ?a = account_held sy a + amt sy c"
        using amt_ops(1) [OF t(2), where s = sy] by (simp add: account_held_def)
      finally show ?thesis using p(6) [of sy] d(1) s(1) [of sy] by (simp add: ledger_simps)
    qed
    moreover have "find_row acc_name from (accounts db') = Some (if from = n then ?a else f)"
      using find_account_set [OF fa, of "from"] f(2) nm by (simp add: s(6))
    ultimately show ?thesis
      using u s(2-5) p d(1) f t(1) nm unfolding pays_def by (auto split: if_splits)
  qed
qed

text \<open>What the routes of an account give away, in hundredths of a percent, and whether it is at most everything.\<close>

definition routed :: "database \<Rightarrow> account_name_type \<Rightarrow> int" where
  "routed db n = sum_list (map (\<lambda>r. uint (wr_percent r)) (routes_of db n))"

definition routes_bounded :: "database \<Rightarrow> bool" where
  "routes_bounded db \<longleftrightarrow> (\<forall>n. routed db n \<le> freezone_100_PERCENT)"

lemma sum_rows_member: "(\<And>r. 0 \<le> f r) \<Longrightarrow> r \<in> set rs \<Longrightarrow> f r \<le> sum_list (map f rs)" for f :: "_ \<Rightarrow> int"
proof (induction rs)
  case (Cons a rs)
  have "0 \<le> sum_list (map f rs)" using Cons.prems(1) by (intro sum_list_nonneg) auto
  then show ?case using Cons by (auto intro: add_increasing)
qed simp

lemma routes_bounded_percent: "routes_bounded db \<Longrightarrow> r \<in> set (routes_of db n) \<Longrightarrow> uint (wr_percent r) \<le> freezone_100_PERCENT"
proof -
  assume "routes_bounded db" "r \<in> set (routes_of db n)"
  then have "uint (wr_percent r) \<le> routed db n" "routed db n \<le> freezone_100_PERCENT"
    unfolding routed_def by (auto intro: sum_rows_member simp: routes_bounded_def routed_def)
  then show ?thesis by (rule order_trans)
qed

lemma routes_bounded_cong: "withdraw_vesting_routes db' = withdraw_vesting_routes db \<Longrightarrow> routes_bounded db' = routes_bounded db"
  by (simp add: routes_bounded_def routed_def routes_of_def)

definition withdrawals_ok :: "database \<Rightarrow> bool" where
  "withdrawals_ok db \<longleftrightarrow> vote_state_ok db \<and> pool_typed (dgpo db) \<and> withdraws_ok db \<and> routes_bounded db"

lemma withdraw_account_step_cases:
  assumes "withdraw_account_step from db = Inr db'"
  obtains a0 tw dv db1 df t db2 x tc p c a v b h db4 vo where
    "find_row acc_name from (accounts db) = Some a0" "shares_to_withdraw (account_shares a0) = Inr tw"
    "rfold (route_to_vests from tw) (routes_of db from) (0, db) = Inr (dv, db1)"
    "rfold (route_to_liquid from tw) (routes_of db1 from) (0, mk_asset 0 freezone_SYMBOL, db1) = Inr (df, t, db2)"
    "safe_sub tw df = Inr x" "safe_sub x dv = Inr tc" "0 \<le> tc" "get_vesting_share_price (dgpo db2) = Inr p"
    "asset_mul_price (mk_asset tc VESTS_SYMBOL) p = Inr c" "find_row acc_name from (accounts db2) = Some a"
    "safe_sub (amount (acc_vesting_shares a)) tw = Inr v" "asset_add (acc_balance a) c = Inr b"
    "advance_withdraw freezone_VESTING_WITHDRAW_INTERVAL_SECONDS tw
        (account_shares (a\<lparr>acc_vesting_shares := (acc_vesting_shares a)\<lparr>amount := v\<rparr>, acc_balance := b\<rparr>)) = Inr h"
    "shrink_pool c tc (set_account (put_account_shares h (a\<lparr>acc_vesting_shares := (acc_vesting_shares a)\<lparr>amount := v\<rparr>, acc_balance := b\<rparr>))
        (push_virtual_operation db2 vo)) = Inr db4"
    "(if tw > 0 then rbind (safe_neg tw) (\<lambda>d. adjust_proxied_witness_votes db4 from d 0) else Inr db4) = Inr db'"
  using assms unfolding withdraw_account_step_def Let_def
  by (simp only: rbind_eq_Inr fc_assert_eq_Inr get_account_eq_Inr split_paired_Ex prod.case push_fields) (elim exE conjE)

lemma rfold_vests_pays:
  assumes "rfold (route_to_vests from tw) rs (d, db) = Inr (d', db')" "pays from db0 d db" "0 \<le> tw" "tw \<le> i64_max"
    "\<forall>r \<in> set rs. uint (wr_percent r) \<le> freezone_100_PERCENT"
  shows "pays from db0 d' db'"
  using rfold_invariant [OF assms(1), of "\<lambda>(d, db). pays from db0 d db"] assms(2-5) route_to_vests_pays by fastforce

lemma rfold_liquid_pays:
  assumes "rfold (route_to_liquid from tw) rs (d, t, db) = Inr (d', t', db')" "pays from db0 d db" "0 \<le> tw" "tw \<le> i64_max"
    "\<forall>r \<in> set rs. uint (wr_percent r) \<le> freezone_100_PERCENT"
  shows "pays from db0 d' db'"
  using rfold_invariant [OF assms(1), of "\<lambda>(d, t, db). pays from db0 d db"] assms(2-5) route_to_liquid_pays by fastforce

lemma pays_trans: "pays from db0 d db1 \<Longrightarrow> pays from db1 e db2 \<Longrightarrow> pays from db0 (d + e) db2"
  by (fastforce simp: pays_def)

lemma pays_refl: "withdrawals_ok db \<Longrightarrow> find_row acc_name from (accounts db) = Some a \<Longrightarrow> pays from db 0 db"
  by (simp add: pays_def withdrawals_ok_def)

text \<open>The shares leave the account and the votes that follow it.\<close>

lemma withdrawal_votes:
  assumes "(if tw > 0 then rbind (safe_neg tw) (\<lambda>d. adjust_proxied_witness_votes db1 from d 0) else Inr db1) = Inr db'" "0 \<le> tw"
    "vote_state_ok db" "find_row acc_name from (accounts db) = Some a" "acc_name a' = acc_name a" "acc_proxy a' = acc_proxy a"
    "acc_proxied_vsf_votes a' = acc_proxied_vsf_votes a" "acc_vesting_shares a' = (acc_vesting_shares a)\<lparr>amount := amount (acc_vesting_shares a) - tw\<rparr>"
    "accounts db1 = accounts (set_account a' db)" "witnesses db1 = witnesses db" "witness_votes db1 = witness_votes db"
  shows "vote_state_ok db'" "vsf_total db' = vsf_total db - tw" "votes_frame db1 db'"
proof -
  have f: "find_row acc_name (acc_name a') (accounts db) = Some a" "acc_name a' = from" using assms(4,5) find_row_key [OF assms(4)] by auto
  have "vote_state_ok db' \<and> vsf_total db' = vsf_total db - tw \<and> votes_frame db1 db'"
  proof (cases "tw > 0")
    case True
    then have "adjust_proxied_witness_votes db1 (acc_name a') (- tw) 0 = Inr db'"
      using assms(1) f(2) by (auto simp: rbind_eq_Inr dest!: safe_neg_value)
    then have "vote_state_ok db' \<and> vsf_total db' = vsf_total db + - tw \<and> votes_frame db1 db'"
      using assms(6-11) by (intro shares_change_votes [OF assms(3) f(1)]) simp_all
    then show ?thesis by simp
  next
    case False
    then have "tw = 0" "db' = db1" using assms(1,2) by auto
    moreover have "votes_untouched db (set_account a' db)"
      using f assms(5-8) \<open>tw = 0\<close> by (intro set_account_untouched [OF f(1)]) (simp_all add: vote_view_def)
    note votes_untouchedD [OF this]
    moreover note votes_tables_cong [of db1 "set_account a' db"]
    ultimately show ?thesis using assms(3,9-11) by simp
  qed
  then show "vote_state_ok db'" "vsf_total db' = vsf_total db - tw" "votes_frame db1 db'" by auto
qed

lemma withdraw_account_step_effect:
  assumes "withdraw_account_step from db = Inr db'" "withdrawals_ok db"
  shows "withdrawals_ok db' \<and> surplus s db' = surplus s db \<and> vsf_surplus db' = vsf_surplus db"
  using assms(1)
proof (cases rule: withdraw_account_step_cases)
  case (1 a0 tw dv db1 df t db2 x tc p c a v b h db4 vo)
  have ok: "withdraws_ok db" "routes_bounded db" using assms(2) by (auto simp: withdrawals_ok_def)
  have w0: "withdraw_ok a0" by (rule withdraws_ok_account [OF ok(1) 1(1)])
  have tw: "0 \<le> tw" "tw \<le> i64_max" "tw \<le> amount (acc_vesting_shares a0)"
    using shares_to_withdraw_bounds [OF 1(2)] w0 by (auto simp: withdraw_ok_def)
  have p1: "pays from db dv db1"
    using routes_bounded_percent [OF ok(2)] by (intro rfold_vests_pays [OF 1(3) pays_refl [OF assms(2) 1(1)] tw(1,2)]) blast
  then have r1: "routes_bounded db1" using ok(2) routes_bounded_cong [of db1 db] by (simp add: pays_def)
  obtain a1 where a1: "find_row acc_name from (accounts db1) = Some a1" using p1 by (auto simp: pays_def)
  have "pays from db1 0 db1" using p1 r1 by (intro pays_refl [OF _ a1]) (auto simp: pays_def withdrawals_ok_def)
  then have "pays from db1 df db2" using routes_bounded_percent [OF r1] by (intro rfold_liquid_pays [OF 1(4) _ tw(1,2)]) blast+
  with p1 have p2: "pays from db (dv + df) db2" by (rule pays_trans)
  then have q: "vote_state_ok db2" "pool_typed (dgpo db2)" "withdraws_ok db2" "routes_bounded db2" "vsf_surplus db2 = vsf_surplus db + (dv + df)"
      "\<And>s. surplus s db2 = surplus s db + (if s = VESTS_SYMBOL then dv + df else 0)" "amount (acc_vesting_shares a0) \<le> amount (acc_vesting_shares a)"
    using ok(2) 1(1,10) routes_bounded_cong [of db2 db] by (auto simp: pays_def)
  let ?a1 = "a\<lparr>acc_vesting_shares := (acc_vesting_shares a)\<lparr>amount := v\<rparr>, acc_balance := b\<rparr>"
  let ?a = "put_account_shares h ?a1"
  let ?db = "set_account ?a (push_virtual_operation db2 vo)"
  have v: "v = amount (acc_vesting_shares a) - tw" "tc = tw - df - dv" using safe_sub_value [OF 1(11)] safe_sub_value [OF 1(5)] safe_sub_value [OF 1(6)] by auto
  note h = advance_withdraw_effect [OF 1(13)]
  have fa: "find_row acc_name (acc_name ?a) (accounts (push_virtual_operation db2 vo)) = Some a" using 1(10) find_row_key [OF 1(10)] by simp
  have wa: "withdraw_ok a" by (rule withdraws_ok_account [OF q(3) 1(10)])
  have pt: "pool_typed (dgpo ?db)" using q(2) by simp
  note s = shrink_pool_surplus [OF 1(14) pt]
  have vs: "acc_vesting_shares ?a = (acc_vesting_shares a)\<lparr>amount := amount (acc_vesting_shares a) - tw\<rparr>" using h(1) v(1) by simp
  have l: "vote_state_ok db'" "vsf_total db' = vsf_total db2 - tw" "votes_frame db4 db'"
    using s(6,8,9) by (intro withdrawal_votes [OF 1(15) tw(1) q(1) 1(10) _ _ _ vs]; simp add: set_account_def)+
  have "withdraw_ok ?a" using wa tw q(7) h v(1) by (auto simp: withdraw_ok_def)
  then have "withdraws_ok ?db" using q(3) by (intro withdraws_ok_set_account) (auto simp: withdraws_ok_def)
  then have "withdraws_ok db'" using withdraws_ok_frame [OF l(3)] by (simp add: withdraws_ok_def s(6))
  moreover have "surplus s db' = surplus s db"
  proof -
    have "surplus s db' = surplus s ?db - amt s c + (if s = VESTS_SYMBOL then tc else 0)" using votes_frameD(1) [OF l(3)] s(1) by simp
    also have "surplus s ?db = surplus s (push_virtual_operation db2 vo) + account_held s ?a - account_held s a"
      by (rule surplus_set_account [OF fa])
    also have "account_held s ?a = account_held s a + amt s c - (if s = VESTS_SYMBOL then tw else 0)"
    proof -
      have "account_held s ?a = account_held s ?a1" using h(1) by (simp add: put_account_held)
      also have "\<dots> = account_held s a + (amt s b - amt s (acc_balance a)) + (if s = VESTS_SYMBOL then - tw else 0)"
        using wa v(1) by (simp add: account_held_def amt_def withdraw_ok_def)
      finally show ?thesis using amt_ops(1) [OF 1(12), where s = s] by simp
    qed
    finally show ?thesis using q(6) [of s] v(2) by (simp add: ledger_simps)
  qed
  moreover have "vsf_surplus db' = vsf_surplus db"
    using l(2) votes_frameD(4) [OF l(3)] s(2,7) q(5) v(2) by (simp add: vsf_surplus_def)
  ultimately show ?thesis
    using l q(4) s(3,5) votes_frameD(4) [OF l(3)] votes_frame_routes [OF l(3)] routes_bounded_cong [of db' db2] by (simp add: withdrawals_ok_def)
qed

section \<open>The token balances\<close>

lemma withdraw_token_step_cases:
  assumes "withdraw_token_step key db = Inr db'"
  obtains b t tw p c v l h f sh vo where
    "find_row arb_key key (regular_balances db) = Some b" "find_row tok_liquid_symbol (symbol (arb_liquid b)) (SST_tokens db) = Some t"
    "tok_get_vesting_share_price t = Inr p" "asset_mul_price (mk_asset tw (get_paired_symbol (tok_liquid_symbol t))) p = Inr c"
    "asset_sub (arb_vesting_shares b) (mk_asset tw (get_paired_symbol (tok_liquid_symbol t))) = Inr v" "asset_add (arb_liquid b) c = Inr l"
    "advance_withdraw SST_VESTING_WITHDRAW_INTERVAL_SECONDS tw (balance_shares (b\<lparr>arb_vesting_shares := v, arb_liquid := l\<rparr>)) = Inr h"
    "safe_sub (tok_total_vesting_fund_SST t) (amount c) = Inr f" "safe_sub (tok_total_vesting_shares t) tw = Inr sh"
    "db' = set_token (t\<lparr>tok_total_vesting_fund_SST := f, tok_total_vesting_shares := sh\<rparr>)
       ((push_virtual_operation db vo)\<lparr>regular_balances :=
          update_row arb_key key (put_balance_shares h (b\<lparr>arb_vesting_shares := v, arb_liquid := l\<rparr>)) (regular_balances db)\<rparr>)"
proof -
  have r: "regular_balances (push_virtual_operation d v) = regular_balances d" for d v by (simp add: push_virtual_operation_def)
  show ?thesis
    using assms unfolding withdraw_token_step_def Let_def
    by (simp only: rbind_eq_Inr get_row_eq_Inr get_token_eq_Inr sum.inject r) (elim exE conjE, rule that, assumption+, rule sym, assumption)
qed

lemma withdraw_token_step_effect:
  assumes "withdraw_token_step key db = Inr db'" "withdrawals_ok db"
  shows "withdrawals_ok db' \<and> surplus s db' = surplus s db \<and> vsf_surplus db' = vsf_surplus db"
  using assms(1)
proof (cases rule: withdraw_token_step_cases)
  case (1 b t tw p c v l h f sh vo)
  let ?wt = "mk_asset tw (get_paired_symbol (tok_liquid_symbol t))" and ?b = "put_balance_shares h (b\<lparr>arb_vesting_shares := v, arb_liquid := l\<rparr>)"
  let ?t = "t\<lparr>tok_total_vesting_fund_SST := f, tok_total_vesting_shares := sh\<rparr>"
  let ?db = "(push_virtual_operation db vo)\<lparr>regular_balances := update_row arb_key key ?b (regular_balances db)\<rparr>"
  have t: "tok_liquid_symbol t = symbol (arb_liquid b)" using find_row_key [OF 1(2)] .
  have cs: "symbol c = tok_liquid_symbol t"
    using asset_mul_price_symbol [OF 1(4)] token_price_symbols [of False t p] 1(3) by auto
  have h1: "sh_vesting_shares h = v" using advance_withdraw_effect(1) [OF 1(7)] by (simp add: balance_shares_def)
  have k: "arb_key ?b = key" "find_row arb_key key (regular_balances db) = Some b"
    using find_row_key [OF 1(1)] asset_add_value [OF 1(6)] 1(1) by (simp_all add: put_balance_shares_def arb_key_def)
  have "arb_held s ?b = arb_held s b - amt s ?wt + amt s c"
    using amt_ops(1) [OF 1(6), where s = s] amt_ops(2) [OF 1(5), where s = s] h1 by (simp add: arb_held_def put_balance_shares_def)
  then have "surplus s ?db = surplus s db - amt s ?wt + amt s c"
    using k by (simp add: surplus_regular_balances table_simps ledger_simps push_virtual_operation_def)
  moreover have "token_held s ?t - token_issued s ?t = token_held s t - token_issued s t - amt s c + amt s ?wt"
    using safe_sub_value [OF 1(8)] safe_sub_value [OF 1(9)] cs by (simp add: token_held_def token_issued_def amt_def)
  moreover have "find_row tok_liquid_symbol (tok_liquid_symbol ?t) (SST_tokens ?db) = Some t"
    using 1(2) t by (simp add: push_virtual_operation_def)
  ultimately have s: "surplus s db' = surplus s db" using surplus_set_token [of ?t ?db t s] 1(10) by simp
  have u: "votes_untouched db db'" by (simp add: 1(10))
  have a: "accounts db' = accounts db" "withdraw_vesting_routes db' = withdraw_vesting_routes db" by (simp_all add: 1(10) set_token_def)
  show ?thesis using s votes_untouchedD [OF u] a assms(2) routes_bounded_cong [OF a(2)] by (simp add: withdrawals_ok_def withdraws_ok_def)
qed

lemma withdraw_tokens_effect:
  "withdraw_tokens rows db = Inr db' \<Longrightarrow> withdrawals_ok db \<Longrightarrow>
   withdrawals_ok db' \<and> surplus s db' = surplus s db \<and> vsf_surplus db' = vsf_surplus db"
proof (induction rows db rule: withdraw_tokens.induct)
  case (2 t key rows db)
  then obtain db1 b where b: "withdraw_token_step key db = Inr db1" "get_row arb_key key (regular_balances db1) = Inr b"
      "withdraw_tokens (filter (\<lambda>r. r > (arb_next_vesting_withdrawal b, key)) rows) db1 = Inr db'"
    by (auto simp: rbind_eq_Inr)
  note e = withdraw_token_step_effect [OF b(1) 2(3), of s]
  show ?case using "2.IH" [OF b] e by simp
qed simp

lemma withdraw_accounts_effect:
  "withdraw_accounts now rows db = Inr db' \<Longrightarrow> withdrawals_ok db \<Longrightarrow>
   withdrawals_ok db' \<and> surplus s db' = surplus s db \<and> vsf_surplus db' = vsf_surplus db"
proof (induction now rows db rule: withdraw_accounts.induct)
  case (2 now t n rows db)
  then obtain db1 a where a: "withdraw_account_step n db = Inr db1" "get_account db1 n = Inr a"
      "withdraw_accounts now (requeue now (t, n) (acc_next_vesting_withdrawal a, n) rows) db1 = Inr db'"
    by (auto simp: rbind_eq_Inr)
  note e = withdraw_account_step_effect [OF a(1) 2(3), of s]
  show ?case using "2.IH" [OF a] e by simp
qed simp

lemma process_vesting_withdrawals_effect:
  assumes "process_vesting_withdrawals db = Inr db'" "withdrawals_ok db"
  shows "withdrawals_ok db' \<and> surplus s db' = surplus s db \<and> vsf_surplus db' = vsf_surplus db"
proof -
  obtain db1 where d: "withdraw_tokens (due_token_withdrawals db) db = Inr db1"
      "withdraw_accounts (head_block_time db1) (due_withdrawals db1) db1 = Inr db'"
    using assms(1) by (auto simp: process_vesting_withdrawals_def rbind_eq_Inr)
  show ?thesis using withdraw_tokens_effect [OF d(1) assms(2), of s] withdraw_accounts_effect [OF d(2), of s] by simp
qed

end
