(* ===== verification/Power_Down.thy ===== *)
theory Power_Down
  imports Withdrawals
begin

text \<open>
  The schedule of a withdrawal: the weekly rate, the weeks until everything has been withdrawn, and
  the routes along which the shares of a week are given away.
\<close>

section \<open>The rate\<close>

lemma ceil_div:
  fixes t n :: int
  assumes "0 < t" "0 < n"
  shows "(t + n - 1) div n = (if (t div n) * n < t then t div n + 1 else t div n)"
proof (cases "t mod n = 0")
  case True
  then have t: "t = n * (t div n)" by auto
  have "(n * (t div n) + (n - 1)) div n = t div n" using assms(2) by (simp add: div_pos_pos_trivial)
  then show ?thesis using t True by (simp add: algebra_simps)
next
  case False
  have m: "0 < t mod n" "t mod n < n" using assms False pos_mod_bound [of n t] pos_mod_sign [of n t] by linarith+
  have "t + n - 1 = (t mod n - 1) + n * (t div n + 1)" using mult_div_mod_eq [of n t] by (simp add: algebra_simps)
  then have "(t + n - 1) div n = ((t mod n - 1) + n * (t div n + 1)) div n" by (rule arg_cong)
  also have "\<dots> = (t div n + 1) + (t mod n - 1) div n" using assms(2) by (intro div_mult_self2) simp
  finally have "(t + n - 1) div n = t div n + 1 + (t mod n - 1) div n" .
  moreover have "(t mod n - 1) div n = 0" using m by (intro div_pos_pos_trivial) auto
  moreover have "(t div n) * n < t" using m div_mult_mod_eq [of t n] by linarith
  ultimately show ?thesis by simp
qed

lemma safe_div_pos: "0 < a \<Longrightarrow> 0 < b \<Longrightarrow> safe_div a b = Inr (a div b)"
  by (auto simp: safe_div_def sdiv_pos)

lemma withdraw_rate_value:
  assumes "0 < t" "t \<le> i64_max" "0 < n" "n \<le> i64_max"
  shows "withdraw_rate True t n = Inr ((t + n - 1) div n)" "withdraw_rate False t n = Inr (max 1 (t div n))"
proof -
  let ?r = "if t div n = 0 then 1 else t div n"
  have q: "0 \<le> t div n" "t div n = 0 \<longleftrightarrow> t < n"
    using assms pos_imp_zdiv_nonneg_iff [of n t] zdiv_eq_0_iff [of t n] by auto
  have q1: "(t div n) * n \<le> t" using assms(3) pos_mod_sign [of n t] div_mult_mod_eq [of t n] by linarith
  have r: "0 < ?r" "?r * n \<le> i64_max" using q q1 assms by (auto simp del: mult_div_mod_eq)
  have m: "safe_mul ?r n = Inr (?r * n)"
    using r assms le_div_iff [of n ?r i64_max] by (simp add: safe_mul_def sdiv_pos)
  show "withdraw_rate False t n = Inr (max 1 (t div n))" using q(1) by (simp add: withdraw_rate_def safe_div_pos assms Let_def)
  show "withdraw_rate True t n = Inr ((t + n - 1) div n)"
  proof (cases "t div n = 0")
    case True
    then show ?thesis using q m assms by (simp add: withdraw_rate_def safe_div_pos Let_def ceil_div)
  next
    case False
    have "safe_add (t div n) 1 = Inr (t div n + 1)" if "(t div n) * n < t"
    proof -
      have "n \<noteq> 1" using that by auto
      then have "t div n < t" using assms(1,3) by (intro int_div_less_self) auto
      then show ?thesis using assms(2) by (simp add: safe_add_def)
    qed
    then show ?thesis using False m assms by (auto simp: withdraw_rate_def safe_div_pos Let_def ceil_div)
  qed
qed

section \<open>The weeks\<close>

text \<open>What a week does to an account or a token balance that nobody else touches.\<close>

definition weekly :: "32 word \<Rightarrow> shareholder \<Rightarrow> shareholder result" where
  "weekly interval h =
     rbind (shares_to_withdraw h) (\<lambda>x.
     rbind (safe_sub (amount (sh_vesting_shares h)) x) (\<lambda>v.
     advance_withdraw interval x (h\<lparr>sh_vesting_shares := (sh_vesting_shares h)\<lparr>amount := v\<rparr>\<rparr>)))"

primrec weeks :: "32 word \<Rightarrow> nat \<Rightarrow> shareholder \<Rightarrow> shareholder result" where
  "weeks interval 0 h = Inr h"
| "weeks interval (Suc n) h = rbind (weekly interval h) (weeks interval n)"

text \<open>\<open>w\<close> shares have been withdrawn in full weeks, and the rest is still there.\<close>

definition under_way :: "share_type \<Rightarrow> share_type \<Rightarrow> share_type \<Rightarrow> share_type \<Rightarrow> shareholder \<Rightarrow> bool" where
  "under_way t r v w h \<longleftrightarrow> sh_to_withdraw h = t \<and> amount (sh_vesting_withdraw_rate h) = r \<and> amount (sh_vesting_shares h) = v - w \<and>
     sh_withdrawn h = w \<and> w mod r = 0"

definition finished :: "share_type \<Rightarrow> share_type \<Rightarrow> shareholder \<Rightarrow> bool" where
  "finished t v h \<longleftrightarrow> sh_withdrawn h = t \<and> amount (sh_vesting_shares h) = v - t \<and> amount (sh_vesting_withdraw_rate h) = 0 \<and>
     sh_next_vesting_withdrawal h = time_point_sec_maximum"

lemma safe_ops_small: "0 \<le> a \<Longrightarrow> a \<le> i64_max \<Longrightarrow> 0 \<le> b \<Longrightarrow> b \<le> a \<Longrightarrow> safe_sub a b = Inr (a - b)"
  "0 \<le> a \<Longrightarrow> 0 \<le> b \<Longrightarrow> a + b \<le> i64_max \<Longrightarrow> safe_add a b = Inr (a + b)"
  by (auto simp: safe_sub_def safe_add_def)

lemma weekly_step:
  assumes "under_way t r v w h" "0 < r" "0 \<le> w" "w < t" "t \<le> v" "v \<le> i64_max"
  shows "t \<le> w + r \<Longrightarrow> \<exists>h'. weekly interval h = Inr h' \<and> finished t v h'"
    "w + r < t \<Longrightarrow> \<exists>h'. weekly interval h = Inr h' \<and> under_way t r v (w + r) h'"
proof -
  have u: "sh_to_withdraw h = t" "amount (sh_vesting_withdraw_rate h) = r" "amount (sh_vesting_shares h) = v - w" "sh_withdrawn h = w" "w mod r = 0"
    using assms(1) by (auto simp: under_way_def)
  have left: "safe_sub t w = Inr (t - w)" using assms by (intro safe_ops_small) auto
  show "\<exists>h'. weekly interval h = Inr h' \<and> finished t v h'" if le: "t \<le> w + r"
  proof -
    have x: "shares_to_withdraw h = Inr (t - w)"
    proof (cases "t - w < r")
      case True
      have "t mod r = (t - w) mod r" using u(5) by (metis diff_zero mod_diff_right_eq)
      also have "\<dots> = t - w" using True assms by simp
      finally have "safe_mod t r = Inr (t - w)" using assms by (auto simp: safe_mod_def smod_int_alt_def)
      then show ?thesis using True left assms by (simp add: shares_to_withdraw_def u rbind_def)
    next
      case False
      then have "t - w = r" using le by simp
      then show ?thesis using left assms by (simp add: shares_to_withdraw_def u rbind_def)
    qed
    have "safe_sub (v - w) (t - w) = Inr (v - t)" "safe_add w (t - w) = Inr t"
      using safe_ops_small(1) [of "v - w" "t - w"] safe_ops_small(2) [of w "t - w"] assms by auto
    then show ?thesis by (simp add: weekly_def x u rbind_def advance_withdraw_def Let_def finished_def)
  qed
  show "\<exists>h'. weekly interval h = Inr h' \<and> under_way t r v (w + r) h'" if less: "w + r < t"
  proof -
    have x: "shares_to_withdraw h = Inr r" using left less assms by (simp add: shares_to_withdraw_def u rbind_def)
    have "safe_sub (v - w) r = Inr (v - w - r)" "safe_add w r = Inr (w + r)"
      using less assms by (auto intro!: safe_ops_small)
    moreover have "(w + r) mod r = 0" using u(5) by simp
    ultimately show ?thesis using less assms(5) by (simp add: weekly_def x u rbind_def advance_withdraw_def Let_def under_way_def)
  qed
qed

lemma weeks_finish:
  assumes "under_way t r v w h" "0 < r" "0 \<le> w" "w < t" "t \<le> v" "v \<le> i64_max" "t \<le> w + int n * r"
  shows "\<exists>k \<le> n. \<exists>h'. weeks interval k h = Inr h' \<and> finished t v h'"
  using assms
proof (induction n arbitrary: w h)
  case (Suc n)
  show ?case
  proof (cases "t \<le> w + r")
    case True
    then obtain h' where "weekly interval h = Inr h'" "finished t v h'" using weekly_step(1) [OF Suc.prems(1-6)] by blast
    then show ?thesis by (intro exI [of _ 1]) (simp add: rbind_def)
  next
    case False
    then obtain h1 where h1: "weekly interval h = Inr h1" "under_way t r v (w + r) h1" using weekly_step(2) [OF Suc.prems(1-6)] by force
    then obtain k h' where "k \<le> n" "weeks interval k h1 = Inr h'" "finished t v h'"
      using Suc.IH [OF h1(2)] Suc.prems False by (auto simp: algebra_simps)
    then show ?thesis using h1(1) by (intro exI [of _ "Suc k"]) (simp add: rbind_def)
  qed
qed simp

section \<open>The routes\<close>

definition routed_row :: "account_name_type \<Rightarrow> withdraw_vesting_route_object \<Rightarrow> int" where
  "routed_row n r = (if wr_from_account r = n \<and> wr_to_account r > '''' then uint (wr_percent r) else 0)"

lemma sum_list_sort_key: "sum_list (map (f :: _ \<Rightarrow> int) (sort_key g xs)) = sum_list (map f xs)"
proof -
  have "sum_list (map f (sort_key g xs)) = sum_mset (image_mset f (mset (sort_key g xs)))" by (simp only: sum_mset_sum_list [symmetric] mset_map)
  also have "\<dots> = sum_list (map f xs)" by (simp add: sum_mset_sum_list [symmetric])
  finally show ?thesis .
qed

lemma routed_rows: "routed db n = sum_rows (routed_row n) (withdraw_vesting_routes db)"
proof -
  have "sum_list (map (\<lambda>r. uint (wr_percent r)) (filter (\<lambda>r. wr_from_account r = n \<and> wr_to_account r > '''') rs)) = sum_rows (routed_row n) rs" for rs
    by (induction rs) (auto simp: sum_rows_def routed_row_def)
  then show ?thesis by (simp add: routed_def routes_of_def sum_list_sort_key)
qed

lemma routed_row_nonneg [simp]: "0 \<le> routed_row n r" "routed_row n r \<le> uint (wr_percent r)"
  by (simp_all add: routed_row_def)

lemma uint_total_percent:
  assumes "sum_list (map (\<lambda>r. uint (wr_percent r)) rs) < 2 ^ 16"
  shows "uint (total_percent rs) = sum_list (map (\<lambda>r. uint (wr_percent r)) rs)"
proof -
  have "foldl (\<lambda>t r. t + wr_percent r) t rs = t + word_of_int (sum_list (map (\<lambda>r. uint (wr_percent r)) rs))" for t
    by (induction rs arbitrary: t) (simp_all add: add.assoc)
  then have "total_percent rs = word_of_int (sum_list (map (\<lambda>r. uint (wr_percent r)) rs))" by (simp add: total_percent_def)
  moreover have "0 \<le> sum_list (map (\<lambda>r. uint (wr_percent r)) rs)" by (intro sum_list_nonneg) auto
  ultimately show ?thesis using assms by (simp only: uint_word_of_int) simp
qed

lemma modify_account_routes: "modify_account db n f = Inr db' \<Longrightarrow> withdraw_vesting_routes db' = withdraw_vesting_routes db"
  by (auto simp: modify_account_def res_simps)

lemma sum_rows_remove_le:
  "(\<And>r. 0 \<le> f r) \<Longrightarrow> sum_rows f (remove_row key k rs) \<le> (sum_rows f rs :: int)"
  by (induction rs) (auto simp: sum_rows_def intro: add_increasing)

lemma set_route_rows:
  assumes "set_withdraw_vesting_route_apply db o1 = Inr db'"
  defines "key \<equiv> (swr_from_account o1, swr_to_account o1)"
    and "route \<equiv> \<lparr>wr_from_account = swr_from_account o1, wr_to_account = swr_to_account o1, wr_percent = swr_percent o1, wr_auto_vest = swr_auto_vest o1\<rparr>"
  shows "uint (total_percent (routes_of db' (swr_from_account o1))) \<le> freezone_100_PERCENT \<and>
    (withdraw_vesting_routes db' = withdraw_vesting_routes db @ [route] \<or>
     withdraw_vesting_routes db' = remove_row wr_key key (withdraw_vesting_routes db) \<or>
     (\<exists>r. find_row wr_key key (withdraw_vesting_routes db) = Some r \<and>
        withdraw_vesting_routes db' = update_row wr_key key route (withdraw_vesting_routes db)))"
proof -
  obtain a b where ab: "find_row acc_name (swr_from_account o1) (accounts db) = Some a" "find_row acc_name (swr_to_account o1) (accounts db) = Some b"
    using assms(1) by (auto simp: set_withdraw_vesting_route_apply_def rbind_eq_Inr get_account_eq_Inr)
  then have g: "get_account db (swr_from_account o1) = Inr a" "get_account db (swr_to_account o1) = Inr b" "acc_name a = swr_from_account o1"
      "acc_name b = swr_to_account o1"
    using find_row_key [OF ab(1)] find_row_key [OF ab(2)] by (simp_all add: get_account_eq_Inr)
  have rb: "rbind (Inr x) f = f x" for x :: 'a and f :: "'a \<Rightarrow> 'b result" by (simp add: rbind_def)
  note e = assms(1) [unfolded set_withdraw_vesting_route_apply_def Let_def g rb fc_assert_eq_Inr rbind_eq_Inr, folded key_def route_def]
  from e obtain db1 where "(case find_row wr_key key (withdraw_vesting_routes db) of
      None \<Rightarrow> fc_assert (swr_percent o1 \<noteq> 0) ''Cannot create a 0% destination.'' (
        fc_assert (uint (acc_withdraw_routes a) < freezone_MAX_WITHDRAW_ROUTES) ''Account already has the maximum number of routes.'' (
        modify_account (db\<lparr>withdraw_vesting_routes := withdraw_vesting_routes db @ [route]\<rparr>) (swr_from_account o1)
          (\<lambda>a. a\<lparr>acc_withdraw_routes := acc_withdraw_routes a + 1\<rparr>)))
    | Some r \<Rightarrow>
        if swr_percent o1 = 0 then
          modify_account (db\<lparr>withdraw_vesting_routes := remove_row wr_key key (withdraw_vesting_routes db)\<rparr>) (swr_from_account o1)
            (\<lambda>a. a\<lparr>acc_withdraw_routes := acc_withdraw_routes a - 1\<rparr>)
        else Inr (db\<lparr>withdraw_vesting_routes := update_row wr_key key route (withdraw_vesting_routes db)\<rparr>)) = Inr db1"
    and t: "uint (total_percent (routes_of db1 (swr_from_account o1))) \<le> freezone_100_PERCENT" "db' = db1"
    by auto
  then show ?thesis
    by (cases "find_row wr_key key (withdraw_vesting_routes db)") (auto simp: fc_assert_eq_Inr split: if_splits dest!: modify_account_routes)
qed

text \<open>An operation that passes the 16-bit test keeps the unbounded sum within bounds.\<close>

lemma set_route_bounded:
  assumes "set_withdraw_vesting_route_apply db o1 = Inr db'" "routes_bounded db" "uint (swr_percent o1) \<le> freezone_100_PERCENT"
  shows "routes_bounded db'"
proof -
  let ?f = "swr_from_account o1" and ?t = "swr_to_account o1"
  let ?route = "\<lparr>wr_from_account = ?f, wr_to_account = ?t, wr_percent = swr_percent o1, wr_auto_vest = swr_auto_vest o1\<rparr>"
  let ?rs = "withdraw_vesting_routes db"
  have test: "uint (total_percent (routes_of db' ?f)) \<le> freezone_100_PERCENT" and
      rows: "withdraw_vesting_routes db' = ?rs @ [?route] \<or> withdraw_vesting_routes db' = remove_row wr_key (?f, ?t) ?rs \<or>
        (\<exists>r. find_row wr_key (?f, ?t) ?rs = Some r \<and> withdraw_vesting_routes db' = update_row wr_key (?f, ?t) ?route ?rs)"
    using set_route_rows [OF assms(1)] by auto
  have k: "wr_key ?route = (?f, ?t)" by (simp add: wr_key_def)
  have le: "routed db' n \<le> routed db n + routed_row n ?route" for n
    using rows
  proof (elim disjE exE conjE)
    fix r
    assume "find_row wr_key (?f, ?t) ?rs = Some r" "withdraw_vesting_routes db' = update_row wr_key (?f, ?t) ?route ?rs"
    then have "routed db' n = routed db n + routed_row n ?route - routed_row n r" using k by (simp add: routed_rows table_simps)
    then show ?thesis using routed_row_nonneg(1) [of n r] by linarith
  next
    assume "withdraw_vesting_routes db' = remove_row wr_key (?f, ?t) ?rs"
    then have "routed db' n \<le> routed db n" using sum_rows_remove_le [of "routed_row n" wr_key "(?f, ?t)" ?rs] by (simp add: routed_rows)
    then show ?thesis using routed_row_nonneg(1) [of n ?route] by linarith
  qed (simp add: routed_rows table_simps)
  have "routed db' n \<le> freezone_100_PERCENT" for n
  proof (cases "n = ?f")
    case True
    have "routed db' ?f \<le> 20000"
      using le [of ?f] routed_row_nonneg(2) [of ?f ?route] assms(2,3) unfolding routes_bounded_def freezone_100_PERCENT_def
      by (smt (verit, ccfv_threshold) withdraw_vesting_route_object.select_convs(3))
    then have "uint (total_percent (routes_of db' ?f)) = routed db' ?f" by (simp add: uint_total_percent routed_def)
    then show ?thesis using test True by simp
  next
    case False
    then show ?thesis using le [of n] assms(2) unfolding routes_bounded_def by (metis (no_types, lifting) add.right_neutral order_trans routed_row_def withdraw_vesting_route_object.select_convs(1))
  qed
  then show ?thesis by (simp add: routes_bounded_def)
qed

text \<open>The shares that the routes give away, of one kind of route.\<close>

definition routed_shares :: "bool \<Rightarrow> share_type \<Rightarrow> withdraw_vesting_route_object list \<Rightarrow> int" where
  "routed_shares vest tw rs = sum_list (map (\<lambda>r. tw * uint (wr_percent r) div freezone_100_PERCENT) (filter (\<lambda>r. wr_auto_vest r = vest) rs))"

lemma rfold_vests_sum:
  assumes "rfold (route_to_vests from tw) rs (d, db) = Inr (d', db')" "0 \<le> tw" "tw \<le> i64_max"
    "\<forall>r \<in> set rs. uint (wr_percent r) \<le> freezone_100_PERCENT"
  shows "d' = d + routed_shares True tw rs"
  using assms(1,4)
proof (induction rs arbitrary: d db)
  case (Cons r rs)
  then obtain d1 db1 where 1: "route_to_vests from tw r (d, db) = Inr (d1, db1)" "rfold (route_to_vests from tw) rs (d1, db1) = Inr (d', db')"
    by (auto simp: rbind_eq_Inr)
  have "d1 = d + (if wr_auto_vest r then tw * uint (wr_percent r) div freezone_100_PERCENT else 0)"
    using 1(1) Cons.prems(2) route_share_bounds(1) [of tw r] assms(2,3)
    by (auto simp: route_to_vests_def rbind_eq_Inr Let_def split: if_splits dest!: safe_add_value)
  then show ?case using Cons.IH [OF 1(2)] Cons.prems(2) by (simp add: routed_shares_def)
qed (simp add: routed_shares_def)

lemma rfold_liquid_sum:
  assumes "rfold (route_to_liquid from tw) rs (d, t, db) = Inr (d', t', db')" "0 \<le> tw" "tw \<le> i64_max"
    "\<forall>r \<in> set rs. uint (wr_percent r) \<le> freezone_100_PERCENT"
  shows "d' = d + routed_shares False tw rs"
  using assms(1,4)
proof (induction rs arbitrary: d t db)
  case (Cons r rs)
  then obtain d1 t1 db1 where 1: "route_to_liquid from tw r (d, t, db) = Inr (d1, t1, db1)"
      "rfold (route_to_liquid from tw) rs (d1, t1, db1) = Inr (d', t', db')"
    by (auto simp: rbind_eq_Inr)
  have "d1 = d + (if wr_auto_vest r then 0 else tw * uint (wr_percent r) div freezone_100_PERCENT)"
    using 1(1) Cons.prems(2) route_share_bounds(1) [of tw r] assms(2,3)
    by (auto simp: route_to_liquid_def rbind_eq_Inr Let_def split: if_splits dest!: safe_add_value)
  then show ?case using Cons.IH [OF 1(2)] Cons.prems(2) by (simp add: routed_shares_def)
qed (simp add: routed_shares_def)

lemma routed_shares_le:
  assumes "0 \<le> tw" "sum_list (map (\<lambda>r. uint (wr_percent r)) rs) \<le> freezone_100_PERCENT"
  shows "routed_shares True tw rs + routed_shares False tw rs \<le> tw"
proof -
  have "(routed_shares True tw rs + routed_shares False tw rs) * 10000 \<le> tw * sum_list (map (\<lambda>r. uint (wr_percent r)) rs)"
  proof (induction rs)
    case (Cons r rs)
    let ?x = "tw * uint (wr_percent r) div 10000"
    have "?x * 10000 \<le> tw * uint (wr_percent r)" by simp
    moreover have "routed_shares True tw (r # rs) + routed_shares False tw (r # rs) =
        ?x + (routed_shares True tw rs + routed_shares False tw rs)"
      by (simp add: routed_shares_def freezone_100_PERCENT_def)
    ultimately show ?case using Cons.IH by (simp add: distrib_left distrib_right)
  qed (simp add: routed_shares_def)
  also have "\<dots> \<le> tw * 10000" using assms by (intro mult_left_mono) (simp_all add: freezone_100_PERCENT_def)
  finally show ?thesis by simp
qed


end
