(* ===== verification/Share_Value.thy ===== *)
theory Share_Value
  imports Power_Down
begin

text \<open>
  Conversions between liquid assets and shares round in favour of the pool: what a vesting share is
  worth, the fund divided by the shares, never falls by a deposit or by a withdrawal.
\<close>

abbreviation pool_fund :: "dynamic_global_property_object \<Rightarrow> int" where
  "pool_fund g \<equiv> amount (gp_total_vesting_fund_freezone g)"

abbreviation pool_shares :: "dynamic_global_property_object \<Rightarrow> int" where
  "pool_shares g \<equiv> amount (gp_total_vesting_shares g)"

lemma i64_of_u64_le: "0 \<le> z \<Longrightarrow> i64_of_u64 (word_of_int z) \<le> z"
proof -
  assume "0 \<le> z"
  have "sint (word_of_int z :: 64 word) \<le> uint (word_of_int z :: 64 word)"
    using take_bit_int_less_eq_self_iff [of 64 "uint (word_of_int z :: 64 word)"]
    by (simp only: sint_uint signed_take_bit_eq_take_bit_minus) auto
  also have "\<dots> \<le> z" using \<open>0 \<le> z\<close> zmod_le_nonneg_dividend [of z "2 ^ 64"] by (simp add: uint_word_of_int)
  finally show ?thesis by (simp add: i64_of_u64_def)
qed

lemma mul_div_amount_le:
  assumes "mul_div_amount a n d = Inr c" "0 \<le> a" "a \<le> i64_max" "0 \<le> n" "n \<le> i64_max" "0 < d" "d \<le> i64_max"
  shows "c * d \<le> a * n"
proof -
  have z: "0 \<le> a * n div d" using assms by (simp add: pos_imp_zdiv_nonneg_iff)
  have "c = i64_of_u64 (word_of_int (a * n div d))"
    using assms(1) mul_div_amount_eq [OF assms(2-7)] by (simp split: if_splits)
  then have "c * d \<le> (a * n div d) * d" using i64_of_u64_le [OF z] assms(6) by (simp add: mult_right_mono)
  also have "\<dots> \<le> a * n" using le_div_iff [OF assms(6), of "a * n div d" "a * n"] by simp
  finally show ?thesis .
qed

lemma share_price_conversions:
  assumes "get_vesting_share_price g = Inr p" "pool_typed g" "0 < pool_fund g" "pool_fund g \<le> i64_max" "0 < pool_shares g" "pool_shares g \<le> i64_max"
    "0 \<le> amount x" "amount x \<le> i64_max" "asset_mul_price x p = Inr y"
  shows "symbol x = VESTS_SYMBOL \<Longrightarrow> amount y * pool_shares g \<le> amount x * pool_fund g"
    "symbol x = freezone_SYMBOL \<Longrightarrow> amount y * pool_fund g \<le> amount x * pool_shares g"
proof -
  have p: "base p = gp_total_vesting_shares g" "quote p = gp_total_vesting_fund_freezone g"
    using assms(1,3,5) by (auto simp: get_vesting_share_price_def mk_price_eq_Inr split: if_splits)
  show "symbol x = VESTS_SYMBOL \<Longrightarrow> amount y * pool_shares g \<le> amount x * pool_fund g"
    using assms(2-9) p by (auto simp: asset_mul_price_def pool_typed_def res_simps intro!: mul_div_amount_le)
  show "symbol x = freezone_SYMBOL \<Longrightarrow> amount y * pool_fund g \<le> amount x * pool_shares g"
    using assms(2-9) p by (auto simp: asset_mul_price_def pool_typed_def res_simps intro!: mul_div_amount_le)
qed

text \<open>Shares leave the pool with at most their part of the fund.\<close>

definition drains :: "dynamic_global_property_object \<Rightarrow> dynamic_global_property_object \<Rightarrow> bool" where
  "drains g g' \<longleftrightarrow> pool_shares g' \<le> pool_shares g \<and>
     (pool_fund g \<le> i64_max \<and> pool_shares g \<le> i64_max \<longrightarrow>
        pool_fund g' \<le> i64_max \<and>
        (0 < pool_fund g \<and> 0 < pool_shares g' \<longrightarrow> 0 < pool_fund g' \<and> pool_fund g * pool_shares g' \<le> pool_fund g' * pool_shares g))"

lemma drains_refl [simp]: "drains g g"
  by (simp add: drains_def)

lemma cross_trans:
  fixes c0 c1 c2 v0 v1 v2 :: int
  assumes "c0 * v1 \<le> c1 * v0" "c1 * v2 \<le> c2 * v1" "0 < v0" "0 < v1" "0 < v2"
  shows "c0 * v2 \<le> c2 * v0"
proof -
  have "(c0 * v1) * v2 \<le> (c1 * v0) * v2" using assms(1,5) by (intro mult_right_mono) auto
  also have "\<dots> = (c1 * v2) * v0" by simp
  also have "\<dots> \<le> (c2 * v1) * v0" using assms(2,3) by (intro mult_right_mono) auto
  finally have "(c0 * v2) * v1 \<le> (c2 * v0) * v1" by (simp add: ac_simps)
  then show ?thesis using assms(4) by simp
qed

lemma drains_trans: "drains g g1 \<Longrightarrow> drains g1 g2 \<Longrightarrow> drains g g2"
  using cross_trans [of "pool_fund g" "pool_shares g1" "pool_fund g1" "pool_shares g" "pool_shares g2" "pool_fund g2"]
  by (simp add: drains_def)

lemma safe_sub_range: "safe_sub a b = Inr c \<Longrightarrow> a \<le> i64_max \<Longrightarrow> c \<le> i64_max"
  by (auto simp: safe_sub_def split: if_splits)

lemma shrink_pool_drains:
  assumes "shrink_pool c x db1 = Inr db'" "dgpo db1 = dgpo db" "get_vesting_share_price (dgpo db) = Inr p"
    "asset_mul_price (mk_asset x VESTS_SYMBOL) p = Inr c" "pool_typed (dgpo db)" "0 \<le> x" "x \<le> i64_max"
  shows "drains (dgpo db) (dgpo db')"
proof -
  let ?g = "dgpo db"
  obtain f n where e: "asset_sub (gp_total_vesting_fund_freezone ?g) c = Inr f" "safe_sub (pool_shares ?g) x = Inr n"
      "dgpo db' = ?g\<lparr>gp_total_vesting_fund_freezone := f, gp_total_vesting_shares := (gp_total_vesting_shares ?g)\<lparr>amount := n\<rparr>\<rparr>"
    using assms(1,2) by (auto simp: shrink_pool_def Let_def rbind_eq_Inr)
  have n: "n = pool_shares ?g - x" by (rule safe_sub_value [OF e(2)])
  have f: "amount f = pool_fund ?g - amount c" using asset_sub_value [OF e(1)] by simp
  have r: "pool_fund ?g \<le> i64_max \<Longrightarrow> amount f \<le> i64_max"
    using e(1) by (auto simp: asset_sub_eq_Inr dest: safe_sub_range)
  have "0 < amount f \<and> pool_fund ?g * n \<le> amount f * pool_shares ?g"
    if "pool_fund ?g \<le> i64_max" "pool_shares ?g \<le> i64_max" "0 < pool_fund ?g" "0 < n"
  proof -
    have v: "0 < pool_shares ?g" using n that(4) assms(6) by simp
    have le: "amount c * pool_shares ?g \<le> x * pool_fund ?g"
      using share_price_conversions(1) [OF assms(3,5) that(3,1) v that(2) _ _ assms(4)] assms(6,7) by simp
    also have "\<dots> < pool_shares ?g * pool_fund ?g" using n that by (intro mult_strict_right_mono) auto
    finally have "amount c < pool_fund ?g" using v by (simp add: mult.commute)
    moreover have "pool_fund ?g * n \<le> amount f * pool_shares ?g" using le by (simp add: n f algebra_simps)
    ultimately show ?thesis by (simp add: f)
  qed
  then show ?thesis using r n assms(6) by (simp add: drains_def e(3))
qed

lemma route_to_vests_pool: "route_to_vests from tw r (d, db) = Inr (d', db') \<Longrightarrow> dgpo db' = dgpo db"
  by (auto simp: route_to_vests_def add_vesting_shares_def Let_def rbind_eq_Inr split: if_splits
      dest!: adjust_proxied_frame [THEN votes_frameD(4)])

lemma rfold_vests_pool: "rfold (route_to_vests from tw) rs (d, db) = Inr (d', db') \<Longrightarrow> dgpo db' = dgpo db"
  using rfold_invariant [of "route_to_vests from tw" rs "(d, db)" "(d', db')" "\<lambda>(_, x). dgpo x = dgpo db"] route_to_vests_pool by fastforce

lemma route_to_liquid_drains:
  assumes "route_to_liquid from tw r (d, t, db) = Inr (d', t', db')" "pool_typed (dgpo db)" "0 \<le> tw" "tw \<le> i64_max"
    "uint (wr_percent r) \<le> freezone_100_PERCENT"
  shows "drains (dgpo db) (dgpo db')"
proof (cases "wr_auto_vest r")
  case True
  then show ?thesis using assms(1) by (simp add: route_to_liquid_def)
next
  case False
  then obtain x p c where x: "route_share tw r = Inr x" "get_vesting_share_price (dgpo db) = Inr p"
      "asset_mul_price (mk_asset x VESTS_SYMBOL) p = Inr c"
    using assms(1) by (auto simp: route_to_liquid_def rbind_eq_Inr Let_def split: if_splits)
  have d: "0 \<le> x" "x \<le> i64_max" using route_share_bounds [OF x(1) assms(3-5)] assms(4) by auto
  show ?thesis
  proof (cases "x > 0")
    case False
    then have "db' = db" using assms(1) \<open>\<not> wr_auto_vest r\<close> x by (auto simp: route_to_liquid_def rbind_eq_Inr)
    then show ?thesis by simp
  next
    case True
    obtain a b v where "shrink_pool c x (set_account (a\<lparr>acc_balance := b\<rparr>) (push_virtual_operation db v)) = Inr db'"
      using assms(1) \<open>\<not> wr_auto_vest r\<close> x True by (auto simp: route_to_liquid_def Let_def res_simps)
    then show ?thesis by (rule shrink_pool_drains) (use x(2,3) assms(2) d in auto)
  qed
qed

lemma withdraw_account_step_drains:
  assumes "withdraw_account_step from db = Inr db'" "withdrawals_ok db"
  shows "drains (dgpo db) (dgpo db')"
  using assms(1)
proof (cases rule: withdraw_account_step_cases)
  case (1 a0 tw dv db1 df t db2 x tc p c a v b h db4 vo)
  have ok: "withdraws_ok db" "routes_bounded db" using assms(2) by (auto simp: withdrawals_ok_def)
  have tw: "0 \<le> tw" "tw \<le> i64_max"
    using shares_to_withdraw_bounds [OF 1(2)] withdraws_ok_account [OF ok(1) 1(1)] by (auto simp: withdraw_ok_def)
  have p1: "pays from db dv db1"
    using routes_bounded_percent [OF ok(2)] by (intro rfold_vests_pays [OF 1(3) pays_refl [OF assms(2) 1(1)] tw]) blast
  then have r1: "routes_bounded db1" "pool_typed (dgpo db1)" using ok(2) routes_bounded_cong [of db1 db] by (auto simp: pays_def)
  have g: "dgpo db1 = dgpo db" by (rule rfold_vests_pool [OF 1(3)])
  obtain a1 where a1: "find_row acc_name from (accounts db1) = Some a1" using p1 by (auto simp: pays_def)
  have p0: "pays from db1 0 db1" using p1 r1 by (intro pays_refl [OF _ a1]) (auto simp: pays_def withdrawals_ok_def)
  have "drains (dgpo db1) (dgpo db2) \<and> pool_typed (dgpo db2)"
  proof -
    let ?I = "\<lambda>(d, t :: asset, x). drains (dgpo db1) (dgpo x) \<and> pays from db1 d x"
    have "?I (df, t, db2)"
    proof (rule rfold_invariant [OF 1(4), of ?I])
      show "?I (0, mk_asset 0 freezone_SYMBOL, db1)" using p0 by simp
    next
      fix r s s'
      assume r: "r \<in> set (routes_of db1 from)" "route_to_liquid from tw r s = Inr s'" "?I s"
      obtain d t x d' t' x' where s: "s = (d, t, x)" "s' = (d', t', x')" by (cases s; cases s') auto
      have I: "drains (dgpo db1) (dgpo x)" "pays from db1 d x" using r(3) s by auto
      note b = routes_bounded_percent [OF r1(1) r(1)] and e = r(2) [unfolded s]
      have "pays from db1 d' x'" by (rule route_to_liquid_pays [OF e I(2) tw b])
      moreover have "drains (dgpo x) (dgpo x')" by (rule route_to_liquid_drains [OF e _ tw b]) (use I(2) in \<open>simp add: pays_def\<close>)
      ultimately show "?I s'" using drains_trans [OF I(1)] by (simp add: s(2))
    qed
    then show ?thesis by (simp add: pays_def)
  qed
  moreover have "drains (dgpo db2) (dgpo db4)"
    by (rule shrink_pool_drains [OF 1(14) _ 1(8,9)])
      (use calculation 1(7) safe_sub_range [OF 1(6)] safe_sub_range [OF 1(5)] tw(2) in auto)
  moreover have "dgpo db' = dgpo db4"
    using 1(15) by (auto simp: rbind_eq_Inr split: if_splits dest!: adjust_proxied_frame [THEN votes_frameD(4)])
  ultimately show ?thesis using g by (auto intro: drains_trans)
qed

lemma withdraw_tokens_pool: "withdraw_tokens rows db = Inr db' \<Longrightarrow> dgpo db' = dgpo db"
proof (induction rows db rule: withdraw_tokens.induct)
  case (2 t key rows db)
  then obtain db1 b where b: "withdraw_token_step key db = Inr db1" "get_row arb_key key (regular_balances db1) = Inr b"
      "withdraw_tokens (filter (\<lambda>r. r > (arb_next_vesting_withdrawal b, key)) rows) db1 = Inr db'"
    by (auto simp: rbind_eq_Inr)
  have "dgpo db1 = dgpo db" using b(1) by (cases rule: withdraw_token_step_cases) (simp add: set_token_def)
  then show ?case using "2.IH" [OF b] by simp
qed simp

lemma withdraw_accounts_drains:
  "withdraw_accounts now rows db = Inr db' \<Longrightarrow> withdrawals_ok db \<Longrightarrow> drains (dgpo db) (dgpo db')"
proof (induction now rows db rule: withdraw_accounts.induct)
  case (2 now t n rows db)
  then obtain db1 a where a: "withdraw_account_step n db = Inr db1" "get_account db1 n = Inr a"
      "withdraw_accounts now (requeue now (t, n) (acc_next_vesting_withdrawal a, n) rows) db1 = Inr db'"
    by (auto simp: rbind_eq_Inr)
  show ?case
    using "2.IH" [OF a] withdraw_account_step_effect [OF a(1) 2(3)] drains_trans [OF withdraw_account_step_drains [OF a(1) 2(3)]] by simp
qed simp

lemma process_vesting_withdrawals_drains:
  assumes "process_vesting_withdrawals db = Inr db'" "withdrawals_ok db"
  shows "drains (dgpo db) (dgpo db')"
proof -
  obtain db1 where d: "withdraw_tokens (due_token_withdrawals db) db = Inr db1"
      "withdraw_accounts (head_block_time db1) (due_withdrawals db1) db1 = Inr db'"
    using assms(1) by (auto simp: process_vesting_withdrawals_def rbind_eq_Inr)
  show ?thesis
    using withdraw_accounts_drains [OF d(2)] withdraw_tokens_effect [OF d(1) assms(2)] withdraw_tokens_pool [OF d(1)] by simp
qed

text \<open>A deposit is given at most its part of the shares.\<close>

lemma transfer_to_vesting_cases:
  assumes "transfer_to_vesting_apply db o1 = Inr db'"
  obtains a t d db1 nv where "asset_neg (ttv_amount o1) = Inr d" "adjust_balance_of db a d = Inr db1"
    "create_vesting db1 t (ttv_amount o1) False = Inr (nv, db')"
  using assms unfolding transfer_to_vesting_apply_def
  by (simp only: rbind_eq_Inr fc_assert_eq_Inr split_paired_Ex prod.case sum.inject) (elim exE conjE, rule that, assumption+, simp)

lemma notifies_none: "notifies (\<lambda>_ db. db)"
  unfolding notifies_def by (intro allI, rule_tac x = "vops db" in exI) simp

lemma create_vesting_pool:
  assumes "create_vesting db t x False = Inr (nv, db')" "symbol x = freezone_SYMBOL" "pool_typed (dgpo db)"
    "0 < pool_fund (dgpo db)" "pool_fund (dgpo db) \<le> i64_max" "0 < pool_shares (dgpo db)" "pool_shares (dgpo db) \<le> i64_max"
    "0 \<le> amount x" "amount x \<le> i64_max"
  shows "pool_fund (dgpo db') = pool_fund (dgpo db) + amount x \<and> pool_shares (dgpo db') = pool_shares (dgpo db) + amount nv \<and>
    amount nv * pool_fund (dgpo db) \<le> amount x * pool_shares (dgpo db)"
  using assms(1) [unfolded create_vesting_def]
proof (cases rule: create_vesting2_cases)
  case (native p db1 db2 g)
  have nv: "symbol nv = VESTS_SYMBOL" by (rule share_price_result(1) [OF native(3) assms(3) native(4) assms(2)])
  from native(5,6) nv notifies_none obtain a' where "db2 = set_account a' db" by (rule native_shares_account)
  then have d: "dgpo db2 = dgpo db" by simp
  have g: "dgpo db' = g" using adjust_proxied_frame [OF native(8)] votes_frameD(4) by fastforce
  have "amount nv * pool_fund (dgpo db) \<le> amount x * pool_shares (dgpo db)"
    by (rule share_price_conversions(2) [OF native(3) assms(3-9) native(4) assms(2)])
  then show ?thesis using grow_pool_fields [OF native(7)] d g by auto
qed (use assms(2) in simp_all)

end
