(* ===== verification/Delegation.thy ===== *)
theory Delegation
  imports Share_Value
begin

text \<open>
  Delegation of vesting shares: \<^verbatim>\<open>delegate_vesting_shares_evaluator\<close> with its template
  \<^verbatim>\<open>generic_delegate_vesting_shares_evaluator\<close>, and \<^verbatim>\<open>clear_expired_delegations\<close>, which returns delegated
  shares after the return period.  The template runs on accounts and on balances of a token; a \<open>holder\<close>
  names the row it works on.
\<close>

section \<open>Operations\<close>

record delegate_vesting_shares_operation =
  dvs_delegator :: account_name_type
  dvs_delegatee :: account_name_type
  dvs_vesting_shares :: asset

datatype holder = Native account_name_type | Token account_name_type asset_symbol_type

fun holder_name :: "holder \<Rightarrow> account_name_type" where
  "holder_name (Native n) = n"
| "holder_name (Token n s) = n"

fun get_holder :: "database \<Rightarrow> holder \<Rightarrow> shareholder result" where
  "get_holder db (Native n) = rbind (get_account db n) (\<lambda>a. Inr (account_shares a))"
| "get_holder db (Token n s) = rbind (get_row arb_key (n, s) (regular_balances db)) (\<lambda>b. Inr (balance_shares b))"

fun put_holder :: "database \<Rightarrow> holder \<Rightarrow> shareholder \<Rightarrow> database result" where
  "put_holder db (Native n) h = rbind (get_account db n) (\<lambda>a. Inr (set_account (put_account_shares h a) db))"
| "put_holder db (Token n s) h =
     rbind (get_row arb_key (n, s) (regular_balances db)) (\<lambda>b.
     Inr (db\<lparr>regular_balances := update_row arb_key (n, s) (put_balance_shares h b) (regular_balances db)\<rparr>))"

definition modify_holder :: "database \<Rightarrow> holder \<Rightarrow> (shareholder \<Rightarrow> shareholder result) \<Rightarrow> database result" where
  "modify_holder db r f = rbind (get_holder db r) (\<lambda>h. rbind (f h) (put_holder db r))"

definition vd_key :: "vesting_delegation_object \<Rightarrow> account_name_type \<times> account_name_type \<times> asset_symbol_type" where
  "vd_key d = (vd_delegator d, vd_delegatee d, get_paired_symbol (symbol (vd_vesting_shares d)))"

section \<open>Shares that can be delegated\<close>

text \<open>
  From hardfork 20 on the mana that is left limits what can be delegated; \<open>downvote_shares\<close> converts
  the mana of the downvote pool back to shares.  The shares of a withdrawal that is under way cannot be
  delegated.
\<close>

definition downvote_shares :: "bool \<Rightarrow> 16 word \<Rightarrow> int \<Rightarrow> int result" where
  "downvote_shares hf22 percent mana =
     (let p = uint percent in
      if hf22 then
        to_int64 (u128_of_i64 mana * u128_of_i64 freezone_100_PERCENT div u128_of_i64 p
          + u128_of_i64 (freezone_100_PERCENT sdiv p) - 1)
      else Inr (i64_wrap (i64_wrap (i64_wrap (mana * freezone_100_PERCENT) sdiv p) + (freezone_100_PERCENT sdiv p) - 1)))"

definition without_withdrawal :: "shareholder \<Rightarrow> asset_symbol_type \<Rightarrow> asset \<Rightarrow> asset result" where
  "without_withdrawal h s available =
     (let weekly_withdraw = mk_asset (min (amount (sh_vesting_withdraw_rate h)) (i64_wrap (sh_to_withdraw h - sh_withdrawn h))) s in
      rbind (safe_sub (sh_to_withdraw h) (sh_withdrawn h)) (\<lambda>left.
      rbind (asset_sub weekly_withdraw (mk_asset left s)) (\<lambda>x. asset_add available x)))"

definition available_by_mana :: "database \<Rightarrow> shareholder \<Rightarrow> int \<Rightarrow> asset_symbol_type \<Rightarrow> (asset \<times> asset) result" where
  "available_by_mana db h most s =
     (let gpo = dgpo db in
      rbind (if gp_downvote_pool_percent gpo \<noteq> 0
             then downvote_shares (has_hardfork db 22) (gp_downvote_pool_percent gpo) (current_mana (sh_downvote_manabar h))
             else Inr (current_mana (sh_voting_manabar h))) (\<lambda>dv.
      rbind (safe_sub most (amount (sh_received_vesting_shares h))) (\<lambda>own.
      let available = mk_asset (min (current_mana (sh_voting_manabar h)) own) s;
          available_downvote = mk_asset (min dv own) s in
      rbind (safe_sub (sh_to_withdraw h) (sh_withdrawn h)) (\<lambda>left.
      if sh_next_vesting_withdrawal h < time_point_sec_maximum \<and> left > amount (sh_vesting_withdraw_rate h) then
        rbind (without_withdrawal h s available) (\<lambda>a.
        rbind (without_withdrawal h s available_downvote) (\<lambda>d. Inr (a, d)))
      else Inr (available, available_downvote)))))"

definition available_by_shares :: "shareholder \<Rightarrow> asset_symbol_type \<Rightarrow> asset result" where
  "available_by_shares h s =
     rbind (asset_sub (sh_vesting_shares h) (sh_delegated_vesting_shares h)) (\<lambda>x.
     rbind (safe_sub (sh_to_withdraw h) (sh_withdrawn h)) (\<lambda>left.
     asset_sub x (mk_asset left s)))"

text \<open>The shares that can be delegated, and the state with the mana bars of the delegator updated.\<close>

definition available_shares :: "database \<Rightarrow> holder \<Rightarrow> asset_symbol_type \<Rightarrow> 32 word \<Rightarrow> (asset \<times> asset \<times> database) result" where
  "available_shares db delegator s regen =
     rbind (get_holder db delegator) (\<lambda>h.
     if has_hardfork db 20 then
       rbind (modify_holder db delegator (\<lambda>h. update_manabar (dgpo db) h regen (has_hardfork db 21) 0)) (\<lambda>db1.
       rbind (get_holder db1 delegator) (\<lambda>h1.
       rbind (available_by_mana db1 h1 (get_effective_vesting_shares h) s) (\<lambda>(a, d). Inr (a, d, db1))))
     else rbind (available_by_shares h s) (\<lambda>a. Inr (a, asset_default, db)))"

text \<open>Smallest delegation and smallest change of a delegation of native shares.\<close>

definition min_delegation_update :: "database \<Rightarrow> asset_symbol_type \<Rightarrow> (asset \<times> asset) result" where
  "min_delegation_update db s =
     (if s = VESTS_SYMBOL then
        let fee = cp_account_creation_fee (wso_median_props (witness_schedule db)) in
        rbind (if has_hardfork db 20 then safe_div (amount fee) 3 else safe_mul (amount fee) 10) (\<lambda>x.
        rbind (get_vesting_share_price (dgpo db)) (\<lambda>p.
        rbind (asset_mul_price (mk_asset x freezone_SYMBOL) p) (\<lambda>min_delegation.
        rbind (if has_hardfork db 20
               then rbind (safe_div (amount fee) 30) (\<lambda>y. asset_mul_price (mk_asset y freezone_SYMBOL) p)
               else asset_mul_price fee p) (\<lambda>min_update.
        Inr (min_delegation, min_update)))))
      else Inr (mk_asset 0 s, mk_asset 0 s))"

section \<open>The evaluator\<close>

definition downvote_cost :: "dynamic_global_property_object \<Rightarrow> int \<Rightarrow> int result" where
  "downvote_cost gpo v = to_int64 (u128_of_i64 v * ucast (gp_downvote_pool_percent gpo) div u128_of_i64 freezone_100_PERCENT)"

text \<open>The delegator gives shares away, and the mana that goes with them.\<close>

definition give_shares :: "database \<Rightarrow> asset \<Rightarrow> shareholder \<Rightarrow> shareholder result" where
  "give_shares db delta h =
     rbind (asset_add (sh_delegated_vesting_shares h) delta) (\<lambda>x.
     let h1 = h\<lparr>sh_delegated_vesting_shares := x\<rparr> in
     if has_hardfork db 20 then
       let h2 = h1\<lparr>sh_voting_manabar := use_mana (amount delta) 0 (sh_voting_manabar h1)\<rparr> in
       if has_hardfork db 22 then
         rbind (downvote_cost (dgpo db) (amount delta)) (\<lambda>c.
         Inr (h2\<lparr>sh_downvote_manabar := use_mana c 0 (sh_downvote_manabar h2)\<rparr>))
       else if has_hardfork db 21 then
         Inr (h2\<lparr>sh_downvote_manabar := use_mana (amount delta) 0 (sh_downvote_manabar h2)\<rparr>)
       else Inr h2
     else Inr h1)"

definition receive_shares :: "database \<Rightarrow> 32 word \<Rightarrow> asset \<Rightarrow> shareholder \<Rightarrow> shareholder result" where
  "receive_shares db regen delta h =
     rbind (if has_hardfork db 20 then update_manabar (dgpo db) h regen (has_hardfork db 21) (amount delta) else Inr h) (\<lambda>h1.
     rbind (asset_add (sh_received_vesting_shares h1) delta) (\<lambda>x.
     Inr (h1\<lparr>sh_received_vesting_shares := x\<rparr>)))"

text \<open>A bar that falls below zero is set to zero.\<close>

definition use_mana_floor :: "int \<Rightarrow> manabar \<Rightarrow> manabar" where
  "use_mana_floor v m = (let m1 = use_mana v 0 m in if current_mana m1 < 0 then m1\<lparr>current_mana := 0\<rparr> else m1)"

definition lose_shares :: "database \<Rightarrow> 32 word \<Rightarrow> asset \<Rightarrow> asset \<Rightarrow> shareholder \<Rightarrow> shareholder result" where
  "lose_shares db regen delta vesting_shares h =
     rbind (if has_hardfork db 22 then update_manabar (dgpo db) h regen (has_hardfork db 21) 0 else Inr h) (\<lambda>h1.
     rbind (asset_sub (sh_received_vesting_shares h1) delta) (\<lambda>x.
     let h2 = h1\<lparr>sh_received_vesting_shares := x\<rparr> in
     if has_hardfork db 20 then
       let h3 = h2\<lparr>sh_voting_manabar := use_mana_floor (amount delta) (sh_voting_manabar h2)\<rparr> in
       if has_hardfork db 21 then
         rbind (if has_hardfork db 22 then downvote_cost (dgpo db) (amount delta) else Inr (amount vesting_shares)) (\<lambda>c.
         Inr (h3\<lparr>sh_downvote_manabar := use_mana_floor c (sh_downvote_manabar h3)\<rparr>))
       else Inr h3
     else Inr h2))"

definition assert_available :: "database \<Rightarrow> asset \<Rightarrow> asset \<Rightarrow> asset \<Rightarrow> 'a result \<Rightarrow> 'a result" where
  "assert_available db available available_downvote required k =
     rbind (asset_ge available required) (\<lambda>ok.
     fc_assert ok ''Account ${acc} does not have enough mana to delegate. required: ${r} available: ${a}'' (
     rbind (if has_hardfork db 21 then asset_ge available_downvote required else Inr True) (\<lambda>ok2.
     fc_assert ok2 ''Account ${acc} does not have enough downvote mana to delegate. required: ${r} available: ${a}'' k)))"

definition create_delegation ::
    "database \<Rightarrow> holder \<Rightarrow> holder \<Rightarrow> asset \<Rightarrow> 32 word \<Rightarrow> database result" where
  "create_delegation db delegator delegatee vesting_shares regen =
     (let db1 = db\<lparr>vesting_delegations := vesting_delegations db @ [\<lparr>vd_delegator = holder_name delegator,
            vd_delegatee = holder_name delegatee, vd_vesting_shares = vesting_shares, vd_min_delegation_time = head_block_time db\<rparr>]\<rparr> in
      rbind (modify_holder db1 delegator (give_shares db1 vesting_shares)) (\<lambda>db2.
      modify_holder db2 delegatee (receive_shares db2 regen vesting_shares)))"

definition increase_delegation ::
    "database \<Rightarrow> holder \<Rightarrow> holder \<Rightarrow> vesting_delegation_object \<Rightarrow> asset \<Rightarrow> asset \<Rightarrow> 32 word \<Rightarrow> database result" where
  "increase_delegation db delegator delegatee d delta vesting_shares regen =
     rbind (modify_holder db delegator (give_shares db delta)) (\<lambda>db1.
     rbind (modify_holder db1 delegatee (receive_shares db1 regen delta)) (\<lambda>db2.
     Inr (db2\<lparr>vesting_delegations := update_row vd_key (vd_key d) (d\<lparr>vd_vesting_shares := vesting_shares\<rparr>) (vesting_delegations db2)\<rparr>)))"

definition decrease_delegation ::
    "database \<Rightarrow> holder \<Rightarrow> holder \<Rightarrow> vesting_delegation_object \<Rightarrow> asset \<Rightarrow> asset \<Rightarrow> 32 word \<Rightarrow> database result" where
  "decrease_delegation db delegator delegatee d delta vesting_shares regen =
     (let db1 = db\<lparr>delegation_expirations := delegation_expirations db @ [\<lparr>vde_delegator = holder_name delegator,
            vde_vesting_shares = delta,
            vde_expiration = max (head_block_time db + gp_delegation_return_period (dgpo db)) (vd_min_delegation_time d)\<rparr>]\<rparr> in
      rbind (modify_holder db1 delegatee (lose_shares db1 regen delta vesting_shares)) (\<lambda>db2.
      Inr (if amount vesting_shares > 0
           then db2\<lparr>vesting_delegations := update_row vd_key (vd_key d) (d\<lparr>vd_vesting_shares := vesting_shares\<rparr>) (vesting_delegations db2)\<rparr>
           else db2\<lparr>vesting_delegations := remove_row vd_key (vd_key d) (vesting_delegations db2)\<rparr>)))"

definition generic_delegate_vesting_shares_evaluator ::
    "database \<Rightarrow> holder \<Rightarrow> holder \<Rightarrow> asset \<Rightarrow> 32 word \<Rightarrow> database result" where
  "generic_delegate_vesting_shares_evaluator db0 delegator delegatee vesting_shares regen =
     (let delegation = find_row vd_key (holder_name delegator, holder_name delegatee, get_paired_symbol (symbol vesting_shares)) (vesting_delegations db0) in
      rbind (available_shares db0 delegator (symbol vesting_shares) regen) (\<lambda>(available, available_downvote, db).
      rbind (min_delegation_update db (symbol vesting_shares)) (\<lambda>(min_delegation, min_update).
      case delegation of
        None \<Rightarrow>
          assert_available db available available_downvote vesting_shares (
          rbind (asset_ge vesting_shares min_delegation) (\<lambda>ok.
          fc_assert ok ''Account must delegate a minimum of ${v}'' (
          create_delegation db delegator delegatee vesting_shares regen)))
      | Some d \<Rightarrow>
          rbind (asset_ge vesting_shares (vd_vesting_shares d)) (\<lambda>increasing.
          if increasing then
            rbind (asset_sub vesting_shares (vd_vesting_shares d)) (\<lambda>delta.
            rbind (asset_ge delta min_update) (\<lambda>ok.
            fc_assert ok ''freezone Power increase is not enough of a difference. min_update: ${min}'' (
            assert_available db available available_downvote delta (
            increase_delegation db delegator delegatee d delta vesting_shares regen))))
          else
            rbind (asset_sub (vd_vesting_shares d) vesting_shares) (\<lambda>delta.
            if amount vesting_shares > 0 then
              rbind (asset_ge delta min_update) (\<lambda>ok.
              fc_assert ok ''freezone Power decrease is not enough of a difference. min_update: ${min}'' (
              rbind (asset_ge vesting_shares min_delegation) (\<lambda>ok2.
              fc_assert ok2 ''Delegation must be removed or leave minimum delegation amount of ${v}'' (
              decrease_delegation db delegator delegatee d delta vesting_shares regen))))
            else
              fc_assert (amount (vd_vesting_shares d) > 0) ''Delegation would set vesting_shares to zero, but it is already zero'' (
              decrease_delegation db delegator delegatee d delta vesting_shares regen))))))"

definition delegate_vesting_shares_apply :: "database \<Rightarrow> delegate_vesting_shares_operation \<Rightarrow> database result" where
  "delegate_vesting_shares_apply db o1 =
     (let shares = dvs_vesting_shares o1 in
      if space (symbol shares) = legacy_space then
        rbind (get_account db (dvs_delegator o1)) (\<lambda>delegator.
        rbind (get_account db (dvs_delegatee o1)) (\<lambda>delegatee.
        generic_delegate_vesting_shares_evaluator db (Native (acc_name delegator)) (Native (acc_name delegatee)) shares
          (word_of_int freezone_VOTING_MANA_REGENERATION_SECONDS)))
      else
        rbind (get_token db (get_paired_symbol (symbol shares))) (\<lambda>token.
        let s = tok_liquid_symbol token in
        fc_assert (find_row arb_key (dvs_delegator o1, s) (regular_balances db) \<noteq> None)
          ''Account ${acc} does not have a balance for the given symbol. Symbol: ${sym}'' (
        let db1 = (case find_row arb_key (dvs_delegatee o1, s) (regular_balances db) of
                     None \<Rightarrow> db\<lparr>regular_balances := regular_balances db @ [(arb_initialize_assets s arb_default)\<lparr>arb_name := dvs_delegatee o1\<rparr>]\<rparr>
                   | Some _ \<Rightarrow> db) in
        generic_delegate_vesting_shares_evaluator db1 (Token (dvs_delegator o1) s) (Token (dvs_delegatee o1) s) shares
          (tok_vote_regeneration_period_seconds token))))"

section \<open>Expired delegations\<close>

definition generic_clear_expired_delegations ::
    "database \<Rightarrow> holder \<Rightarrow> vesting_delegation_expiration_object \<Rightarrow> 32 word \<Rightarrow> database result" where
  "generic_clear_expired_delegations db account e regen =
     modify_holder db account (\<lambda>h.
       rbind (if has_hardfork db 20 then update_manabar (dgpo db) h regen (has_hardfork db 21) (amount (vde_vesting_shares e)) else Inr h) (\<lambda>h1.
       rbind (asset_sub (sh_delegated_vesting_shares h1) (vde_vesting_shares e)) (\<lambda>x.
       Inr (h1\<lparr>sh_delegated_vesting_shares := x\<rparr>))))"

definition return_delegation :: "vesting_delegation_expiration_object \<Rightarrow> database \<Rightarrow> database result" where
  "return_delegation e db =
     (let db1 = push_virtual_operation db (return_vesting_delegation_operation (vde_delegator e) (vde_vesting_shares e)) in
      rbind (if space (symbol (vde_vesting_shares e)) = legacy_space then
               rbind (get_account db1 (vde_delegator e)) (\<lambda>a.
               generic_clear_expired_delegations db1 (Native (acc_name a)) e (word_of_int freezone_VOTING_MANA_REGENERATION_SECONDS))
             else
               rbind (get_token db1 (get_paired_symbol (symbol (vde_vesting_shares e)))) (\<lambda>token.
               generic_clear_expired_delegations db1 (Token (vde_delegator e) (get_paired_symbol (symbol (vde_vesting_shares e)))) e
                 (tok_vote_regeneration_period_seconds token))) (\<lambda>db2.
      Inr (db2\<lparr>delegation_expirations := remove1 e (delegation_expirations db2)\<rparr>)))"

text \<open>The rows that have expired, by time of expiration and then in the order they were created.\<close>

definition expired_delegations :: "database \<Rightarrow> vesting_delegation_expiration_object list" where
  "expired_delegations db = sort_key vde_expiration (filter (\<lambda>e. vde_expiration e < head_block_time db) (delegation_expirations db))"

definition clear_expired_delegations :: "database \<Rightarrow> database result" where
  "clear_expired_delegations db = rfold return_delegation (expired_delegations db) db"

end
