(* ===== verification/Vesting_State.thy ===== *)
theory Vesting_State
  imports Share_Value
begin

text \<open>
  The properties of vesting: deposits and withdrawals conserve every asset and keep the votes in
  step with the shares, a withdrawal ends after thirteen weeks, the routes give away at most the
  shares of the week, and the value of a share never falls.
\<close>

section \<open>A sample state\<close>

text \<open>Alice withdraws 100 of her 1300 shares per week, and the first week is over.\<close>

definition sample_shareholder :: account_object where
  "sample_shareholder = (sample_account ''alice'' 5000)\<lparr>acc_vesting_shares := mk_asset 1300 VESTS_SYMBOL,
     acc_vesting_withdraw_rate := mk_asset 100 VESTS_SYMBOL, acc_to_withdraw := 1300, acc_next_vesting_withdrawal := 0\<rparr>"

definition sample_pool :: dynamic_global_property_object where
  "sample_pool = dynamic_global_property_object_default\<lparr>gp_total_vesting_shares := mk_asset 1300 VESTS_SYMBOL,
     gp_total_vesting_fund_freezone := mk_asset 1000 freezone_SYMBOL\<rparr>"

definition sample_vesting_db :: database where
  "sample_vesting_db = sample_db\<lparr>accounts := [sample_shareholder], dgpo := sample_pool\<rparr>"

lemma sample_account_rest [simp]:
  "acc_vesting_withdraw_rate (sample_account n x) = mk_asset 0 VESTS_SYMBOL" "acc_to_withdraw (sample_account n x) = 0"
  "acc_withdrawn (sample_account n x) = 0" "acc_delegated_vesting_shares (sample_account n x) = mk_asset 0 VESTS_SYMBOL"
  by (simp_all add: sample_account_def account_object_default_def)

lemma sample_vesting_fields [simp]:
  "accounts sample_vesting_db = [sample_shareholder]" "dgpo sample_vesting_db = sample_pool" "regular_balances sample_vesting_db = []"
  "withdraw_vesting_routes sample_vesting_db = []" "witnesses sample_vesting_db = []" "witness_votes sample_vesting_db = []"
  "head_block_time sample_vesting_db = 0" "processed_hardforks sample_vesting_db = 23"
  by (simp_all add: sample_vesting_db_def sample_db_def empty_database_def head_block_time_def sample_pool_def dynamic_global_property_object_default_def)

lemma sample_pool_fields [simp]:
  "gp_total_vesting_shares sample_pool = mk_asset 1300 VESTS_SYMBOL" "gp_total_vesting_fund_freezone sample_pool = mk_asset 1000 freezone_SYMBOL"
  by (simp_all add: sample_pool_def)

lemma sample_shareholder_fields [simp]:
  "acc_name sample_shareholder = ''alice''" "acc_vesting_shares sample_shareholder = mk_asset 1300 VESTS_SYMBOL" "acc_proxy sample_shareholder = ''''"
  "acc_vesting_withdraw_rate sample_shareholder = mk_asset 100 VESTS_SYMBOL" "acc_to_withdraw sample_shareholder = 1300" "acc_withdrawn sample_shareholder = 0"
  "acc_proxied_vsf_votes sample_shareholder = [0, 0, 0, 0]" "acc_next_vesting_withdrawal sample_shareholder = 0" "acc_balance sample_shareholder = mk_asset 5000 freezone_SYMBOL"
  "acc_delegated_vesting_shares sample_shareholder = mk_asset 0 VESTS_SYMBOL"
  by (simp_all add: sample_shareholder_def)

lemma sample_withdrawals_ok: "withdrawals_ok sample_vesting_db"
proof -
  have "proxies sample_vesting_db = {}" by (auto simp: proxies_def split: if_splits)
  then have "vote_state_ok sample_vesting_db"
    by (simp add: vote_state_ok_def acyclic_def votes_ok_def voters_ok_def freezone_MAX_PROXY_RECURSION_DEPTH_def)
  then show ?thesis
    by (simp add: withdrawals_ok_def pool_typed_def withdraws_ok_def withdraw_ok_def routes_bounded_def routed_def routes_of_def freezone_100_PERCENT_def)
qed

lemma sample_conversion:
  "get_vesting_share_price sample_pool = Inr \<lparr>base = mk_asset 1300 VESTS_SYMBOL, quote = mk_asset 1000 freezone_SYMBOL\<rparr>"
  "asset_mul_price (mk_asset 100 VESTS_SYMBOL) \<lparr>base = mk_asset 1300 VESTS_SYMBOL, quote = mk_asset 1000 freezone_SYMBOL\<rparr> = Inr (mk_asset 76 freezone_SYMBOL)"
   apply (simp add: get_vesting_share_price_def mk_price_def price_validate_def)
  apply (simp add: asset_mul_price_def mul_div_amount_eq i64_of_u64_def)
  done

lemma sample_to_withdraw: "shares_to_withdraw (account_shares sample_shareholder) = Inr 100"
  by (simp add: shares_to_withdraw_def safe_sub_def)

lemma sample_week:
  "\<exists>db' a. withdraw_account_step ''alice'' sample_vesting_db = Inr db' \<and> accounts db' = [a] \<and> acc_name a = ''alice'' \<and> acc_next_vesting_withdrawal a = 604800 \<and>
     amount (acc_vesting_shares a) = 1200 \<and> amount (acc_balance a) = 5076 \<and> pool_shares (dgpo db') = 1200 \<and> pool_fund (dgpo db') = 924"
proof -
  have r: "routes_of sample_vesting_db ''alice'' = []" by (simp add: routes_of_def)
  let ?a = "sample_shareholder\<lparr>acc_vesting_shares := mk_asset 1200 VESTS_SYMBOL, acc_balance := mk_asset 5076 freezone_SYMBOL\<rparr>"
  obtain h where h: "advance_withdraw freezone_VESTING_WITHDRAW_INTERVAL_SECONDS 100 (account_shares ?a) = Inr h"
      "sh_next_vesting_withdrawal h = 604800" "sh_vesting_shares h = mk_asset 1200 VESTS_SYMBOL"
    by (simp add: advance_withdraw_def safe_add_def account_shares_def Let_def freezone_VESTING_WITHDRAW_INTERVAL_SECONDS_def)
  let ?v = "fill_vesting_withdraw_operation ''alice'' ''alice'' (mk_asset 100 VESTS_SYMBOL) (mk_asset 76 freezone_SYMBOL)"
  let ?db = "set_account (put_account_shares h ?a) (push_virtual_operation sample_vesting_db ?v)"
  obtain db4 where s: "shrink_pool (mk_asset 76 freezone_SYMBOL) 100 ?db = Inr db4" "accounts db4 = [put_account_shares h ?a]" "witness_votes db4 = []"
      "pool_shares (dgpo db4) = 1200" "pool_fund (dgpo db4) = 924"
    by (simp add: shrink_pool_def asset_sub_def safe_sub_def Let_def set_account_def)
  have v: "adjust_proxied_witness_votes db4 ''alice'' (- 100) 0 = Inr db4"
    using s(2,3) by (simp add: adjust_proxied_witness_votes.simps get_account_def get_row_def freezone_PROXY_TO_SELF_ACCOUNT_def adjust_witness_votes_def votes_of_def)
  have m: "(mk_asset 1300 VESTS_SYMBOL)\<lparr>amount := 1200\<rparr> = mk_asset 1200 VESTS_SYMBOL" by (simp add: mk_asset_def)
  have "withdraw_account_step ''alice'' sample_vesting_db = Inr db4"
    using h(1) s(1) v
    by (simp add: withdraw_account_step_def get_account_def get_row_def sample_to_withdraw r m sample_conversion Let_def safe_sub_def safe_neg_def asset_add_def safe_add_def)
  then show ?thesis using s h by (intro exI [of _ db4] exI [of _ "put_account_shares h ?a"]) (simp add: put_account_shares_def)
qed

lemma sample_withdrawals:
  "\<exists>db'. process_vesting_withdrawals sample_vesting_db = Inr db' \<and> pool_shares (dgpo db') = 1200 \<and> pool_fund (dgpo db') = 924"
proof -
  obtain db' a where 1: "withdraw_account_step ''alice'' sample_vesting_db = Inr db'" "accounts db' = [a]" "acc_name a = ''alice''" "acc_next_vesting_withdrawal a = 604800"
      "pool_shares (dgpo db') = 1200" "pool_fund (dgpo db') = 924"
    using sample_week by blast
  then have "get_account db' ''alice'' = Inr a" using 1(2,3) by (simp add: get_account_def get_row_def)
  then have "process_vesting_withdrawals sample_vesting_db = Inr db'"
    using 1(1,4) by (simp add: process_vesting_withdrawals_def due_token_withdrawals_def due_withdrawals_def requeue_def)
  then show ?thesis using 1 by blast
qed

section \<open>Claims\<close>

text \<open>
  C22: the weekly withdrawals, with all routes, proxies and tokens, leave the surplus of every symbol and of
  the votes as it was, and every witness still has exactly the votes of its voters' shares.
\<close>

theorem vesting_withdrawals_conserve:
  assumes "process_vesting_withdrawals db = Inr db'" "withdrawals_ok db"
  shows "surplus s db' = surplus s db \<and> vsf_surplus db' = vsf_surplus db \<and> vote_state_ok db' \<and> withdrawals_ok db'"
  using process_vesting_withdrawals_effect [OF assms, of s] by (simp add: withdrawals_ok_def)

theorem vesting_withdrawals_conserve_witness:
  "\<exists>db'. process_vesting_withdrawals sample_vesting_db = Inr db' \<and> vote_state_ok db' \<and> vsf_surplus db' = 0 \<and> pool_shares (dgpo db') = 1200"
proof -
  obtain db' where 1: "process_vesting_withdrawals sample_vesting_db = Inr db'" "pool_shares (dgpo db') = 1200"
    using sample_withdrawals by (elim exE conjE)
  have "vsf_surplus sample_vesting_db = 0" by (simp add: vsf_surplus_def vsf_total_def vsf_def weight_def freezone_PROXY_TO_SELF_ACCOUNT_def)
  then show ?thesis using 1 vesting_withdrawals_conserve [OF 1(1) sample_withdrawals_ok] by simp
qed

text \<open>
  C25: a share is never worth less after the withdrawals of a block than before, as long as the pool is
  not emptied: the fund that leaves is rounded down.
\<close>

theorem share_value_after_withdrawals:
  assumes "process_vesting_withdrawals db = Inr db'" "withdrawals_ok db" "0 < pool_fund (dgpo db)" "pool_fund (dgpo db) \<le> i64_max"
    "pool_shares (dgpo db) \<le> i64_max" "0 < pool_shares (dgpo db')"
  shows "0 < pool_fund (dgpo db') \<and> pool_shares (dgpo db') \<le> pool_shares (dgpo db) \<and>
    Fract (pool_fund (dgpo db)) (pool_shares (dgpo db)) \<le> Fract (pool_fund (dgpo db')) (pool_shares (dgpo db'))"
  using process_vesting_withdrawals_drains [OF assms(1,2)] assms(3-6) by (simp add: drains_def)

theorem share_value_after_withdrawals_witness:
  "\<exists>db'. process_vesting_withdrawals sample_vesting_db = Inr db' \<and> Fract 1000 1300 \<le> Fract (pool_fund (dgpo db')) (pool_shares (dgpo db'))"
proof -
  obtain db' where 1: "process_vesting_withdrawals sample_vesting_db = Inr db'" "pool_shares (dgpo db') = 1200"
    using sample_withdrawals by (elim exE conjE)
  then show ?thesis using share_value_after_withdrawals [OF 1(1) sample_withdrawals_ok] by simp
qed

lemma adjust_native_effect:
  assumes "adjust_balance_of db n x = Inr db'" "symbol x = freezone_SYMBOL"
  shows "dgpo db' = dgpo db"
  using assms by (auto simp: adjust_balance_of_def modify_balance_def res_simps split: if_splits)

lemma transfer_to_vesting_surplus: "transfer_to_vesting_apply db o1 = Inr db' \<Longrightarrow> surplus s db' = surplus s db"
  by (erule transfer_to_vesting_cases)
    (auto simp: create_vesting_def dest!: amt_neg [where s = s] adjust_balance_of_surplus [where s = s] create_vesting2_surplus [where s = s, OF _ notifies_none])

lemma transfer_to_vesting_votes:
  assumes "transfer_to_vesting_apply db o1 = Inr db'" "symbol (ttv_amount o1) = freezone_SYMBOL" "vote_state_ok db" "pool_typed (dgpo db)"
  shows "vote_state_ok db' \<and> vsf_surplus db' = vsf_surplus db \<and> pool_typed (dgpo db')"
  using assms(1)
proof (cases rule: transfer_to_vesting_cases)
  case (1 a t d db1 nv)
  have "symbol d = freezone_SYMBOL" using asset_neg_value [OF 1(1)] assms(2) by simp
  then have "votes_untouched db db1" using 1(2) by (intro adjust_balance_untouched(2)) auto
  note u = votes_untouchedD [OF this]
  show ?thesis using create_vesting2_votes [OF 1(3) [unfolded create_vesting_def] notifies_none assms(2)] u assms(3,4) by simp
qed

lemma transfer_to_vesting_pool:
  assumes "transfer_to_vesting_apply db o1 = Inr db'" "symbol (ttv_amount o1) = freezone_SYMBOL" "pool_typed (dgpo db)"
    "0 < pool_fund (dgpo db)" "pool_fund (dgpo db) \<le> i64_max" "0 < pool_shares (dgpo db)" "pool_shares (dgpo db) \<le> i64_max"
    "0 \<le> amount (ttv_amount o1)" "amount (ttv_amount o1) \<le> i64_max"
  shows "pool_fund (dgpo db') = pool_fund (dgpo db) + amount (ttv_amount o1) \<and>
    pool_fund (dgpo db) * pool_shares (dgpo db') \<le> pool_fund (dgpo db') * pool_shares (dgpo db)"
  using assms(1)
proof (cases rule: transfer_to_vesting_cases)
  case (1 a t d db1 nv)
  have "symbol d = freezone_SYMBOL" using asset_neg_value [OF 1(1)] assms(2) by simp
  then have "dgpo db1 = dgpo db" by (rule adjust_native_effect [OF 1(2)])
  then show ?thesis using create_vesting_pool [OF 1(3) assms(2)] assms(3-9) by (simp add: algebra_simps)
qed

text \<open>
  C24: a deposit of the native asset conserves every asset, keeps the votes in step with the shares, adds
  all of it to the fund, and gives the depositor at most the proportional part of the shares.
\<close>

theorem transfer_to_vesting_fair:
  assumes "transfer_to_vesting_apply db o1 = Inr db'" "symbol (ttv_amount o1) = freezone_SYMBOL" "vote_state_ok db" "pool_typed (dgpo db)"
    "0 < pool_fund (dgpo db)" "pool_fund (dgpo db) \<le> i64_max" "0 < pool_shares (dgpo db)" "pool_shares (dgpo db) \<le> i64_max"
    "0 \<le> amount (ttv_amount o1)" "amount (ttv_amount o1) \<le> i64_max"
  shows "surplus s db' = surplus s db \<and> vote_state_ok db' \<and> vsf_surplus db' = vsf_surplus db \<and>
    pool_fund (dgpo db') = pool_fund (dgpo db) + amount (ttv_amount o1) \<and>
    pool_fund (dgpo db) * pool_shares (dgpo db') \<le> pool_fund (dgpo db') * pool_shares (dgpo db)"
  using transfer_to_vesting_surplus [OF assms(1)] transfer_to_vesting_votes [OF assms(1-4)] transfer_to_vesting_pool [OF assms(1,2,4-10)] by blast

definition sample_deposit :: transfer_to_vesting_operation where
  "sample_deposit = \<lparr>ttv_from = ''alice'', ttv_to = '''', ttv_amount = mk_asset 50 freezone_SYMBOL\<rparr>"

text \<open>Before hardfork 20 a deposit does not touch the mana bars.\<close>

definition sample_deposit_db :: database where
  "sample_deposit_db = sample_vesting_db\<lparr>processed_hardforks := 19\<rparr>"

lemma sample_deposit_ok: "vote_state_ok sample_deposit_db"
  using votes_tables_cong(6) [of sample_deposit_db sample_vesting_db] sample_withdrawals_ok
  by (simp add: sample_deposit_db_def withdrawals_ok_def)

lemma sample_deposit_succeeds: "\<exists>db'. transfer_to_vesting_apply sample_deposit_db sample_deposit = Inr db'"
proof -
  let ?db = sample_deposit_db
  let ?a = "sample_shareholder\<lparr>acc_balance := mk_asset 4950 freezone_SYMBOL\<rparr>"
  let ?b = "?a\<lparr>acc_vesting_shares := mk_asset 1365 VESTS_SYMBOL\<rparr>"
  have f: "accounts ?db = [sample_shareholder]" "dgpo ?db = sample_pool" "\<not> has_hardfork ?db 20" "\<not> has_hardfork ?db 21" "witness_votes ?db = []"
    by (simp_all add: sample_deposit_db_def has_hardfork_def)
  have 1: "adjust_balance_of ?db ''alice'' (mk_asset (- 50) freezone_SYMBOL) = Inr (set_account ?a ?db)"
    using f by (simp add: adjust_balance_of_def modify_balance_def get_account_def get_row_def check_available_def get_balance_of_def
        asset_add_def safe_add_def asset_neg_def safe_neg_def asset_ge_def)
  have c: "asset_mul_price (mk_asset 50 freezone_SYMBOL) \<lparr>base = mk_asset 1300 VESTS_SYMBOL, quote = mk_asset 1000 freezone_SYMBOL\<rparr> = Inr (mk_asset 65 VESTS_SYMBOL)"
    by (simp add: asset_mul_price_def mul_div_amount_eq i64_of_u64_def)
  have 2: "adjust_balance_of (set_account ?a ?db) ''alice'' (mk_asset 65 VESTS_SYMBOL) = Inr (set_account ?b (set_account ?a ?db))"
    using f by (simp add: adjust_balance_of_def modify_balance_def get_account_def get_row_def check_available_def get_balance_of_def
        asset_add_def safe_add_def asset_neg_def safe_neg_def asset_ge_def set_account_def)
  let ?db2 = "set_account ?b (set_account ?a ?db)"
  obtain g where g: "grow_pool False (mk_asset 50 freezone_SYMBOL) (mk_asset 65 VESTS_SYMBOL) (dgpo ?db2) = Inr g"
    using f by (simp add: grow_pool_def asset_add_def safe_add_def)
  have 3: "adjust_proxied_witness_votes (?db2\<lparr>dgpo := g\<rparr>) ''alice'' 65 0 = Inr (?db2\<lparr>dgpo := g\<rparr>)"
    using f by (simp add: adjust_proxied_witness_votes.simps get_account_def get_row_def freezone_PROXY_TO_SELF_ACCOUNT_def adjust_witness_votes_def
        votes_of_def set_account_def)
  have "create_vesting (set_account ?a ?db) ''alice'' (mk_asset 50 freezone_SYMBOL) False = Inr (mk_asset 65 VESTS_SYMBOL, ?db2\<lparr>dgpo := g\<rparr>)"
    using f c 2 g 3 sample_conversion(1) by (simp add: create_vesting_def create_vesting2_def has_hardfork_def)
  then show ?thesis
    using 1 f by (simp add: transfer_to_vesting_apply_def sample_deposit_def get_account_def get_row_def asset_neg_def safe_neg_def)
qed

theorem transfer_to_vesting_fair_witness:
  "\<exists>db'. transfer_to_vesting_apply sample_deposit_db sample_deposit = Inr db' \<and> pool_fund (dgpo db') = 1050 \<and> vote_state_ok db'"
proof -
  obtain db' where d: "transfer_to_vesting_apply sample_deposit_db sample_deposit = Inr db'" using sample_deposit_succeeds ..
  have f: "dgpo sample_deposit_db = sample_pool" by (simp add: sample_deposit_db_def)
  show ?thesis using d transfer_to_vesting_fair [OF d _ sample_deposit_ok] f by (simp add: sample_deposit_def pool_typed_def)
qed

section \<open>Schedules and routes\<close>

lemma withdraw_native_started:
  assumes "withdraw_vesting_apply db o1 = Inr db'" "symbol (wv_op_vesting_shares o1) = VESTS_SYMBOL" "0 < amount (wv_op_vesting_shares o1)"
    "has_hardfork db 16" "has_hardfork db 21"
  obtains a r where "find_row acc_name (wv_op_account o1) (accounts db) = Some a"
    "amount (wv_op_vesting_shares o1) \<le> amount (acc_vesting_shares a) - amount (acc_delegated_vesting_shares a)"
    "withdraw_rate True (amount (wv_op_vesting_shares o1)) freezone_VESTING_WITHDRAW_INTERVALS = Inr r"
    "db' = set_account (put_account_shares (start_withdraw (mk_asset r VESTS_SYMBOL)
       (head_block_time db + freezone_VESTING_WITHDRAW_INTERVAL_SECONDS) (amount (wv_op_vesting_shares o1)) (account_shares a)) a) db"
proof -
  have s: "space VESTS_SYMBOL \<noteq> SST_nai_space" by simp
  obtain a where a: "find_row acc_name (wv_op_account o1) (accounts db) = Some a" "withdraw_native_vesting db a (wv_op_vesting_shares o1) = Inr db'"
    using assms s by (auto simp: withdraw_vesting_apply_def Let_def rbind_eq_Inr get_account_eq_Inr)
  obtain f r where r: "asset_sub (acc_vesting_shares a) (acc_delegated_vesting_shares a) = Inr f" "amount (wv_op_vesting_shares o1) \<le> amount f"
      "withdraw_rate True (amount (wv_op_vesting_shares o1)) freezone_VESTING_WITHDRAW_INTERVALS = Inr r"
      "db' = set_account (put_account_shares (start_withdraw (mk_asset r VESTS_SYMBOL)
         (head_block_time db + freezone_VESTING_WITHDRAW_INTERVAL_SECONDS) (amount (wv_op_vesting_shares o1)) (account_shares a)) a) db"
    using a(2) assms(3-5) by (auto simp: withdraw_native_vesting_def Let_def rbind_eq_Inr fc_assert_eq_Inr asset_cmp_eq_Inr split: if_splits)
  show ?thesis using asset_sub_value [OF r(1)] r(2) by (intro that [OF a(1) _ r(3,4)]) simp
qed



lemma rfold_vests_routes:
  "rfold (route_to_vests from tw) rs (d, db) = Inr (d', db') \<Longrightarrow> withdraw_vesting_routes db' = withdraw_vesting_routes db"
proof -
  have step: "withdraw_vesting_routes y = withdraw_vesting_routes x" if "route_to_vests from tw r (e, x) = Inr (e', y)" for r e x e' y
    using that by (auto simp: route_to_vests_def add_vesting_shares_def Let_def rbind_eq_Inr split: if_splits dest!: adjust_proxied_frame [THEN votes_frame_routes])
  assume "rfold (route_to_vests from tw) rs (d, db) = Inr (d', db')"
  from rfold_invariant [OF this, of "\<lambda>(_, x). withdraw_vesting_routes x = withdraw_vesting_routes db"] step show ?thesis by fastforce
qed

lemma routes_leave_rest:
  assumes "routes_bounded db" "0 \<le> tw" "tw \<le> i64_max" "rfold (route_to_vests from tw) (routes_of db from) (0, db) = Inr (dv, db1)"
    "rfold (route_to_liquid from tw) (routes_of db1 from) (0, z, db1) = Inr (df, t, db2)"
  shows "dv = routed_shares True tw (routes_of db from)" "df = routed_shares False tw (routes_of db from)" "0 \<le> tw - df - dv"
proof -
  have r: "routes_of db1 from = routes_of db from" using rfold_vests_routes [OF assms(4)] by (simp add: routes_of_def)
  have b: "\<forall>r \<in> set (routes_of db from). uint (wr_percent r) \<le> freezone_100_PERCENT" using routes_bounded_percent [OF assms(1)] by blast
  show d: "dv = routed_shares True tw (routes_of db from)" "df = routed_shares False tw (routes_of db from)"
    using rfold_vests_sum [OF assms(4,2,3) b] rfold_liquid_sum [OF assms(5,2,3)] b by (simp_all add: r)
  show "0 \<le> tw - df - dv"
    using routed_shares_le [OF assms(2), of "routes_of db from"] assms(1) d by (simp add: routes_bounded_def routed_def)
qed

text \<open>
  C26: the 16-bit test of the evaluator is enough: after any accepted change of a route the percentages of
  every account add up to at most 100%, and the routes of a withdrawal of any size give away exactly the rounded
  parts, never more than is withdrawn.
\<close>

theorem routes_within_everything:
  assumes "set_withdraw_vesting_route_apply db o1 = Inr db'" "routes_bounded db" "uint (swr_percent o1) \<le> freezone_100_PERCENT"
    "0 \<le> tw" "tw \<le> i64_max" "rfold (route_to_vests from tw) (routes_of db' from) (0, db') = Inr (dv, db1)"
    "rfold (route_to_liquid from tw) (routes_of db1 from) (0, z, db1) = Inr (df, t, db2)"
  shows "routes_bounded db' \<and> 0 \<le> tw - df - dv \<and>
    dv + df = sum_list (map (\<lambda>r. tw * uint (wr_percent r) div freezone_100_PERCENT) (routes_of db' from))"
proof -
  have b: "routes_bounded db'" by (rule set_route_bounded [OF assms(1-3)])
  have "routed_shares True tw rs + routed_shares False tw rs = sum_list (map (\<lambda>r. tw * uint (wr_percent r) div freezone_100_PERCENT) rs)" for rs
    by (induction rs) (auto simp: routed_shares_def)
  then show ?thesis using b routes_leave_rest [OF b assms(4-7)] by simp
qed

definition sample_routes_db :: database where
  "sample_routes_db = sample_vesting_db\<lparr>accounts := [sample_shareholder, sample_account ''bob'' 10]\<rparr>"

definition sample_route :: withdraw_vesting_route_object where
  "sample_route = \<lparr>wr_from_account = ''alice'', wr_to_account = ''bob'', wr_percent = 2500, wr_auto_vest = False\<rparr>"

definition sample_set_route :: set_withdraw_vesting_route_operation where
  "sample_set_route = \<lparr>swr_from_account = ''alice'', swr_to_account = ''bob'', swr_percent = 2500, swr_auto_vest = False\<rparr>"

lemma sample_set_route_succeeds:
  "\<exists>a. set_withdraw_vesting_route_apply sample_routes_db sample_set_route = Inr (sample_routes_db\<lparr>withdraw_vesting_routes := [sample_route], accounts := [a, sample_account ''bob'' 10]\<rparr>) \<and>
     acc_name a = ''alice''"
proof -
  have r: "acc_withdraw_routes sample_shareholder = 0" by (simp add: sample_shareholder_def sample_account_def account_object_default_def)
  show ?thesis
    by (rule exI [of _ "sample_shareholder\<lparr>acc_withdraw_routes := 1\<rparr>"])
      (simp add: set_withdraw_vesting_route_apply_def sample_set_route_def sample_routes_db_def get_account_def get_row_def r has_hardfork_def sample_route_def
        freezone_TREASURY_ACCOUNT_def freezone_MAX_WITHDRAW_ROUTES_def modify_account_def set_account_def routes_of_def total_percent_def freezone_100_PERCENT_def)
qed

lemma sample_route_paid:
  assumes "accounts db = [a, sample_account ''bob'' 10]" "acc_name a = ''alice''" "dgpo db = sample_pool"
  shows "\<exists>t db2. route_to_liquid ''alice'' 100 sample_route (0, mk_asset 0 freezone_SYMBOL, db) = Inr (25, t, db2)"
proof -
  have r: "route_share 100 sample_route = Inr 25"
  proof -
    have "u128_of_i64 100 * ucast (wr_percent sample_route) div u128_of_i64 freezone_100_PERCENT = (25 :: 128 word)"
      by (simp add: u128_of_i64_def sample_route_def freezone_100_PERCENT_def)
    then show ?thesis by (simp add: route_share_def to_uint64_def u128_hi_def i64_of_u64_def)
  qed
  have c: "asset_mul_price (mk_asset 25 VESTS_SYMBOL) \<lparr>base = mk_asset 1300 VESTS_SYMBOL, quote = mk_asset 1000 freezone_SYMBOL\<rparr> = Inr (mk_asset 19 freezone_SYMBOL)"
    by (simp add: asset_mul_price_def mul_div_amount_eq i64_of_u64_def)
  have n: "wr_to_account sample_route = ''bob''" "\<not> wr_auto_vest sample_route" by (simp_all add: sample_route_def)
  show ?thesis
    using assms by (simp add: route_to_liquid_def n r c get_account_def get_row_def sample_conversion(1) safe_add_def asset_add_def Let_def
        shrink_pool_def asset_sub_def safe_sub_def)
qed

theorem routes_within_everything_witness:
  "\<exists>db' t db2. set_withdraw_vesting_route_apply sample_routes_db sample_set_route = Inr db' \<and> routes_bounded db' \<and>
     rfold (route_to_liquid ''alice'' 100) (routes_of db' ''alice'') (0, mk_asset 0 freezone_SYMBOL, db') = Inr (25, t, db2)"
proof -
  obtain a where a: "set_withdraw_vesting_route_apply sample_routes_db sample_set_route =
      Inr (sample_routes_db\<lparr>withdraw_vesting_routes := [sample_route], accounts := [a, sample_account ''bob'' 10]\<rparr>)" "acc_name a = ''alice''"
    using sample_set_route_succeeds by (elim exE conjE)
  define db' where "db' = sample_routes_db\<lparr>withdraw_vesting_routes := [sample_route], accounts := [a, sample_account ''bob'' 10]\<rparr>"
  have f: "accounts db' = [a, sample_account ''bob'' 10]" "dgpo db' = sample_pool" "routes_of db' ''alice'' = [sample_route]"
    by (simp_all add: db'_def sample_routes_db_def routes_of_def sample_route_def)
  obtain t db2 where 1: "route_to_liquid ''alice'' 100 sample_route (0, mk_asset 0 freezone_SYMBOL, db') = Inr (25, t, db2)"
    using sample_route_paid [OF f(1) a(2) f(2)] by (elim exE)
  have v: "rfold (route_to_vests ''alice'' 100) (routes_of db' ''alice'') (0, db') = Inr (0, db')"
    by (simp add: f route_to_vests_def sample_route_def)
  have l: "rfold (route_to_liquid ''alice'' 100) (routes_of db' ''alice'') (0, mk_asset 0 freezone_SYMBOL, db') = Inr (25, t, db2)"
    using 1 by (simp add: f)
  have "routes_bounded sample_routes_db" by (simp add: routes_bounded_def routed_def routes_of_def sample_routes_db_def freezone_100_PERCENT_def)
  then have "routes_bounded db'"
    using routes_within_everything [OF a(1) [folded db'_def] _ _ _ _ v l] by (simp add: sample_set_route_def freezone_100_PERCENT_def)
  then show ?thesis using a(1) l unfolding db'_def by blast
qed

end
