(* ===== verification/Delegation_State.thy ===== *)
theory Delegation_State
  imports Delegation Vesting_State
begin

text \<open>
  The counters of delegated and received shares of every account and token balance are the sums of the
  delegations and of the delegations that wait for their return; no operation creates or loses shares.
\<close>

section \<open>Rows of shareholders\<close>

fun holder_symbol :: "holder \<Rightarrow> asset_symbol_type" where
  "holder_symbol (Native n) = VESTS_SYMBOL"
| "holder_symbol (Token n s) = get_paired_symbol s"

fun holder_valid :: "holder \<Rightarrow> bool" where
  "holder_valid (Native n) = True"
| "holder_valid (Token n s) = (space s = SST_nai_space \<and> space (get_paired_symbol s) = SST_nai_space)"

definition holder_of :: "account_name_type \<Rightarrow> asset_symbol_type \<Rightarrow> holder" where
  "holder_of n v = (if v = VESTS_SYMBOL then Native n else Token n (get_paired_symbol v))"

lemma holder_of_eq: "holder_valid r \<Longrightarrow> holder_of n v = r \<longleftrightarrow> n = holder_name r \<and> v = holder_symbol r"
proof (cases r)
  case (Token m s)
  assume "holder_valid r"
  then have s: "space s = SST_nai_space" "space (get_paired_symbol s) = SST_nai_space" using Token by auto
  then have p: "get_paired_symbol (get_paired_symbol s) = s" "get_paired_symbol s \<noteq> VESTS_SYMBOL"
    using paired_SST [OF s(1)] paired_SST [OF s(2)] by (auto simp: xor.assoc)
  have "v = get_paired_symbol s" if "get_paired_symbol v = s"
  proof -
    have "space v = SST_nai_space" using that s(1) by (cases "space v") (auto simp: get_paired_symbol_def split: if_splits)
    then show ?thesis using paired_inj [of "get_paired_symbol s" v] s(2) p(1) that by simp
  qed
  then show ?thesis using Token p by (auto simp: holder_of_def)
qed (auto simp: holder_of_def)

definition holder_delegated :: "database \<Rightarrow> holder \<Rightarrow> int" where
  "holder_delegated db r = (case get_holder db r of Inl _ \<Rightarrow> 0 | Inr h \<Rightarrow> amount (sh_delegated_vesting_shares h))"

definition holder_received :: "database \<Rightarrow> holder \<Rightarrow> int" where
  "holder_received db r = (case get_holder db r of Inl _ \<Rightarrow> 0 | Inr h \<Rightarrow> amount (sh_received_vesting_shares h))"

definition holder_typed :: "holder \<Rightarrow> shareholder \<Rightarrow> bool" where
  "holder_typed r h \<longleftrightarrow> holder_valid r \<and> symbol (sh_delegated_vesting_shares h) = holder_symbol r \<and>
     symbol (sh_received_vesting_shares h) = holder_symbol r"

definition holders_typed :: "database \<Rightarrow> bool" where
  "holders_typed db \<longleftrightarrow> (\<forall>r h. get_holder db r = Inr h \<longrightarrow> holder_typed r h) \<and> (\<forall>t \<in> set (SST_tokens db). holder_valid (Token '''' (tok_liquid_symbol t)))"

text \<open>A change of a row that adds to its delegated and received shares and to nothing else.\<close>

definition shifts :: "(shareholder \<Rightarrow> shareholder result) \<Rightarrow> int \<Rightarrow> int \<Rightarrow> bool" where
  "shifts f a b \<longleftrightarrow> (\<forall>h h'. f h = Inr h' \<longrightarrow>
     sh_delegated_vesting_shares h' = mk_asset (amount (sh_delegated_vesting_shares h) + a) (symbol (sh_delegated_vesting_shares h)) \<and>
     sh_received_vesting_shares h' = mk_asset (amount (sh_received_vesting_shares h) + b) (symbol (sh_received_vesting_shares h)) \<and>
     sh_vesting_shares h' = sh_vesting_shares h \<and> sh_to_withdraw h' = sh_to_withdraw h \<and> sh_withdrawn h' = sh_withdrawn h \<and>
     sh_vesting_withdraw_rate h' = sh_vesting_withdraw_rate h \<and> sh_next_vesting_withdrawal h' = sh_next_vesting_withdrawal h)"

lemma update_manabar_keeps:
  assumes "(if c then update_manabar g h regen dv n else Inr h) = Inr h'"
  shows "sh_delegated_vesting_shares h' = sh_delegated_vesting_shares h \<and> sh_received_vesting_shares h' = sh_received_vesting_shares h \<and>
    sh_vesting_shares h' = sh_vesting_shares h \<and> sh_to_withdraw h' = sh_to_withdraw h \<and> sh_withdrawn h' = sh_withdrawn h \<and>
    sh_vesting_withdraw_rate h' = sh_vesting_withdraw_rate h \<and> sh_next_vesting_withdrawal h' = sh_next_vesting_withdrawal h"
  using assms by (auto split: if_splits dest!: update_manabar_effect)

lemma update_manabar_shifts: "shifts (\<lambda>h. update_manabar g h regen dv n) 0 0"
  unfolding shifts_def using update_manabar_keeps [of True] by fastforce

lemma give_shares_shifts: "shifts (give_shares db x) (amount x) 0"
  unfolding shifts_def
proof (intro allI impI)
  fix h h'
  assume "give_shares db x h = Inr h'"
  then obtain y m d where y: "asset_add (sh_delegated_vesting_shares h) x = Inr y"
      "h' = h\<lparr>sh_delegated_vesting_shares := y, sh_voting_manabar := m, sh_downvote_manabar := d\<rparr>"
    by (cases h) (auto simp: give_shares_def Let_def rbind_eq_Inr split: if_splits)
  from asset_add_value [OF y(1)] have "y = mk_asset (amount (sh_delegated_vesting_shares h) + amount x) (symbol (sh_delegated_vesting_shares h))" ..
  then show "sh_delegated_vesting_shares h' = mk_asset (amount (sh_delegated_vesting_shares h) + amount x) (symbol (sh_delegated_vesting_shares h)) \<and>
     sh_received_vesting_shares h' = mk_asset (amount (sh_received_vesting_shares h) + 0) (symbol (sh_received_vesting_shares h)) \<and>
     sh_vesting_shares h' = sh_vesting_shares h \<and> sh_to_withdraw h' = sh_to_withdraw h \<and> sh_withdrawn h' = sh_withdrawn h \<and>
     sh_vesting_withdraw_rate h' = sh_vesting_withdraw_rate h \<and> sh_next_vesting_withdrawal h' = sh_next_vesting_withdrawal h"
    by (simp add: y(2))
qed

lemma receive_shares_shifts: "shifts (receive_shares db regen x) 0 (amount x)"
  unfolding shifts_def
proof (intro allI impI)
  fix h h'
  assume "receive_shares db regen x h = Inr h'"
  then obtain h1 y where y: "(if has_hardfork db 20 then update_manabar (dgpo db) h regen (has_hardfork db 21) (amount x) else Inr h) = Inr h1"
      "asset_add (sh_received_vesting_shares h1) x = Inr y" "h' = h1\<lparr>sh_received_vesting_shares := y\<rparr>"
    by (auto simp: receive_shares_def rbind_eq_Inr)
  note k = update_manabar_keeps [OF y(1)]
  from asset_add_value [OF y(2)] have "y = mk_asset (amount (sh_received_vesting_shares h1) + amount x) (symbol (sh_received_vesting_shares h1))" ..
  then show "sh_delegated_vesting_shares h' = mk_asset (amount (sh_delegated_vesting_shares h) + 0) (symbol (sh_delegated_vesting_shares h)) \<and>
     sh_received_vesting_shares h' = mk_asset (amount (sh_received_vesting_shares h) + amount x) (symbol (sh_received_vesting_shares h)) \<and>
     sh_vesting_shares h' = sh_vesting_shares h \<and> sh_to_withdraw h' = sh_to_withdraw h \<and> sh_withdrawn h' = sh_withdrawn h \<and>
     sh_vesting_withdraw_rate h' = sh_vesting_withdraw_rate h \<and> sh_next_vesting_withdrawal h' = sh_next_vesting_withdrawal h"
    using k by (simp add: y(3))
qed

lemma lose_shares_shifts: "shifts (lose_shares db regen x v) 0 (- amount x)"
  unfolding shifts_def
proof (intro allI impI)
  fix h h'
  assume l: "lose_shares db regen x v h = Inr h'"
  then obtain h1 y where y: "(if has_hardfork db 22 then update_manabar (dgpo db) h regen (has_hardfork db 21) 0 else Inr h) = Inr h1"
      "asset_sub (sh_received_vesting_shares h1) x = Inr y"
    unfolding lose_shares_def rbind_eq_Inr by blast
  with l obtain m d where h': "h' = h1\<lparr>sh_received_vesting_shares := y, sh_voting_manabar := m, sh_downvote_manabar := d\<rparr>"
    unfolding lose_shares_def rbind_eq_Inr by (cases h1) (auto simp: Let_def rbind_eq_Inr split: if_splits)
  note k = update_manabar_keeps [OF y(1)]
  from asset_sub_value [OF y(2)] have "y = mk_asset (amount (sh_received_vesting_shares h1) - amount x) (symbol (sh_received_vesting_shares h1))" ..
  then show "sh_delegated_vesting_shares h' = mk_asset (amount (sh_delegated_vesting_shares h) + 0) (symbol (sh_delegated_vesting_shares h)) \<and>
     sh_received_vesting_shares h' = mk_asset (amount (sh_received_vesting_shares h) + - amount x) (symbol (sh_received_vesting_shares h)) \<and>
     sh_vesting_shares h' = sh_vesting_shares h \<and> sh_to_withdraw h' = sh_to_withdraw h \<and> sh_withdrawn h' = sh_withdrawn h \<and>
     sh_vesting_withdraw_rate h' = sh_vesting_withdraw_rate h \<and> sh_next_vesting_withdrawal h' = sh_next_vesting_withdrawal h"
    using k by (simp add: h')
qed

lemma get_account_cong: "find_row acc_name n (accounts db') = find_row acc_name n (accounts db) \<Longrightarrow> get_account db' n = get_account db n"
  by (simp add: get_account_def get_row_def)

lemma put_balance_key [simp]: "arb_key (put_balance_shares h b) = arb_key b" "arb_name (put_balance_shares h b) = arb_name b"
  "arb_liquid (put_balance_shares h b) = arb_liquid b" "arb_vesting_shares (put_balance_shares h b) = sh_vesting_shares h"
  by (simp_all add: put_balance_shares_def arb_key_def)

lemma put_holder_get:
  assumes "put_holder db r h' = Inr db'"
  shows "get_holder db' r' = (if r' = r then Inr h' else get_holder db r')"
proof (cases r)
  case (Native n)
  then obtain a where a: "find_row acc_name n (accounts db) = Some a" "db' = set_account (put_account_shares h' a) db"
    using assms by (auto simp: rbind_eq_Inr get_account_eq_Inr)
  have f: "find_row acc_name m (accounts db') = (if m = n then Some (put_account_shares h' a) else find_row acc_name m (accounts db))" for m
    using find_account_set [of "put_account_shares h' a" db a m] a find_row_key [OF a(1)] by simp
  have "regular_balances db' = regular_balances db" by (simp add: a(2) set_account_def)
  then show ?thesis using Native f by (cases r') (auto simp: get_account_def get_row_def)
next
  case (Token n s)
  then obtain b where b: "find_row arb_key (n, s) (regular_balances db) = Some b"
      "db' = db\<lparr>regular_balances := update_row arb_key (n, s) (put_balance_shares h' b) (regular_balances db)\<rparr>"
    using assms by (auto simp: rbind_eq_Inr get_row_eq_Inr)
  have f: "find_row arb_key k (regular_balances db') = (if k = (n, s) then Some (put_balance_shares h' b) else find_row arb_key k (regular_balances db))" for k
    using find_row_update_row [OF b(1), of "put_balance_shares h' b" k] find_row_key [OF b(1)] by (simp add: b(2))
  have "accounts db' = accounts db" by (simp add: b(2))
  then show ?thesis using Token f by (cases r') (auto simp: get_account_def get_row_def)
qed

text \<open>A change of the delegations alone leaves the assets and the votes as they are.\<close>

definition delegations_frame :: "database \<Rightarrow> database \<Rightarrow> bool" where
  "delegations_frame db db' \<longleftrightarrow> (\<forall>s. surplus s db' = surplus s db) \<and> votes_untouched db db' \<and> (solvent db \<longrightarrow> solvent db') \<and>
     dgpo db' = dgpo db \<and> SST_tokens db' = SST_tokens db \<and> witness_schedule db' = witness_schedule db \<and> processed_hardforks db' = processed_hardforks db"

lemma delegations_frame_refl [simp]: "delegations_frame db db"
  by (simp add: delegations_frame_def)

lemma delegations_frame_trans: "delegations_frame db db1 \<Longrightarrow> delegations_frame db1 db2 \<Longrightarrow> delegations_frame db db2"
  unfolding delegations_frame_def using votes_untouched_trans by metis

lemma delegations_frame_tables [simp]:
  "delegations_frame db (d\<lparr>vesting_delegations := x\<rparr>) = delegations_frame db d" "delegations_frame db (d\<lparr>delegation_expirations := y\<rparr>) = delegations_frame db d"
  "delegations_frame db (push_virtual_operation d v) = delegations_frame db d"
  by (simp_all add: delegations_frame_def surplus_def held_def issued_def votes_untouched_def solvent_def push_virtual_operation_def)

lemma delegations_frame_from [simp]:
  "delegations_frame (d\<lparr>vesting_delegations := x\<rparr>) db = delegations_frame d db" "delegations_frame (d\<lparr>delegation_expirations := y\<rparr>) db = delegations_frame d db"
  "delegations_frame (push_virtual_operation d v) db = delegations_frame d db"
  by (simp_all add: delegations_frame_def surplus_def held_def issued_def votes_untouched_def solvent_def push_virtual_operation_def)

lemma put_holder_frame:
  assumes "put_holder db r h' = Inr db'" "get_holder db r = Inr h" "sh_vesting_shares h' = sh_vesting_shares h"
  shows "delegations_frame db db' \<and> vesting_delegations db' = vesting_delegations db \<and> delegation_expirations db' = delegation_expirations db"
proof (cases r)
  case (Native n)
  then obtain a where a: "find_row acc_name n (accounts db) = Some a" "db' = set_account (put_account_shares h' a) db" "h = account_shares a"
    using assms(1,2) by (auto simp: rbind_eq_Inr get_account_eq_Inr)
  let ?a = "put_account_shares h' a"
  have f: "find_row acc_name (acc_name ?a) (accounts db) = Some a" using a(1) find_row_key [OF a(1)] by simp
  have v: "acc_vesting_shares ?a = acc_vesting_shares a" using assms(3) a(3) by simp
  have "votes_untouched db db'" unfolding a(2) using v by (intro set_account_untouched [OF f]) (simp_all add: vote_view_def)
  moreover have "surplus s db' = surplus s db" for s
    using surplus_set_account [OF f, of s] assms(3) a(3) by (simp add: a(2) put_account_held)
  moreover have "solvent db \<longrightarrow> solvent db'"
    using solvent_set_account [of db ?a] solvent_account [OF _ a(1)] v by (auto simp: a(2) account_solvent_def put_account_shares_def)
  ultimately show ?thesis by (simp add: delegations_frame_def a(2) set_account_def)
next
  case (Token n s)
  then obtain b where b: "find_row arb_key (n, s) (regular_balances db) = Some b" "h = balance_shares b"
      "db' = db\<lparr>regular_balances := update_row arb_key (n, s) (put_balance_shares h' b) (regular_balances db)\<rparr>"
    using assms(1,2) by (auto simp: rbind_eq_Inr get_row_eq_Inr)
  have v: "arb_vesting_shares (put_balance_shares h' b) = arb_vesting_shares b" using assms(3) b(2) by (simp add: balance_shares_def)
  have "surplus x db' = surplus x db" for x
    using b(1) v by (simp add: b(3) surplus_regular_balances table_simps arb_held_def)
  moreover have "solvent db \<longrightarrow> solvent db'"
    using set_update_row [of arb_key "(n, s)" "put_balance_shares h' b" "regular_balances db"] find_row_in_set [OF b(1)] v
    by (auto simp: b(3) solvent_def)
  ultimately show ?thesis by (simp add: delegations_frame_def b(3))
qed

lemma modify_holder_shifts:
  assumes "modify_holder db r f = Inr db'" "shifts f a b"
  shows "delegations_frame db db'" "vesting_delegations db' = vesting_delegations db" "delegation_expirations db' = delegation_expirations db"
    "holder_delegated db' r' = holder_delegated db r' + (if r' = r then a else 0)"
    "holder_received db' r' = holder_received db r' + (if r' = r then b else 0)"
    "holders_typed db \<Longrightarrow> holders_typed db'" "\<exists>h h'. get_holder db r = Inr h \<and> f h = Inr h' \<and> get_holder db' r = Inr h'"
proof -
  obtain h h' where h: "get_holder db r = Inr h" "f h = Inr h'" "put_holder db r h' = Inr db'"
    using assms(1) by (auto simp: modify_holder_def rbind_eq_Inr)
  note g = put_holder_get [OF h(3)]
  have s: "amount (sh_delegated_vesting_shares h') = amount (sh_delegated_vesting_shares h) + a" "amount (sh_received_vesting_shares h') = amount (sh_received_vesting_shares h) + b"
      "symbol (sh_delegated_vesting_shares h') = symbol (sh_delegated_vesting_shares h)" "symbol (sh_received_vesting_shares h') = symbol (sh_received_vesting_shares h)"
      "sh_vesting_shares h' = sh_vesting_shares h"
    using assms(2) h(2) unfolding shifts_def by auto
  note k = put_holder_frame [OF h(3,1) s(5)]
  show "delegations_frame db db'" and t: "vesting_delegations db' = vesting_delegations db" "delegation_expirations db' = delegation_expirations db" using k by auto
  show "holder_delegated db' r' = holder_delegated db r' + (if r' = r then a else 0)" "holder_received db' r' = holder_received db r' + (if r' = r then b else 0)"
    using g [of r'] h(1) s(1,2) by (simp_all add: holder_delegated_def holder_received_def)
  show "holders_typed db'" if "holders_typed db"
    using that g h(1) s(3,4) k by (auto simp: holders_typed_def holder_typed_def delegations_frame_def)
  show "\<exists>h h'. get_holder db r = Inr h \<and> f h = Inr h' \<and> get_holder db' r = Inr h'" using h g [of r] by auto
qed

section \<open>Sums of delegations\<close>

definition out_row :: "account_name_type \<Rightarrow> asset_symbol_type \<Rightarrow> vesting_delegation_object \<Rightarrow> int" where
  "out_row n v d = (if vd_delegator d = n \<and> symbol (vd_vesting_shares d) = v then amount (vd_vesting_shares d) else 0)"

definition in_row :: "account_name_type \<Rightarrow> asset_symbol_type \<Rightarrow> vesting_delegation_object \<Rightarrow> int" where
  "in_row n v d = (if vd_delegatee d = n \<and> symbol (vd_vesting_shares d) = v then amount (vd_vesting_shares d) else 0)"

definition returning_row :: "account_name_type \<Rightarrow> asset_symbol_type \<Rightarrow> vesting_delegation_expiration_object \<Rightarrow> int" where
  "returning_row n v e = (if vde_delegator e = n \<and> symbol (vde_vesting_shares e) = v then amount (vde_vesting_shares e) else 0)"

definition delegated_out :: "database \<Rightarrow> account_name_type \<Rightarrow> asset_symbol_type \<Rightarrow> int" where
  "delegated_out db n v = sum_rows (out_row n v) (vesting_delegations db) + sum_rows (returning_row n v) (delegation_expirations db)"

definition delegated_in :: "database \<Rightarrow> account_name_type \<Rightarrow> asset_symbol_type \<Rightarrow> int" where
  "delegated_in db n v = sum_rows (in_row n v) (vesting_delegations db)"

definition delegations_ok :: "database \<Rightarrow> bool" where
  "delegations_ok db \<longleftrightarrow> holders_typed db \<and>
     (\<forall>n v. holder_delegated db (holder_of n v) = delegated_out db n v \<and> holder_received db (holder_of n v) = delegated_in db n v)"

lemma push_delegations [simp]:
  "vesting_delegations (push_virtual_operation db v) = vesting_delegations db" "delegation_expirations (push_virtual_operation db v) = delegation_expirations db"
  by (simp_all add: push_virtual_operation_def)

lemma holder_tables [simp]:
  "get_holder (db\<lparr>vesting_delegations := x\<rparr>) r = get_holder db r" "get_holder (db\<lparr>delegation_expirations := y\<rparr>) r = get_holder db r"
  "get_holder (push_virtual_operation db v) r = get_holder db r"
  by (cases r; simp add: get_account_def push_virtual_operation_def)+

lemma holder_sums_tables [simp]:
  "holder_delegated (db\<lparr>vesting_delegations := x\<rparr>) r = holder_delegated db r" "holder_delegated (db\<lparr>delegation_expirations := y\<rparr>) r = holder_delegated db r"
  "holder_received (db\<lparr>vesting_delegations := x\<rparr>) r = holder_received db r" "holder_received (db\<lparr>delegation_expirations := y\<rparr>) r = holder_received db r"
  "holders_typed (db\<lparr>vesting_delegations := x\<rparr>) = holders_typed db" "holders_typed (db\<lparr>delegation_expirations := y\<rparr>) = holders_typed db"
  "holder_delegated (push_virtual_operation db v) r = holder_delegated db r" "holder_received (push_virtual_operation db v) r = holder_received db r"
  "holders_typed (push_virtual_operation db v) = holders_typed db"
  by (simp_all add: holder_delegated_def holder_received_def holders_typed_def) (simp_all add: push_virtual_operation_def)

lemma give_shares_symbol: "give_shares db x h = Inr h' \<Longrightarrow> symbol x = symbol (sh_delegated_vesting_shares h)"
  unfolding give_shares_def rbind_eq_Inr by (elim exE conjE) (drule asset_add_value, simp)

lemma receive_shares_symbol: "receive_shares db regen x h = Inr h' \<Longrightarrow> symbol x = symbol (sh_received_vesting_shares h)"
  unfolding receive_shares_def rbind_eq_Inr by (elim exE conjE, drule update_manabar_keeps) (drule asset_add_value, simp)

lemma lose_shares_symbol: "lose_shares db regen x v h = Inr h' \<Longrightarrow> symbol x = symbol (sh_received_vesting_shares h)"
  unfolding lose_shares_def rbind_eq_Inr by (elim exE conjE, drule update_manabar_keeps) (drule asset_sub_value, simp)

text \<open>Giving and receiving move the counters of exactly the two holders.\<close>

lemma holder_change:
  assumes "modify_holder db r f = Inr db'" "shifts f a b" "holders_typed db"
    and sym: "\<And>h h'. f h = Inr h' \<Longrightarrow> symbol x = symbol (sh_delegated_vesting_shares h) \<or> symbol x = symbol (sh_received_vesting_shares h)"
  shows "holder_delegated db' (holder_of n v) = holder_delegated db (holder_of n v) + (if holder_name r = n \<and> symbol x = v then a else 0)"
    "holder_received db' (holder_of n v) = holder_received db (holder_of n v) + (if holder_name r = n \<and> symbol x = v then b else 0)"
proof -
  note m = modify_holder_shifts [OF assms(1,2)]
  obtain h h' where h: "get_holder db r = Inr h" "f h = Inr h'" using m(7) by auto
  have "holder_valid r" "symbol x = holder_symbol r" using sym [OF h(2)] h(1) assms(3) by (auto simp: holders_typed_def holder_typed_def)
  then show "holder_delegated db' (holder_of n v) = holder_delegated db (holder_of n v) + (if holder_name r = n \<and> symbol x = v then a else 0)"
    "holder_received db' (holder_of n v) = holder_received db (holder_of n v) + (if holder_name r = n \<and> symbol x = v then b else 0)"
    using m(4,5) [of "holder_of n v"] holder_of_eq [of r n v] by auto
qed

lemma give_holder:
  assumes "modify_holder db r (give_shares d x) = Inr db'" "holders_typed db"
  shows "holder_delegated db' (holder_of n v) = holder_delegated db (holder_of n v) + (if holder_name r = n \<and> symbol x = v then amount x else 0)"
    "holder_received db' (holder_of n v) = holder_received db (holder_of n v)"
  using holder_change [OF assms(1) give_shares_shifts assms(2), of x n v] give_shares_symbol by auto

lemma receive_holder:
  assumes "modify_holder db r (receive_shares d regen x) = Inr db'" "holders_typed db"
  shows "holder_received db' (holder_of n v) = holder_received db (holder_of n v) + (if holder_name r = n \<and> symbol x = v then amount x else 0)"
    "holder_delegated db' (holder_of n v) = holder_delegated db (holder_of n v)"
  using holder_change [OF assms(1) receive_shares_shifts assms(2), of x n v] receive_shares_symbol by auto

lemma lose_holder:
  assumes "modify_holder db r (lose_shares d regen x y) = Inr db'" "holders_typed db"
  shows "holder_received db' (holder_of n v) = holder_received db (holder_of n v) - (if holder_name r = n \<and> symbol x = v then amount x else 0)"
    "holder_delegated db' (holder_of n v) = holder_delegated db (holder_of n v)"
  using holder_change [OF assms(1) lose_shares_shifts assms(2), of x n v] lose_shares_symbol by auto

section \<open>The operations\<close>

lemma create_delegation_ok:
  assumes "create_delegation db r1 r2 x regen = Inr db'" "delegations_ok db"
  shows "delegations_ok db' \<and> delegations_frame db db'"
proof -
  let ?d = "\<lparr>vd_delegator = holder_name r1, vd_delegatee = holder_name r2, vd_vesting_shares = x, vd_min_delegation_time = head_block_time db\<rparr>"
  let ?db = "db\<lparr>vesting_delegations := vesting_delegations db @ [?d]\<rparr>"
  obtain db2 where 1: "modify_holder ?db r1 (give_shares ?db x) = Inr db2" "modify_holder db2 r2 (receive_shares db2 regen x) = Inr db'"
    using assms(1) by (auto simp: create_delegation_def Let_def rbind_eq_Inr)
  have t: "holders_typed ?db" "holders_typed db2"
    using assms(2) modify_holder_shifts(6) [OF 1(1) give_shares_shifts] by (auto simp: delegations_ok_def)
  note g = give_holder [OF 1(1) t(1)] and r = receive_holder [OF 1(2) t(2)]
  note m1 = modify_holder_shifts [OF 1(1) give_shares_shifts] and m2 = modify_holder_shifts [OF 1(2) receive_shares_shifts]
  have "vesting_delegations db' = vesting_delegations db @ [?d]" "delegation_expirations db' = delegation_expirations db"
    using m1(2,3) m2(2,3) by simp_all
  then have "delegated_out db' n v = delegated_out db n v + (if holder_name r1 = n \<and> symbol x = v then amount x else 0)"
      "delegated_in db' n v = delegated_in db n v + (if holder_name r2 = n \<and> symbol x = v then amount x else 0)" for n v
    by (simp_all add: delegated_out_def delegated_in_def table_simps out_row_def in_row_def)
  then have "delegations_ok db'" using assms(2) m2(6) [OF t(2)] g r unfolding delegations_ok_def by simp
  moreover have "delegations_frame db db'" using delegations_frame_trans [OF m1(1) m2(1)] by simp
  ultimately show ?thesis ..
qed

lemma increase_delegation_ok:
  assumes "increase_delegation db r1 r2 d x y regen = Inr db'" "delegations_ok db" "find_row vd_key (vd_key d) (vesting_delegations db) = Some d"
    "vd_delegator d = holder_name r1" "vd_delegatee d = holder_name r2" "asset_sub y (vd_vesting_shares d) = Inr x"
  shows "delegations_ok db' \<and> delegations_frame db db'"
proof -
  let ?d = "d\<lparr>vd_vesting_shares := y\<rparr>"
  obtain db1 db2 where 1: "modify_holder db r1 (give_shares db x) = Inr db1" "modify_holder db1 r2 (receive_shares db1 regen x) = Inr db2"
      "db' = db2\<lparr>vesting_delegations := update_row vd_key (vd_key d) ?d (vesting_delegations db2)\<rparr>"
    using assms(1) by (auto simp: increase_delegation_def rbind_eq_Inr)
  have x: "amount x = amount y - amount (vd_vesting_shares d)" "symbol x = symbol y" "symbol (vd_vesting_shares d) = symbol y"
    using asset_sub_value [OF assms(6)] by auto
  have t: "holders_typed db" "holders_typed db1"
    using assms(2) modify_holder_shifts(6) [OF 1(1) give_shares_shifts] by (auto simp: delegations_ok_def)
  note g = give_holder [OF 1(1) t(1)] and r = receive_holder [OF 1(2) t(2)]
  note m1 = modify_holder_shifts [OF 1(1) give_shares_shifts] and m2 = modify_holder_shifts [OF 1(2) receive_shares_shifts]
  have v: "vesting_delegations db' = update_row vd_key (vd_key d) ?d (vesting_delegations db)" "delegation_expirations db' = delegation_expirations db"
    using m1(2,3) m2(2,3) by (simp_all add: 1(3))
  have "delegated_out db' n v = delegated_out db n v + (if holder_name r1 = n \<and> symbol x = v then amount x else 0)"
      "delegated_in db' n v = delegated_in db n v + (if holder_name r2 = n \<and> symbol x = v then amount x else 0)" for n v
    using assms(3-5) x by (simp_all add: v delegated_out_def delegated_in_def sum_rows_update_row [OF assms(3)] out_row_def in_row_def)
  then have "delegations_ok db'" using assms(2) m2(6) [OF t(2)] g r unfolding delegations_ok_def 1(3) by simp
  moreover have "delegations_frame db db'" using delegations_frame_trans [OF m1(1) m2(1)] by (simp add: 1(3))
  ultimately show ?thesis ..
qed

lemma decrease_delegation_ok:
  assumes "decrease_delegation db r1 r2 d x y regen = Inr db'" "delegations_ok db" "find_row vd_key (vd_key d) (vesting_delegations db) = Some d"
    "vd_delegator d = holder_name r1" "vd_delegatee d = holder_name r2" "asset_sub (vd_vesting_shares d) y = Inr x" "0 \<le> amount y"
  shows "delegations_ok db' \<and> delegations_frame db db'"
proof -
  let ?d = "d\<lparr>vd_vesting_shares := y\<rparr>"
  obtain e db2 where e: "vde_delegator e = holder_name r1" "vde_vesting_shares e = x"
    and 1: "modify_holder (db\<lparr>delegation_expirations := delegation_expirations db @ [e]\<rparr>) r2
        (lose_shares (db\<lparr>delegation_expirations := delegation_expirations db @ [e]\<rparr>) regen x y) = Inr db2"
      "db' = (if amount y > 0 then db2\<lparr>vesting_delegations := update_row vd_key (vd_key d) ?d (vesting_delegations db2)\<rparr>
              else db2\<lparr>vesting_delegations := remove_row vd_key (vd_key d) (vesting_delegations db2)\<rparr>)"
    using assms(1) unfolding decrease_delegation_def Let_def rbind_eq_Inr sum.inject
    by (elim exE conjE) (rule that [where e = "\<lparr>vde_delegator = holder_name r1, vde_vesting_shares = x,
      vde_expiration = max (head_block_time db + gp_delegation_return_period (dgpo db)) (vd_min_delegation_time d)\<rparr>"], simp, simp, assumption, erule sym)
  let ?db = "db\<lparr>delegation_expirations := delegation_expirations db @ [e]\<rparr>"
  have x: "amount x = amount (vd_vesting_shares d) - amount y" "symbol x = symbol y" "symbol (vd_vesting_shares d) = symbol y"
    using asset_sub_value [OF assms(6)] by auto
  have t: "holders_typed ?db" using assms(2) by (simp add: delegations_ok_def)
  note l = lose_holder [OF 1(1) t] and m = modify_holder_shifts [OF 1(1) lose_shares_shifts]
  have h: "holder_delegated db' r = holder_delegated db2 r" "holder_received db' r = holder_received db2 r" "holders_typed db' = holders_typed db2" for r
    by (simp_all add: 1(2))
  have v: "vesting_delegations db' = (if amount y > 0 then update_row vd_key (vd_key d) ?d (vesting_delegations db) else remove_row vd_key (vd_key d) (vesting_delegations db))"
      "delegation_expirations db' = delegation_expirations db @ [e]"
    using m(2,3) by (simp_all add: 1(2))
  have "delegated_out db' n v = delegated_out db n v"
      "delegated_in db' n v = delegated_in db n v - (if holder_name r2 = n \<and> symbol x = v then amount x else 0)" for n v
    using assms(3-5,7) x e
    by (simp_all add: v delegated_out_def delegated_in_def sum_rows_update_row [OF assms(3)] sum_rows_remove_row [OF assms(3)] sum_rows_append
        out_row_def in_row_def returning_row_def)
  then have "delegations_ok db'" using assms(2) m(6) [OF t] l unfolding delegations_ok_def h by simp
  moreover have "delegations_frame db db'" using m(1) by (simp add: 1(2))
  ultimately show ?thesis ..
qed

definition holder_rest :: "database \<Rightarrow> holder \<Rightarrow> (asset \<times> share_type \<times> share_type \<times> asset \<times> time_point_sec) option" where
  "holder_rest db r = (case get_holder db r of Inl _ \<Rightarrow> None
     | Inr h \<Rightarrow> Some (sh_vesting_shares h, sh_to_withdraw h, sh_withdrawn h, sh_vesting_withdraw_rate h, sh_next_vesting_withdrawal h))"

lemma modify_holder_rest: "modify_holder db r f = Inr db' \<Longrightarrow> shifts f a b \<Longrightarrow> holder_rest db' r' = holder_rest db r'"
  unfolding modify_holder_def rbind_eq_Inr
  by (elim exE conjE) (simp add: holder_rest_def put_holder_get shifts_def)

lemma available_shares_ok:
  assumes "available_shares db r s regen = Inr (a, d, db1)" "delegations_ok db"
  shows "delegations_ok db1 \<and> delegations_frame db db1" "vesting_delegations db1 = vesting_delegations db" "delegation_expirations db1 = delegation_expirations db"
    "holder_rest db1 r' = holder_rest db r'" "holder_delegated db1 r' = holder_delegated db r'"
proof -
  have "db1 = db \<or> modify_holder db r (\<lambda>h. update_manabar (dgpo db) h regen (has_hardfork db 21) 0) = Inr db1"
    using assms(1) by (auto simp: available_shares_def rbind_eq_Inr split: if_splits prod.splits)
  then have m: "delegations_frame db db1 \<and> vesting_delegations db1 = vesting_delegations db \<and> delegation_expirations db1 = delegation_expirations db \<and>
      (\<forall>r. holder_delegated db1 r = holder_delegated db r \<and> holder_received db1 r = holder_received db r \<and> holder_rest db1 r = holder_rest db r) \<and>
      (holders_typed db \<longrightarrow> holders_typed db1)"
    using modify_holder_shifts [OF _ update_manabar_shifts] modify_holder_rest [OF _ update_manabar_shifts] by (elim disjE) auto
  then show "vesting_delegations db1 = vesting_delegations db" "delegation_expirations db1 = delegation_expirations db"
    "holder_rest db1 r' = holder_rest db r'" "holder_delegated db1 r' = holder_delegated db r'" by auto
  show "delegations_ok db1 \<and> delegations_frame db db1"
    using m assms(2) by (simp add: delegations_ok_def delegated_out_def delegated_in_def)
qed

lemma generic_delegate_cases:
  assumes "generic_delegate_vesting_shares_evaluator db r1 r2 y regen = Inr db'"
  obtains av dv db1 where "available_shares db r1 (symbol y) regen = Inr (av, dv, db1)"
    "find_row vd_key (holder_name r1, holder_name r2, get_paired_symbol (symbol y)) (vesting_delegations db) = None"
    "amount y \<le> amount av" "create_delegation db1 r1 r2 y regen = Inr db'"
  | av dv db1 d x where "available_shares db r1 (symbol y) regen = Inr (av, dv, db1)"
    "find_row vd_key (holder_name r1, holder_name r2, get_paired_symbol (symbol y)) (vesting_delegations db) = Some d"
    "asset_sub y (vd_vesting_shares d) = Inr x" "amount (vd_vesting_shares d) \<le> amount y" "amount x \<le> amount av"
    "increase_delegation db1 r1 r2 d x y regen = Inr db'"
  | av dv db1 d x where "available_shares db r1 (symbol y) regen = Inr (av, dv, db1)"
    "find_row vd_key (holder_name r1, holder_name r2, get_paired_symbol (symbol y)) (vesting_delegations db) = Some d"
    "asset_sub (vd_vesting_shares d) y = Inr x" "amount y < amount (vd_vesting_shares d)"
    "decrease_delegation db1 r1 r2 d x y regen = Inr db'"
proof -
  let ?f = "find_row vd_key (holder_name r1, holder_name r2, get_paired_symbol (symbol y)) (vesting_delegations db)"
  obtain av dv db1 where a: "available_shares db r1 (symbol y) regen = Inr (av, dv, db1)"
    using assms by (auto simp: generic_delegate_vesting_shares_evaluator_def Let_def rbind_eq_Inr)
  have rb: "rbind (Inr x) f = f x" for x :: 'a and f :: "'a \<Rightarrow> 'b result" by (simp add: rbind_def)
  note e = assms [unfolded generic_delegate_vesting_shares_evaluator_def Let_def a rb prod.case]
  show ?thesis
  proof (cases ?f)
    case None
    then show ?thesis
      using e that(1) [OF a None] by (auto simp: rbind_eq_Inr fc_assert_eq_Inr assert_available_def asset_cmp_eq_Inr)
  next
    case (Some d)
    note e' = e [unfolded Some option.case]
    show ?thesis
    proof (cases "amount (vd_vesting_shares d) \<le> amount y")
      case True
      then show ?thesis
        using e' that(2) [OF a Some] by (auto simp: rbind_eq_Inr fc_assert_eq_Inr assert_available_def asset_cmp_eq_Inr)
    next
      case False
      then show ?thesis
        using e' that(3) [OF a Some] by (auto simp: rbind_eq_Inr fc_assert_eq_Inr assert_available_def asset_cmp_eq_Inr split: if_splits)
    qed
  qed
qed

lemma generic_delegate_ok:
  assumes "generic_delegate_vesting_shares_evaluator db r1 r2 y regen = Inr db'" "delegations_ok db" "0 \<le> amount y"
  shows "delegations_ok db' \<and> delegations_frame db db'"
  using assms(1)
proof (cases rule: generic_delegate_cases)
  case (1 av dv db1)
  note a = available_shares_ok(1) [OF 1(1) assms(2)]
  then show ?thesis using create_delegation_ok [OF 1(4)] delegations_frame_trans by blast
next
  case (2 av dv db1 d x)
  note a = available_shares_ok [OF 2(1) assms(2)]
  have k: "vd_key d = (holder_name r1, holder_name r2, get_paired_symbol (symbol y))" by (rule find_row_key [OF 2(2)])
  have f: "find_row vd_key (vd_key d) (vesting_delegations db1) = Some d" "vd_delegator d = holder_name r1" "vd_delegatee d = holder_name r2"
    using 2(2) a(2) k by (simp_all add: vd_key_def)
  then show ?thesis using increase_delegation_ok [OF 2(6) _ f 2(3)] a(1) delegations_frame_trans by blast
next
  case (3 av dv db1 d x)
  note a = available_shares_ok [OF 3(1) assms(2)]
  have k: "vd_key d = (holder_name r1, holder_name r2, get_paired_symbol (symbol y))" by (rule find_row_key [OF 3(2)])
  have f: "find_row vd_key (vd_key d) (vesting_delegations db1) = Some d" "vd_delegator d = holder_name r1" "vd_delegatee d = holder_name r2"
    using 3(2) a(2) k by (simp_all add: vd_key_def)
  then show ?thesis using decrease_delegation_ok [OF 3(5) _ f 3(3) assms(3)] a(1) delegations_frame_trans by blast
qed

text \<open>A new balance of a token is empty.\<close>

lemma new_balance_ok:
  assumes "find_row arb_key (n, s) (regular_balances db) = None" "delegations_ok db" "holder_valid (Token n s)"
  defines "db' \<equiv> db\<lparr>regular_balances := regular_balances db @ [(arb_initialize_assets s arb_default)\<lparr>arb_name := n\<rparr>]\<rparr>"
  shows "delegations_ok db' \<and> delegations_frame db db'"
proof -
  let ?b = "(arb_initialize_assets s arb_default)\<lparr>arb_name := n\<rparr>"
  have k: "arb_key ?b = (n, s)" by (simp add: arb_key_def arb_initialize_assets_def)
  have g: "get_holder db' r = (if r = Token n s then Inr (balance_shares ?b) else get_holder db r)" for r
    using assms(1) k by (cases r) (auto simp: db'_def get_account_def get_row_def find_row_append split: option.splits)
  have o: "get_holder db (Token n s) = Inl e" if "get_row arb_key (n, s) (regular_balances db) = Inl e" for e using that by (simp add: rbind_def)
  obtain e where e: "get_holder db (Token n s) = Inl e" using o assms(1) by (auto simp: get_row_def)
  have z: "balance_shares ?b = balance_shares ?b" "amount (sh_delegated_vesting_shares (balance_shares ?b)) = 0" "amount (sh_received_vesting_shares (balance_shares ?b)) = 0"
      "symbol (sh_delegated_vesting_shares (balance_shares ?b)) = get_paired_symbol s" "symbol (sh_received_vesting_shares (balance_shares ?b)) = get_paired_symbol s"
    by (simp_all add: balance_shares_def arb_initialize_assets_def)
  have h: "holder_delegated db' r = holder_delegated db r" "holder_received db' r = holder_received db r" for r
    using g e z by (auto simp: holder_delegated_def holder_received_def)
  have t: "holders_typed db'" using assms(2,3) g z by (auto simp: delegations_ok_def holders_typed_def holder_typed_def db'_def)
  have "delegated_out db' a v = delegated_out db a v" "delegated_in db' a v = delegated_in db a v" for a v
    by (simp_all add: db'_def delegated_out_def delegated_in_def)
  then have "delegations_ok db'" using assms(2) h t by (simp add: delegations_ok_def)
  moreover have "delegations_frame db db'"
    by (auto simp: delegations_frame_def db'_def surplus_regular_balances table_simps solvent_def arb_held_def arb_initialize_assets_def amt_def)
  ultimately show ?thesis ..
qed

lemma delegate_vesting_shares_ok:
  assumes "delegate_vesting_shares_apply db o1 = Inr db'" "delegations_ok db" "0 \<le> amount (dvs_vesting_shares o1)"
  shows "delegations_ok db' \<and> delegations_frame db db'"
proof (cases "space (symbol (dvs_vesting_shares o1)) = legacy_space")
  case True
  then show ?thesis using assms generic_delegate_ok by (auto simp: delegate_vesting_shares_apply_def Let_def rbind_eq_Inr)
next
  case False
  then obtain t where t: "find_row tok_liquid_symbol (get_paired_symbol (symbol (dvs_vesting_shares o1))) (SST_tokens db) = Some t"
    using assms(1) by (auto simp: delegate_vesting_shares_apply_def Let_def rbind_eq_Inr get_token_eq_Inr)
  let ?s = "tok_liquid_symbol t"
  let ?db = "case find_row arb_key (dvs_delegatee o1, ?s) (regular_balances db) of
      None \<Rightarrow> db\<lparr>regular_balances := regular_balances db @ [(arb_initialize_assets ?s arb_default)\<lparr>arb_name := dvs_delegatee o1\<rparr>]\<rparr>
    | Some _ \<Rightarrow> db"
  have g: "generic_delegate_vesting_shares_evaluator ?db (Token (dvs_delegator o1) ?s) (Token (dvs_delegatee o1) ?s) (dvs_vesting_shares o1)
      (tok_vote_regeneration_period_seconds t) = Inr db'"
    using assms(1) False t by (simp add: delegate_vesting_shares_apply_def Let_def rbind_eq_Inr get_token_eq_Inr fc_assert_eq_Inr)
  have "holder_valid (Token (dvs_delegatee o1) ?s)"
    using assms(2) find_row_in_set [OF t] by (auto simp: delegations_ok_def holders_typed_def)
  then have d: "delegations_ok ?db \<and> delegations_frame db ?db"
    using new_balance_ok [of "dvs_delegatee o1" ?s db] assms(2) by (cases "find_row arb_key (dvs_delegatee o1, ?s) (regular_balances db)") simp_all
  then show ?thesis using generic_delegate_ok [OF g _ assms(3)] delegations_frame_trans by blast
qed

section \<open>Return of delegations\<close>

lemma sum_rows_remove1: "e \<in> set es \<Longrightarrow> sum_rows f (remove1 e es) = sum_rows f es - f e"
  by (induction es) auto

lemma return_shares_shifts:
  "shifts (\<lambda>h. rbind (if c then update_manabar g h regen dv (amount x) else Inr h) (\<lambda>h1.
      rbind (asset_sub (sh_delegated_vesting_shares h1) x) (\<lambda>y. Inr (h1\<lparr>sh_delegated_vesting_shares := y\<rparr>)))) (- amount x) 0"
  unfolding shifts_def
proof (intro allI impI)
  fix h h'
  assume "rbind (if c then update_manabar g h regen dv (amount x) else Inr h) (\<lambda>h1.
      rbind (asset_sub (sh_delegated_vesting_shares h1) x) (\<lambda>y. Inr (h1\<lparr>sh_delegated_vesting_shares := y\<rparr>))) = Inr h'"
  then obtain h1 y where y: "(if c then update_manabar g h regen dv (amount x) else Inr h) = Inr h1"
      "asset_sub (sh_delegated_vesting_shares h1) x = Inr y" "h' = h1\<lparr>sh_delegated_vesting_shares := y\<rparr>"
    by (auto simp: rbind_eq_Inr)
  note k = update_manabar_keeps [OF y(1)]
  from asset_sub_value [OF y(2)] have "y = mk_asset (amount (sh_delegated_vesting_shares h1) - amount x) (symbol (sh_delegated_vesting_shares h1))" ..
  then show "sh_delegated_vesting_shares h' = mk_asset (amount (sh_delegated_vesting_shares h) + - amount x) (symbol (sh_delegated_vesting_shares h)) \<and>
     sh_received_vesting_shares h' = mk_asset (amount (sh_received_vesting_shares h) + 0) (symbol (sh_received_vesting_shares h)) \<and>
     sh_vesting_shares h' = sh_vesting_shares h \<and> sh_to_withdraw h' = sh_to_withdraw h \<and> sh_withdrawn h' = sh_withdrawn h \<and>
     sh_vesting_withdraw_rate h' = sh_vesting_withdraw_rate h \<and> sh_next_vesting_withdrawal h' = sh_next_vesting_withdrawal h"
    using k by (simp add: y(3))
qed

lemma return_shares_symbol:
  "rbind (if c then update_manabar g h regen dv (amount x) else Inr h) (\<lambda>h1.
      rbind (asset_sub (sh_delegated_vesting_shares h1) x) (\<lambda>y. Inr (h1\<lparr>sh_delegated_vesting_shares := y\<rparr>))) = Inr h' \<Longrightarrow>
   symbol x = symbol (sh_delegated_vesting_shares h)"
  unfolding rbind_eq_Inr by (elim exE conjE, drule update_manabar_keeps) (drule asset_sub_value, simp)

lemma return_delegation_ok:
  assumes "return_delegation e db = Inr db'" "delegations_ok db" "e \<in> set (delegation_expirations db)"
  shows "delegations_ok db' \<and> delegations_frame db db' \<and> delegation_expirations db' = remove1 e (delegation_expirations db)"
proof -
  let ?db = "push_virtual_operation db (return_vesting_delegation_operation (vde_delegator e) (vde_vesting_shares e))"
  obtain r regen db2 where c: "generic_clear_expired_delegations ?db r e regen = Inr db2" "holder_name r = vde_delegator e"
      "db' = db2\<lparr>delegation_expirations := remove1 e (delegation_expirations db2)\<rparr>"
  proof (cases "space (symbol (vde_vesting_shares e)) = legacy_space")
    case True
    with assms(1) obtain a db2 where "find_row acc_name (vde_delegator e) (accounts ?db) = Some a"
        "generic_clear_expired_delegations ?db (Native (acc_name a)) e (word_of_int freezone_VOTING_MANA_REGENERATION_SECONDS) = Inr db2"
        "db2\<lparr>delegation_expirations := remove1 e (delegation_expirations db2)\<rparr> = db'"
      by (simp only: return_delegation_def Let_def rbind_eq_Inr get_account_eq_Inr if_True sum.inject refl simp_thms) blast
    then show ?thesis using that [of "Native (acc_name a)"] find_row_key by fastforce
  next
    case False
    with assms(1) obtain t :: SST_token_object and db2 where
        "generic_clear_expired_delegations ?db (Token (vde_delegator e) (get_paired_symbol (symbol (vde_vesting_shares e)))) e
           (tok_vote_regeneration_period_seconds t) = Inr db2"
        "db2\<lparr>delegation_expirations := remove1 e (delegation_expirations db2)\<rparr> = db'"
      by (simp only: return_delegation_def Let_def rbind_eq_Inr if_False sum.inject simp_thms) (elim exE conjE, rule that, assumption+)
    then show ?thesis using that [of "Token (vde_delegator e) (get_paired_symbol (symbol (vde_vesting_shares e)))"] by simp
  qed
  let ?x = "vde_vesting_shares e"
  let ?f = "\<lambda>h. rbind (if has_hardfork ?db 20 then update_manabar (dgpo ?db) h regen (has_hardfork ?db 21) (amount ?x) else Inr h) (\<lambda>h1.
      rbind (asset_sub (sh_delegated_vesting_shares h1) ?x) (\<lambda>y. Inr (h1\<lparr>sh_delegated_vesting_shares := y\<rparr>)))"
  have f: "modify_holder ?db r ?f = Inr db2" using c(1) by (simp add: generic_clear_expired_delegations_def)
  note k = return_shares_shifts [of "has_hardfork ?db 20" "dgpo ?db" regen "has_hardfork ?db 21" ?x]
  have t: "holders_typed ?db" using assms(2) by (simp add: delegations_ok_def)
  note m = modify_holder_shifts [OF f k]
  have h: "holder_delegated db2 (holder_of n v) = holder_delegated db (holder_of n v) - (if holder_name r = n \<and> symbol ?x = v then amount ?x else 0)"
      "holder_received db2 (holder_of n v) = holder_received db (holder_of n v)" for n v
    using holder_change [OF f k t, of ?x n v] return_shares_symbol [of "has_hardfork ?db 20" "dgpo ?db" _ regen "has_hardfork ?db 21" ?x] by auto
  have v: "vesting_delegations db' = vesting_delegations db" "delegation_expirations db' = remove1 e (delegation_expirations db)"
    using m(2,3) by (simp_all add: c(3))
  have "delegated_out db' n v = delegated_out db n v - (if holder_name r = n \<and> symbol ?x = v then amount ?x else 0)" "delegated_in db' n v = delegated_in db n v" for n v
    using c(2) by (simp_all add: v delegated_out_def delegated_in_def sum_rows_remove1 [OF assms(3)] returning_row_def)
  moreover have "holder_delegated db' r = holder_delegated db2 r" "holder_received db' r = holder_received db2 r" "holders_typed db' = holders_typed db2" for r
    by (simp_all add: c(3))
  ultimately have "delegations_ok db'" using assms(2) h m(6) [OF t] unfolding delegations_ok_def by simp
  then show ?thesis using m(1) v(2) by (simp add: c(3))
qed

lemma return_delegations_ok:
  assumes "rfold return_delegation es db = Inr db'" "delegations_ok db" "mset es \<subseteq># mset (delegation_expirations db)"
  shows "delegations_ok db' \<and> delegations_frame db db' \<and> mset (delegation_expirations db') = mset (delegation_expirations db) - mset es"
  using assms
proof (induction es arbitrary: db)
  case (Cons e es)
  then obtain db1 where 1: "return_delegation e db = Inr db1" "rfold return_delegation es db1 = Inr db'" by (auto simp: rbind_eq_Inr)
  have e: "e \<in> set (delegation_expirations db)" using Cons.prems(3) by (auto dest: mset_subset_eqD)
  note r = return_delegation_ok [OF 1(1) Cons.prems(2) e]
  have "mset es \<subseteq># mset (delegation_expirations db1)" using Cons.prems(3) r by (simp add: insert_subset_eq_iff)
  with Cons.IH [OF 1(2)] r show ?case using delegations_frame_trans by auto
qed simp

lemma clear_expired_delegations_ok:
  assumes "clear_expired_delegations db = Inr db'" "delegations_ok db"
  shows "delegations_ok db' \<and> delegations_frame db db' \<and>
    mset (delegation_expirations db') = filter_mset (\<lambda>e. \<not> vde_expiration e < head_block_time db) (mset (delegation_expirations db))"
proof -
  have m: "mset (expired_delegations db) = filter_mset (\<lambda>e. vde_expiration e < head_block_time db) (mset (delegation_expirations db))"
    by (simp add: expired_delegations_def)
  have "M - filter_mset P M = filter_mset (\<lambda>x. \<not> P x) M" for M :: "'a multiset" and P
    by (metis add_diff_cancel_left' multiset_partition)
  then show ?thesis
    using return_delegations_ok [OF assms(1) [unfolded clear_expired_delegations_def] assms(2)] by (simp add: m)
qed

section \<open>Reachable states\<close>

text \<open>Delegations interleaved with the maintenance at the end of blocks and the passing of time.\<close>

inductive delegation_step :: "database \<Rightarrow> database \<Rightarrow> bool" where
  delegate: "delegate_vesting_shares_apply db o1 = Inr db' \<Longrightarrow> 0 \<le> amount (dvs_vesting_shares o1) \<Longrightarrow> delegation_step db db'"
| clear: "clear_expired_delegations db = Inr db' \<Longrightarrow> delegation_step db db'"

lemma delegation_step_ok: "delegation_step db db' \<Longrightarrow> delegations_ok db \<Longrightarrow> delegations_ok db' \<and> delegations_frame db db'"
  by (induction rule: delegation_step.induct) (auto dest: delegate_vesting_shares_ok clear_expired_delegations_ok)

lemma delegation_steps_ok:
  assumes "delegation_step\<^sup>*\<^sup>* db db'" "delegations_ok db"
  shows "delegations_ok db' \<and> delegations_frame db db'"
  using assms(1)
proof (induction rule: rtranclp_induct)
  case (step y z)
  then show ?case using delegation_step_ok delegations_frame_trans by blast
qed (simp add: assms(2))

section \<open>Delegated shares are covered\<close>

text \<open>The shares of a withdrawal that have not left yet.\<close>

definition still_leaving :: "shareholder \<Rightarrow> int" where
  "still_leaving h = (if sh_next_vesting_withdrawal h < time_point_sec_maximum then sh_to_withdraw h - sh_withdrawn h else 0)"

text \<open>The ranges in which the 64-bit arithmetic of the effective shares does not wrap.\<close>

definition shares_in_range :: "shareholder \<Rightarrow> bool" where
  "shares_in_range h \<longleftrightarrow> 0 \<le> amount (sh_received_vesting_shares h) \<and> 0 \<le> amount (sh_delegated_vesting_shares h) \<and>
     amount (sh_delegated_vesting_shares h) \<le> amount (sh_vesting_shares h) \<and>
     amount (sh_vesting_shares h) + amount (sh_received_vesting_shares h) \<le> i64_max \<and>
     0 \<le> amount (sh_vesting_withdraw_rate h) \<and> amount (sh_vesting_withdraw_rate h) \<le> i64_max \<and>
     0 \<le> sh_to_withdraw h - sh_withdrawn h \<and> sh_to_withdraw h - sh_withdrawn h \<le> i64_max"

lemma less_time_maximum: "t < time_point_sec_maximum \<longleftrightarrow> t \<noteq> time_point_sec_maximum"
  using uint_bounded [of t] by (simp add: time_point_sec_maximum_def order_less_le word_le_def)

lemma effective_shares_value:
  assumes "shares_in_range h"
  shows "get_effective_vesting_shares h = amount (sh_vesting_shares h) + amount (sh_received_vesting_shares h) - amount (sh_delegated_vesting_shares h) -
    (if sh_next_vesting_withdrawal h < time_point_sec_maximum then min (amount (sh_vesting_withdraw_rate h)) (sh_to_withdraw h - sh_withdrawn h) else 0)"
proof -
  have r: "0 \<le> min (amount (sh_vesting_withdraw_rate h)) (sh_to_withdraw h - sh_withdrawn h)" "min (amount (sh_vesting_withdraw_rate h)) (sh_to_withdraw h - sh_withdrawn h) \<le> i64_max"
    using assms unfolding shares_in_range_def by linarith+
  then have "in_i64 (amount (sh_vesting_shares h) + amount (sh_received_vesting_shares h) - amount (sh_delegated_vesting_shares h) -
      min (amount (sh_vesting_withdraw_rate h)) (sh_to_withdraw h - sh_withdrawn h))"
    using assms unfolding in_i64_def shares_in_range_def by linarith
  then show ?thesis
    using assms by (simp add: get_effective_vesting_shares_def Let_def less_time_maximum shares_in_range_def i64_wrap_id in_i64_def)
qed

lemma available_by_mana_bound:
  assumes "available_by_mana db h (get_effective_vesting_shares h) s = Inr (a, d)" "shares_in_range h"
  shows "amount a \<le> amount (sh_vesting_shares h) - amount (sh_delegated_vesting_shares h) - still_leaving h"
proof -
  let ?left = "sh_to_withdraw h - sh_withdrawn h" and ?rate = "amount (sh_vesting_withdraw_rate h)"
  let ?c = "sh_next_vesting_withdrawal h < time_point_sec_maximum \<and> ?left > ?rate"
  obtain own b where o: "safe_sub (get_effective_vesting_shares h) (amount (sh_received_vesting_shares h)) = Inr own"
      "b = mk_asset (min (current_mana (sh_voting_manabar h)) own) s" "if ?c then without_withdrawal h s b = Inr a else a = b"
    using assms(1) by (auto simp: available_by_mana_def Let_def rbind_eq_Inr split: if_splits dest!: safe_sub_value [of "sh_to_withdraw h"])
  have le: "amount b \<le> get_effective_vesting_shares h - amount (sh_received_vesting_shares h)" using safe_sub_value [OF o(1)] o(2) by simp
  have w: "i64_wrap ?left = ?left" using assms(2) by (simp add: i64_wrap_id in_i64_def shares_in_range_def)
  show ?thesis
  proof (cases ?c)
    case True
    then have "without_withdrawal h s b = Inr a" using o(3) by simp
    then obtain l y where "safe_sub (sh_to_withdraw h) (sh_withdrawn h) = Inr l" "asset_sub (mk_asset (min ?rate ?left) s) (mk_asset l s) = Inr y" "asset_add b y = Inr a"
      by (auto simp: without_withdrawal_def Let_def rbind_eq_Inr w)
    then have "amount a = amount b + min ?rate ?left - ?left"
      using safe_sub_value asset_sub_value asset_add_value by fastforce
    then show ?thesis using le True effective_shares_value [OF assms(2)] by (simp add: still_leaving_def)
  next
    case False
    then show ?thesis using o(3) le effective_shares_value [OF assms(2)] by (auto simp: still_leaving_def)
  qed
qed

lemma effective_shares_cong:
  "sh_vesting_shares h' = sh_vesting_shares h \<Longrightarrow> sh_received_vesting_shares h' = sh_received_vesting_shares h \<Longrightarrow>
   sh_delegated_vesting_shares h' = sh_delegated_vesting_shares h \<Longrightarrow> sh_next_vesting_withdrawal h' = sh_next_vesting_withdrawal h \<Longrightarrow>
   sh_vesting_withdraw_rate h' = sh_vesting_withdraw_rate h \<Longrightarrow> sh_to_withdraw h' = sh_to_withdraw h \<Longrightarrow> sh_withdrawn h' = sh_withdrawn h \<Longrightarrow>
   get_effective_vesting_shares h' = get_effective_vesting_shares h \<and> shares_in_range h' = shares_in_range h \<and> still_leaving h' = still_leaving h"
  by (simp add: get_effective_vesting_shares_def shares_in_range_def still_leaving_def Let_def)

lemma available_shares_bound:
  assumes "available_shares db r s regen = Inr (a, d, db1)" "get_holder db r = Inr h" "shares_in_range h" "has_hardfork db 20"
  shows "amount a \<le> amount (sh_vesting_shares h) - amount (sh_delegated_vesting_shares h) - still_leaving h"
proof -
  obtain h1 where m: "modify_holder db r (\<lambda>h. update_manabar (dgpo db) h regen (has_hardfork db 21) 0) = Inr db1" "get_holder db1 r = Inr h1"
      "available_by_mana db1 h1 (get_effective_vesting_shares h) s = Inr (a, d)"
    using assms(1,2,4) by (auto simp: available_shares_def rbind_eq_Inr)
  have "update_manabar (dgpo db) h regen (has_hardfork db 21) 0 = Inr h1"
    using modify_holder_shifts(7) [OF m(1) update_manabar_shifts] assms(2) m(2) by auto
  then have k: "if True then update_manabar (dgpo db) h regen (has_hardfork db 21) 0 = Inr h1 else True" by simp
  have e: "sh_delegated_vesting_shares h1 = sh_delegated_vesting_shares h" "sh_vesting_shares h1 = sh_vesting_shares h"
      "get_effective_vesting_shares h1 = get_effective_vesting_shares h" "shares_in_range h1" "still_leaving h1 = still_leaving h"
    using update_manabar_keeps [of True] k effective_shares_cong [of h1 h] assms(3) by auto
  then show ?thesis using available_by_mana_bound [of db1 h1 s a d] m(3) by simp
qed

lemma create_delegation_counter:
  assumes "create_delegation db r1 r2 x regen = Inr db'"
  shows "holder_delegated db' r1 = holder_delegated db r1 + amount x" "holder_rest db' r = holder_rest db r"
proof -
  let ?db = "db\<lparr>vesting_delegations := vesting_delegations db @ [\<lparr>vd_delegator = holder_name r1, vd_delegatee = holder_name r2, vd_vesting_shares = x,
     vd_min_delegation_time = head_block_time db\<rparr>]\<rparr>"
  obtain db2 where 1: "modify_holder ?db r1 (give_shares ?db x) = Inr db2" "modify_holder db2 r2 (receive_shares db2 regen x) = Inr db'"
    using assms by (auto simp: create_delegation_def Let_def rbind_eq_Inr)
  show "holder_delegated db' r1 = holder_delegated db r1 + amount x"
    using modify_holder_shifts(4) [OF 1(1) give_shares_shifts, of r1] modify_holder_shifts(4) [OF 1(2) receive_shares_shifts, of r1] by simp
  show "holder_rest db' r = holder_rest db r"
    using modify_holder_rest [OF 1(1) give_shares_shifts, of r] modify_holder_rest [OF 1(2) receive_shares_shifts, of r] by (simp add: holder_rest_def)
qed

lemma increase_delegation_counter:
  assumes "increase_delegation db r1 r2 d x y regen = Inr db'"
  shows "holder_delegated db' r1 = holder_delegated db r1 + amount x" "holder_rest db' r = holder_rest db r"
proof -
  obtain db1 db2 where 1: "modify_holder db r1 (give_shares db x) = Inr db1" "modify_holder db1 r2 (receive_shares db1 regen x) = Inr db2"
      "db' = db2\<lparr>vesting_delegations := update_row vd_key (vd_key d) (d\<lparr>vd_vesting_shares := y\<rparr>) (vesting_delegations db2)\<rparr>"
    using assms by (auto simp: increase_delegation_def rbind_eq_Inr)
  show "holder_delegated db' r1 = holder_delegated db r1 + amount x"
    using modify_holder_shifts(4) [OF 1(1) give_shares_shifts, of r1] modify_holder_shifts(4) [OF 1(2) receive_shares_shifts, of r1] by (simp add: 1(3))
  show "holder_rest db' r = holder_rest db r"
    using modify_holder_rest [OF 1(1) give_shares_shifts, of r] modify_holder_rest [OF 1(2) receive_shares_shifts, of r] by (simp add: holder_rest_def 1(3))
qed

lemma decrease_delegation_counter:
  assumes "decrease_delegation db r1 r2 d x y regen = Inr db'"
  shows "holder_delegated db' r = holder_delegated db r"
proof -
  obtain e db2 where 1: "modify_holder (db\<lparr>delegation_expirations := e\<rparr>) r2 (lose_shares (db\<lparr>delegation_expirations := e\<rparr>) regen x y) = Inr db2"
      "holder_delegated db' r = holder_delegated db2 r"
    using assms by (auto simp: decrease_delegation_def Let_def rbind_eq_Inr)
  show ?thesis using modify_holder_shifts(4) [OF 1(1) lose_shares_shifts, of r] 1(2) by simp
qed

lemma generic_delegate_covered:
  assumes "generic_delegate_vesting_shares_evaluator db r1 r2 y regen = Inr db'" "delegations_ok db" "has_hardfork db 20"
    "get_holder db r1 = Inr h" "shares_in_range h" "get_holder db' r1 = Inr h'"
  shows "amount (sh_delegated_vesting_shares h') = amount (sh_delegated_vesting_shares h) \<or>
    amount (sh_delegated_vesting_shares h') + still_leaving h' \<le> amount (sh_vesting_shares h')"
proof -
  have covered: ?thesis if a: "available_shares db r1 (symbol y) regen = Inr (av, dv, db1)" and le: "x \<le> amount av"
    and c: "holder_delegated db' r1 = holder_delegated db1 r1 + x" "holder_rest db' r1 = holder_rest db1 r1" for av dv db1 x
  proof -
    note v = available_shares_ok(4,5) [OF a assms(2), of r1]
    have "amount (sh_delegated_vesting_shares h') = amount (sh_delegated_vesting_shares h) + x"
      using c(1) v(2) assms(4,6) by (simp add: holder_delegated_def)
    moreover have "sh_vesting_shares h' = sh_vesting_shares h" "still_leaving h' = still_leaving h"
      using c(2) v(1) assms(4,6) by (simp_all add: holder_rest_def still_leaving_def)
    ultimately show ?thesis using available_shares_bound [OF a assms(4,5,3)] le by simp
  qed
  from assms(1) show ?thesis
  proof (cases rule: generic_delegate_cases)
    case (1 av dv db1)
    show ?thesis by (rule covered [OF 1(1,3) create_delegation_counter [OF 1(4)]])
  next
    case (2 av dv db1 d x)
    show ?thesis by (rule covered [OF 2(1,5) increase_delegation_counter [OF 2(6)]])
  next
    case (3 av dv db1 d x)
    have "holder_delegated db' r1 = holder_delegated db r1"
      using decrease_delegation_counter [OF 3(5)] available_shares_ok(5) [OF 3(1) assms(2)] by simp
    then show ?thesis using assms(4,6) by (simp add: holder_delegated_def)
  qed
qed

section \<open>Claims\<close>

text \<open>
  C27: along any sequence of delegations and returns, of native shares and of tokens, the delegated shares
  of every account are exactly its delegations and the shares on their way back, the received shares
  exactly the delegations to it, and neither an asset nor a vote changes.
\<close>

theorem delegations_balanced:
  assumes "delegation_step\<^sup>*\<^sup>* db db'" "delegations_ok db"
  shows "delegations_ok db' \<and> surplus s db' = surplus s db \<and> vote_state_ok db' = vote_state_ok db \<and> vsf_surplus db' = vsf_surplus db"
  using delegation_steps_ok [OF assms] votes_untouchedD [of db db'] by (simp add: delegations_frame_def)

text \<open>
  C28: an operation that changes what an account has delegated leaves it with shares for everything it has
  delegated and for the rest of the withdrawal it has under way.
\<close>

theorem delegation_covered:
  assumes "delegate_vesting_shares_apply db o1 = Inr db'" "symbol (dvs_vesting_shares o1) = VESTS_SYMBOL" "delegations_ok db" "has_hardfork db 20"
    "find_row acc_name (dvs_delegator o1) (accounts db) = Some a" "shares_in_range (account_shares a)"
    "find_row acc_name (dvs_delegator o1) (accounts db') = Some a'"
  shows "amount (acc_delegated_vesting_shares a') = amount (acc_delegated_vesting_shares a) \<or>
    amount (acc_delegated_vesting_shares a') + still_leaving (account_shares a') \<le> amount (acc_vesting_shares a')"
proof -
  have "acc_name a = dvs_delegator o1" by (rule find_row_key [OF assms(5)])
  then obtain m where "generic_delegate_vesting_shares_evaluator db (Native (dvs_delegator o1)) (Native m) (dvs_vesting_shares o1)
      (word_of_int freezone_VOTING_MANA_REGENERATION_SECONDS) = Inr db'"
    using assms(1,2,5) by (auto simp: delegate_vesting_shares_apply_def Let_def rbind_eq_Inr get_account_eq_Inr)
  from generic_delegate_covered [OF this assms(3,4), of "account_shares a" "account_shares a'"] show ?thesis
    using assms(5-7) by (simp add: get_account_def get_row_def) (simp add: account_shares_def)
qed

section \<open>A sample delegation\<close>

text \<open>Alice, with 1300 shares and full mana, delegates 500 of them to Bob.\<close>

definition sample_delegator :: account_object where
  "sample_delegator = (sample_account ''alice'' 5000)\<lparr>acc_vesting_shares := mk_asset 1300 VESTS_SYMBOL,
     acc_voting_manabar := \<lparr>current_mana = 1300, last_update_time = 0\<rparr>\<rparr>"

definition sample_delegation_db :: database where
  "sample_delegation_db = sample_db\<lparr>accounts := [sample_delegator, sample_account ''bob'' 10], processed_hardforks := 21\<rparr>"

definition sample_delegation :: delegate_vesting_shares_operation where
  "sample_delegation = \<lparr>dvs_delegator = ''alice'', dvs_delegatee = ''bob'', dvs_vesting_shares = mk_asset 500 VESTS_SYMBOL\<rparr>"

lemma sample_delegator_fields [simp]:
  "acc_name sample_delegator = ''alice''" "acc_vesting_shares sample_delegator = mk_asset 1300 VESTS_SYMBOL" "acc_to_withdraw sample_delegator = 0"
  "acc_withdrawn sample_delegator = 0" "acc_vesting_withdraw_rate sample_delegator = mk_asset 0 VESTS_SYMBOL" "sh_vesting_shares (account_shares sample_delegator) = mk_asset 1300 VESTS_SYMBOL"
  "sh_delegated_vesting_shares (account_shares sample_delegator) = mk_asset 0 VESTS_SYMBOL" "sh_received_vesting_shares (account_shares sample_delegator) = mk_asset 0 VESTS_SYMBOL"
  "sh_next_vesting_withdrawal (account_shares sample_delegator) = time_point_sec_maximum" "sh_withdrawn (account_shares sample_delegator) = 0"
  "sh_to_withdraw (account_shares sample_delegator) = 0" "sh_vesting_withdraw_rate (account_shares sample_delegator) = mk_asset 0 VESTS_SYMBOL"
  "sh_voting_manabar (account_shares sample_delegator) = \<lparr>current_mana = 1300, last_update_time = 0\<rparr>"
  by (simp_all add: sample_delegator_def account_shares_def) (simp_all add: sample_account_def account_object_default_def)

lemma sample_receiver_fields [simp]:
  "sh_vesting_shares (account_shares (sample_account n x)) = mk_asset 0 VESTS_SYMBOL"
  "sh_delegated_vesting_shares (account_shares (sample_account n x)) = mk_asset 0 VESTS_SYMBOL" "sh_received_vesting_shares (account_shares (sample_account n x)) = mk_asset 0 VESTS_SYMBOL"
  "sh_next_vesting_withdrawal (account_shares (sample_account n x)) = time_point_sec_maximum" "sh_withdrawn (account_shares (sample_account n x)) = 0"
  "sh_to_withdraw (account_shares (sample_account n x)) = 0" "sh_voting_manabar (account_shares (sample_account n x)) = manabar_default"
  by (simp_all add: account_shares_def sample_account_def account_object_default_def)

lemma sample_delegation_fields [simp]:
  "accounts sample_delegation_db = [sample_delegator, sample_account ''bob'' 10]" "regular_balances sample_delegation_db = []" "SST_tokens sample_delegation_db = []"
  "vesting_delegations sample_delegation_db = []" "delegation_expirations sample_delegation_db = []" "has_hardfork sample_delegation_db n = (n < 21)"
  "dgpo sample_delegation_db = dynamic_global_property_object_default"
  by (simp_all add: sample_delegation_db_def sample_db_def empty_database_def has_hardfork_def)

lemma sample_delegations_ok: "delegations_ok sample_delegation_db"
proof -
  have t: "holders_typed sample_delegation_db"
    unfolding holders_typed_def
  proof (intro conjI allI impI ballI)
    fix r h
    assume "get_holder sample_delegation_db r = Inr h"
    then show "holder_typed r h" by (cases r) (auto simp: get_account_def get_row_def holder_typed_def rbind_eq_Inr split: if_splits)
  qed simp
  have "holder_delegated sample_delegation_db r = 0" "holder_received sample_delegation_db r = 0" for r
    by (cases r; simp add: holder_delegated_def holder_received_def get_account_def get_row_def rbind_def)+
  then show ?thesis using t by (simp add: delegations_ok_def delegated_out_def delegated_in_def)
qed

lemma sample_update_mana:
  "update_manabar dynamic_global_property_object_default (account_shares sample_delegator) regen False 0 = Inr (account_shares sample_delegator)"
proof -
  have e: "get_effective_vesting_shares (account_shares sample_delegator) = 1300"
    by (simp add: get_effective_vesting_shares_def Let_def i64_wrap_id in_i64_def)
  have z: "use_mana (i64_wrap 0) 0 \<lparr>current_mana = 1300, last_update_time = 0\<rparr> = \<lparr>current_mana = 1300, last_update_time = 0\<rparr>"
    by (simp add: use_mana_def Let_def signed_sat_value in_i64_def saturate_def i64_wrap_id)
  have "(account_shares sample_delegator)\<lparr>sh_voting_manabar := \<lparr>current_mana = 1300, last_update_time = 0\<rparr>\<rparr> = account_shares sample_delegator"
    using sample_delegator_fields(13) by (cases "account_shares sample_delegator") simp
  then show ?thesis
    by (simp add: update_manabar_def regenerate_mana_def manabar_params_validate_def e Let_def) (simp add: dynamic_global_property_object_default_def z)
qed

lemma sample_available:
  "available_shares sample_delegation_db (Native ''alice'') VESTS_SYMBOL regen =
     Inr (mk_asset 1300 VESTS_SYMBOL, mk_asset 1300 VESTS_SYMBOL, sample_delegation_db)"
proof -
  have e: "get_effective_vesting_shares (account_shares sample_delegator) = 1300"
    by (simp add: get_effective_vesting_shares_def Let_def i64_wrap_id in_i64_def)
  have s: "set_account sample_delegator sample_delegation_db = sample_delegation_db"
    by (simp add: set_account_def)
  have m: "modify_holder sample_delegation_db (Native ''alice'') (\<lambda>h. update_manabar dynamic_global_property_object_default h regen False 0) = Inr sample_delegation_db"
    by (simp add: modify_holder_def get_account_def get_row_def sample_update_mana s)
  have "available_by_mana sample_delegation_db (account_shares sample_delegator) 1300 VESTS_SYMBOL = Inr (mk_asset 1300 VESTS_SYMBOL, mk_asset 1300 VESTS_SYMBOL)"
    by (simp add: available_by_mana_def safe_sub_def Let_def) (simp add: dynamic_global_property_object_default_def)
  then show ?thesis by (simp add: available_shares_def get_account_def get_row_def e m)
qed

lemma sample_minimum: "min_delegation_update sample_delegation_db VESTS_SYMBOL = Inr (mk_asset 0 VESTS_SYMBOL, mk_asset 0 VESTS_SYMBOL)"
proof -
  have f: "cp_account_creation_fee (wso_median_props (witness_schedule sample_delegation_db)) = mk_asset 1 freezone_SYMBOL"
    by (simp add: sample_delegation_db_def sample_db_def empty_database_def)
  have p: "get_vesting_share_price dynamic_global_property_object_default = Inr \<lparr>base = mk_asset 1000 freezone_SYMBOL, quote = mk_asset 1000000 VESTS_SYMBOL\<rparr>"
    by (simp add: get_vesting_share_price_def mk_price_def price_validate_def) (simp add: dynamic_global_property_object_default_def)
  have "asset_mul_price (mk_asset 0 freezone_SYMBOL) \<lparr>base = mk_asset 1000 freezone_SYMBOL, quote = mk_asset 1000000 VESTS_SYMBOL\<rparr> = Inr (mk_asset 0 VESTS_SYMBOL)"
    by (simp add: asset_mul_price_def mul_div_amount_eq i64_of_u64_def)
  moreover have "safe_div 1 3 = Inr 0" "safe_div 1 30 = Inr 0" by (simp_all add: safe_div_def sdiv_pos)
  ultimately show ?thesis by (simp add: min_delegation_update_def f p)
qed

lemma sample_delegation_succeeds:
  "\<exists>db' a'. delegate_vesting_shares_apply sample_delegation_db sample_delegation = Inr db' \<and> find_row acc_name ''alice'' (accounts db') = Some a' \<and>
     amount (acc_delegated_vesting_shares a') = 500"
proof -
  let ?regen = "word_of_int freezone_VOTING_MANA_REGENERATION_SECONDS :: 32 word"
  let ?db = sample_delegation_db and ?x = "mk_asset 500 VESTS_SYMBOL"
  let ?d = "\<lparr>vd_delegator = ''alice'', vd_delegatee = ''bob'', vd_vesting_shares = ?x, vd_min_delegation_time = head_block_time ?db\<rparr>"
  let ?db1 = "?db\<lparr>vesting_delegations := [?d]\<rparr>"
  have hf: "has_hardfork ?db1 n = (n < 21)" for n by (simp add: has_hardfork_def sample_delegation_db_def)
  obtain h where h: "give_shares ?db1 ?x (account_shares sample_delegator) = Inr h" "amount (sh_delegated_vesting_shares h) = 500"
    by (simp add: give_shares_def asset_add_def safe_add_def hf Let_def)
  let ?a = "put_account_shares h sample_delegator"
  have m1: "modify_holder ?db1 (Native ''alice'') (give_shares ?db1 ?x) = Inr (set_account ?a ?db1)"
    using h(1) by (simp add: modify_holder_def get_account_def get_row_def)
  let ?db2 = "set_account ?a ?db1"
  have f2: "accounts ?db2 = [?a, sample_account ''bob'' 10]" "has_hardfork ?db2 n = (n < 21)" "dgpo ?db2 = dynamic_global_property_object_default" for n
    by (simp_all add: set_account_def has_hardfork_def) (simp add: sample_delegation_db_def)
  have e: "get_effective_vesting_shares (account_shares (sample_account ''bob'' 10)) = 0"
    by (simp add: get_effective_vesting_shares_def Let_def i64_wrap_id in_i64_def)
  obtain k where k: "receive_shares ?db2 ?regen ?x (account_shares (sample_account ''bob'' 10)) = Inr k"
    by (simp add: receive_shares_def f2 update_manabar_def e regenerate_mana_def manabar_params_validate_def manabar_default_def Let_def asset_add_def safe_add_def)
  have m2: "modify_holder ?db2 (Native ''bob'') (receive_shares ?db2 ?regen ?x) = Inr (set_account (put_account_shares k (sample_account ''bob'' 10)) ?db2)"
    using k by (simp add: modify_holder_def get_account_def get_row_def f2)
  have c: "create_delegation ?db (Native ''alice'') (Native ''bob'') ?x ?regen = Inr (set_account (put_account_shares k (sample_account ''bob'' 10)) ?db2)"
    using m1 m2 by (simp add: create_delegation_def)
  have "delegate_vesting_shares_apply ?db sample_delegation = Inr (set_account (put_account_shares k (sample_account ''bob'' 10)) ?db2)"
    using c by (simp add: delegate_vesting_shares_apply_def sample_delegation_def get_account_def get_row_def generic_delegate_vesting_shares_evaluator_def
        sample_available sample_minimum assert_available_def asset_ge_def)
  moreover have "acc_delegated_vesting_shares ?a = sh_delegated_vesting_shares h" by (simp add: put_account_shares_def)
  ultimately show ?thesis using h(2) by (simp add: set_account_def)
qed

theorem delegations_balanced_witness:
  "\<exists>db'. delegate_vesting_shares_apply sample_delegation_db sample_delegation = Inr db' \<and> delegations_ok db' \<and> surplus VESTS_SYMBOL db' = surplus VESTS_SYMBOL sample_delegation_db"
proof -
  obtain db' where 1: "delegate_vesting_shares_apply sample_delegation_db sample_delegation = Inr db'" using sample_delegation_succeeds by (elim exE conjE)
  then have "delegation_step sample_delegation_db db'" by (rule delegation_step.delegate) (simp add: sample_delegation_def)
  then show ?thesis using 1 delegations_balanced [OF r_into_rtranclp [of delegation_step] sample_delegations_ok, of db' VESTS_SYMBOL] by blast
qed

theorem delegation_covered_witness:
  "\<exists>db' a'. delegate_vesting_shares_apply sample_delegation_db sample_delegation = Inr db' \<and> find_row acc_name ''alice'' (accounts db') = Some a' \<and>
     500 + still_leaving (account_shares a') \<le> amount (acc_vesting_shares a')"
proof -
  obtain db' a' where 1: "delegate_vesting_shares_apply sample_delegation_db sample_delegation = Inr db'" "find_row acc_name ''alice'' (accounts db') = Some a'"
      "amount (acc_delegated_vesting_shares a') = 500"
    using sample_delegation_succeeds by (elim exE conjE)
  have r: "shares_in_range (account_shares sample_delegator)" "acc_delegated_vesting_shares sample_delegator = mk_asset 0 VESTS_SYMBOL"
    by (simp_all add: shares_in_range_def) (simp add: sample_delegator_def)
  have "amount (acc_delegated_vesting_shares a') = amount (acc_delegated_vesting_shares sample_delegator) \<or>
      amount (acc_delegated_vesting_shares a') + still_leaving (account_shares a') \<le> amount (acc_vesting_shares a')"
    by (rule delegation_covered [OF 1(1) _ sample_delegations_ok _ _ r(1)]) (simp_all add: sample_delegation_def 1(2))
  then show ?thesis using 1 r(2) by auto
qed

end
