(* ===== verification/Rewards.thy ===== *)
theory Rewards
  imports Share_Value
begin

text \<open>
  Rewards and the supply: the evaluators \<^verbatim>\<open>claim_reward_balance\<close> and \<^verbatim>\<open>claim_reward_balance2\<close> of
  \<^verbatim>\<open>chain/steem_evaluator.cpp\<close>, and \<^verbatim>\<open>create_sbd\<close>, \<^verbatim>\<open>clear_null_account_balance\<close> and
  \<^verbatim>\<open>update_virtual_supply\<close> of \<^verbatim>\<open>chain/database.cpp\<close>.
\<close>

section \<open>Claims\<close>

record claim_reward_balance_operation =
  crb_account :: account_name_type
  crb_reward_freezone :: asset
  crb_reward_sbd :: asset
  crb_reward_vests :: asset

record claim_reward_balance2_operation =
  crb2_account :: account_name_type
  crb2_reward_tokens :: "asset list"

text \<open>Division of \<^verbatim>\<open>fc::uint128\<close>, which throws on a zero divisor.\<close>

definition u128_div :: "128 word \<Rightarrow> 128 word \<Rightarrow> (128 word) result" where
  "u128_div a b = (if b = 0 then Inl Divide_by_zero_exception else Inr (a div b))"

text \<open>The part of the fund behind a reward in shares that moves with a claim of some of the shares.\<close>

definition reward_to_move :: "asset_symbol_type \<Rightarrow> asset \<Rightarrow> asset \<Rightarrow> asset \<Rightarrow> asset result" where
  "reward_to_move s claimed balance fund =
     (if claimed = balance then Inr fund
      else rbind (u128_div (u128_of_i64 (amount claimed) * u128_of_i64 (amount fund)) (u128_of_i64 (amount balance))) (\<lambda>q.
           rbind (to_uint64 q) (\<lambda>x. Inr (mk_asset (i64_of_u64 x) s))))"

text \<open>The claimed shares and the fund behind them leave the reward fields of an account and of the global properties.\<close>

definition claim_account_vests :: "asset \<Rightarrow> asset \<Rightarrow> account_object \<Rightarrow> account_object result" where
  "claim_account_vests vests to_move a =
     rbind (asset_add (acc_vesting_shares a) vests) (\<lambda>v.
     rbind (asset_sub (acc_reward_vesting_balance a) vests) (\<lambda>r.
     rbind (asset_sub (acc_reward_vesting_freezone a) to_move) (\<lambda>f.
     Inr (a\<lparr>acc_vesting_shares := v, acc_reward_vesting_balance := r, acc_reward_vesting_freezone := f\<rparr>))))"

definition claim_pool_vests :: "asset \<Rightarrow> asset \<Rightarrow> dynamic_global_property_object \<Rightarrow> dynamic_global_property_object result" where
  "claim_pool_vests vests to_move g =
     rbind (asset_add (gp_total_vesting_shares g) vests) (\<lambda>v.
     rbind (asset_add (gp_total_vesting_fund_freezone g) to_move) (\<lambda>f.
     rbind (asset_sub (gp_pending_rewarded_vesting_shares g) vests) (\<lambda>pv.
     rbind (asset_sub (gp_pending_rewarded_vesting_freezone g) to_move) (\<lambda>pf.
     Inr (g\<lparr>gp_total_vesting_shares := v, gp_total_vesting_fund_freezone := f,
            gp_pending_rewarded_vesting_shares := pv, gp_pending_rewarded_vesting_freezone := pf\<rparr>)))))"

definition claim_vests :: "database \<Rightarrow> account_name_type \<Rightarrow> asset \<Rightarrow> asset \<Rightarrow> database result" where
  "claim_vests db name vests to_move =
     rbind (get_account db name) (\<lambda>a.
     rbind (claim_account_vests vests to_move a) (\<lambda>a'.
     let db1 = set_account a' db in
     rbind (claim_pool_vests vests to_move (dgpo db1)) (\<lambda>g.
     adjust_proxied_witness_votes (db1\<lparr>dgpo := g\<rparr>) name (amount vests) 0)))"

definition claim_reward_balance_apply :: "database \<Rightarrow> claim_reward_balance_operation \<Rightarrow> database result" where
  "claim_reward_balance_apply db o1 =
     rbind (get_account db (crb_account o1)) (\<lambda>acnt.
     rbind (asset_le (crb_reward_freezone o1) (acc_reward_freezone_balance acnt)) (\<lambda>ok1.
     fc_assert ok1 ''Cannot claim that much freezone. Claim: ${c} Actual: ${a}'' (
     rbind (asset_le (crb_reward_sbd o1) (acc_reward_sbd_balance acnt)) (\<lambda>ok2.
     fc_assert ok2 ''Cannot claim that much SBD. Claim: ${c} Actual: ${a}'' (
     rbind (asset_le (crb_reward_vests o1) (acc_reward_vesting_balance acnt)) (\<lambda>ok3.
     fc_assert ok3 ''Cannot claim that much VESTS. Claim: ${c} Actual: ${a}'' (
     rbind (reward_to_move freezone_SYMBOL (crb_reward_vests o1) (acc_reward_vesting_balance acnt) (acc_reward_vesting_freezone acnt)) (\<lambda>to_move.
     rbind (asset_neg (crb_reward_freezone o1)) (\<lambda>nf.
     rbind (adjust_reward_balance db (acc_name acnt) nf no_shares) (\<lambda>db1.
     rbind (asset_neg (crb_reward_sbd o1)) (\<lambda>ns.
     rbind (adjust_reward_balance db1 (acc_name acnt) ns no_shares) (\<lambda>db2.
     rbind (adjust_balance_of db2 (acc_name acnt) (crb_reward_freezone o1)) (\<lambda>db3.
     rbind (adjust_balance_of db3 (acc_name acnt) (crb_reward_sbd o1)) (\<lambda>db4.
     rbind (if has_hardfork db 20 then update_account_mana db4 (acc_name acnt) (amount (crb_reward_vests o1)) else Inr db4) (\<lambda>db5.
     claim_vests db5 (acc_name acnt) (crb_reward_vests o1) to_move)))))))))))))))"

definition claim_SST_reward :: "database \<Rightarrow> account_name_type \<Rightarrow> asset \<Rightarrow> database result" where
  "claim_SST_reward db name token =
     (case find_row arw_key (name, get_liquid_symbol (symbol token)) (rewards_balances db) of
        None \<Rightarrow> Inl (Fc_assert ''Account ${a} has no rewards balance for SST ${s}'')
      | Some bal \<Rightarrow>
          rbind (asset_le token (arw_pending_liquid bal)) (\<lambda>ok.
          fc_assert ok ''Account only has ${p} pending in their rewards balance. Claimed: ${c}'' (
          rbind (if is_vesting (symbol token) then
                   rbind (get_vesting_symbol (symbol token)) (\<lambda>vs.
                   rbind (reward_to_move vs token (arw_pending_vesting_shares bal) (arw_pending_vesting_value bal)) (\<lambda>to_move.
                   rbind (asset_sub (arw_pending_vesting_shares bal) token) (\<lambda>sh.
                   rbind (asset_sub (arw_pending_vesting_value bal) to_move) (\<lambda>v.
                   let db1 = db\<lparr>rewards_balances := update_row arw_key (arw_key bal)
                               (bal\<lparr>arw_pending_vesting_shares := sh, arw_pending_vesting_value := v\<rparr>) (rewards_balances db)\<rparr> in
                   rbind (get_token db1 vs) (\<lambda>t.
                   rbind (safe_add (tok_total_vesting_shares t) (amount token)) (\<lambda>tv.
                   rbind (safe_add (tok_total_vesting_fund_SST t) (amount to_move)) (\<lambda>tf.
                   rbind (safe_sub (tok_pending_rewarded_vesting_shares t) (amount token)) (\<lambda>pv.
                   rbind (safe_sub (tok_pending_rewarded_vesting_SST t) (amount to_move)) (\<lambda>pf.
                   Inr (set_token (t\<lparr>tok_total_vesting_shares := tv, tok_total_vesting_fund_SST := tf,
                     tok_pending_rewarded_vesting_shares := pv, tok_pending_rewarded_vesting_SST := pf\<rparr>) db1))))))))))
                 else
                   rbind (asset_sub (arw_pending_liquid bal) token) (\<lambda>l.
                   Inr (db\<lparr>rewards_balances := update_row arw_key (arw_key bal) (bal\<lparr>arw_pending_liquid := l\<rparr>) (rewards_balances db)\<rparr>)))
            (\<lambda>db2. adjust_balance db2 name token))))"

definition claim_native_reward :: "database \<Rightarrow> account_name_type \<Rightarrow> asset \<Rightarrow> database result" where
  "claim_native_reward db name token =
     rbind (get_account db name) (\<lambda>a.
     if symbol token = VESTS_SYMBOL then
       rbind (asset_le token (acc_reward_vesting_balance a)) (\<lambda>ok.
       fc_assert ok ''Cannot claim that much VESTS. Claim: ${c} Actual: ${a}'' (
       rbind (reward_to_move freezone_SYMBOL token (acc_reward_vesting_balance a) (acc_reward_vesting_freezone a)) (\<lambda>to_move.
       claim_vests db (acc_name a) token to_move)))
     else if symbol token = freezone_SYMBOL \<or> symbol token = SBD_SYMBOL then
       rbind (if symbol token \<noteq> freezone_SYMBOL then Inr True else asset_le token (acc_reward_freezone_balance a)) (\<lambda>ok1.
       fc_assert ok1 ''Cannot claim that much freezone. Claim: ${c} Actual: ${a}'' (
       rbind (if symbol token \<noteq> SBD_SYMBOL then Inr True else asset_le token (acc_reward_sbd_balance a)) (\<lambda>ok2.
       fc_assert ok2 ''Cannot claim that much SBD. Claim: ${c} Actual: ${a}'' (
       rbind (asset_neg token) (\<lambda>d.
       rbind (adjust_reward_balance db (acc_name a) d no_shares) (\<lambda>db1.
       adjust_balance_of db1 (acc_name a) token))))))
     else Inl (Fc_assert ''Unknown asset symbol''))"

definition claim_token :: "account_name_type \<Rightarrow> asset \<Rightarrow> database \<Rightarrow> database result" where
  "claim_token name token db =
     (if amount token = 0 then Inr db
      else if space (symbol token) = SST_nai_space then claim_SST_reward db name token
      else claim_native_reward db name token)"

definition claim_reward_balance2_apply :: "database \<Rightarrow> claim_reward_balance2_operation \<Rightarrow> database result" where
  "claim_reward_balance2_apply db o1 =
     fc_assert (has_hardfork db 23) ''claim_reward_balance2_operation is not enabled until hardfork ${hf}'' (
     rfold (claim_token (crb2_account o1)) (crb2_reward_tokens o1) db)"

section \<open>Supply\<close>

definition pay_created :: "bool \<Rightarrow> database \<Rightarrow> account_name_type \<Rightarrow> asset \<Rightarrow> asset \<Rightarrow> database result" where
  "pay_created to_reward_balance db to_account sbd freezone =
     (if to_reward_balance then
        rbind (adjust_reward_balance db to_account sbd no_shares) (\<lambda>db1. adjust_reward_balance db1 to_account freezone no_shares)
      else
        rbind (adjust_balance_of db to_account sbd) (\<lambda>db1. adjust_balance_of db1 to_account freezone))"

text \<open>The result is the pair of the amounts created, in SBD and in the native asset.\<close>

definition create_sbd :: "database \<Rightarrow> account_name_type \<Rightarrow> asset \<Rightarrow> bool \<Rightarrow> ((asset \<times> asset) \<times> database) result" where
  "create_sbd db to_account freezone to_reward_balance =
     (if amount freezone = 0 then Inr ((mk_asset 0 SBD_SYMBOL, mk_asset 0 freezone_SYMBOL), db)
      else if \<not> price_is_null (current_median_history db) then
        rbind (safe_mul (uint (gp_sbd_print_rate (dgpo db))) (amount freezone)) (\<lambda>m.
        rbind (safe_div m freezone_100_PERCENT) (\<lambda>to_sbd.
        rbind (safe_sub (amount freezone) to_sbd) (\<lambda>to_freezone.
        rbind (asset_mul_price (mk_asset to_sbd freezone_SYMBOL) (current_median_history db)) (\<lambda>sbd.
        rbind (pay_created to_reward_balance db to_account sbd (mk_asset to_freezone freezone_SYMBOL)) (\<lambda>db2.
        rbind (safe_neg to_sbd) (\<lambda>n.
        rbind (adjust_supply db2 (mk_asset n freezone_SYMBOL) False) (\<lambda>db3.
        rbind (adjust_supply db3 sbd False) (\<lambda>db4.
        Inr ((sbd, mk_asset to_freezone freezone_SYMBOL), db4)))))))))
      else
        rbind (adjust_balance_of db to_account freezone) (\<lambda>db1. Inr ((mk_asset 0 SBD_SYMBOL, freezone), db1)))"

definition add_positive :: "asset \<Rightarrow> asset \<Rightarrow> asset result" where
  "add_positive x acc = (if amount x > 0 then asset_add acc x else Inr acc)"

definition null_shares :: "dynamic_global_property_object \<Rightarrow> account_object \<Rightarrow> asset \<Rightarrow> (asset \<times> asset \<times> asset) result" where
  "null_shares g a f =
     (if amount (acc_vesting_shares a) > 0 then
        rbind (get_vesting_share_price g) (\<lambda>p.
        rbind (asset_mul_price (acc_vesting_shares a) p) (\<lambda>value.
        rbind (asset_add f value) (\<lambda>f'.
        rbind (asset_add (mk_asset 0 VESTS_SYMBOL) (acc_vesting_shares a)) (\<lambda>v. Inr (value, f', v)))))
      else Inr (mk_asset 0 freezone_SYMBOL, f, mk_asset 0 VESTS_SYMBOL))"

definition null_rewards :: "account_object \<Rightarrow> asset \<Rightarrow> asset \<Rightarrow> (asset \<times> asset) result" where
  "null_rewards a f v =
     (if amount (acc_reward_vesting_balance a) > 0 then
        rbind (asset_add f (acc_reward_vesting_freezone a)) (\<lambda>f'.
        rbind (asset_add v (acc_reward_vesting_balance a)) (\<lambda>v'. Inr (f', v')))
      else Inr (f, v))"

text \<open>What the null account owns: the value of its shares, and its totals in the native asset, SBD and shares.\<close>

definition null_totals :: "dynamic_global_property_object \<Rightarrow> account_object \<Rightarrow> (asset \<times> asset \<times> asset \<times> asset) result" where
  "null_totals g a =
     rbind (add_positive (acc_balance a) (mk_asset 0 freezone_SYMBOL)) (\<lambda>f1.
     rbind (add_positive (acc_savings_balance a) f1) (\<lambda>f2.
     rbind (add_positive (acc_sbd_balance a) (mk_asset 0 SBD_SYMBOL)) (\<lambda>s1.
     rbind (add_positive (acc_savings_sbd_balance a) s1) (\<lambda>s2.
     rbind (null_shares g a f2) (\<lambda>(value, f3, v1).
     rbind (add_positive (acc_reward_freezone_balance a) f3) (\<lambda>f4.
     rbind (add_positive (acc_reward_sbd_balance a) s2) (\<lambda>s3.
     rbind (null_rewards a f4 v1) (\<lambda>(f5, v2). Inr (value, f5, s3, v2)))))))))"

definition clear_null_shares :: "account_object \<Rightarrow> asset \<Rightarrow> dynamic_global_property_object \<Rightarrow> dynamic_global_property_object result" where
  "clear_null_shares a value g =
     (if amount (acc_vesting_shares a) > 0 then
        rbind (asset_sub (gp_total_vesting_shares g) (acc_vesting_shares a)) (\<lambda>v.
        rbind (asset_sub (gp_total_vesting_fund_freezone g) value) (\<lambda>f.
        Inr (g\<lparr>gp_total_vesting_shares := v, gp_total_vesting_fund_freezone := f\<rparr>)))
      else Inr g)"

definition clear_null_rewards :: "account_object \<Rightarrow> dynamic_global_property_object \<Rightarrow> dynamic_global_property_object result" where
  "clear_null_rewards a g =
     (if amount (acc_reward_vesting_balance a) > 0 then
        rbind (asset_sub (gp_pending_rewarded_vesting_shares g) (acc_reward_vesting_balance a)) (\<lambda>pv.
        rbind (asset_sub (gp_pending_rewarded_vesting_freezone g) (acc_reward_vesting_freezone a)) (\<lambda>pf.
        Inr (g\<lparr>gp_pending_rewarded_vesting_shares := pv, gp_pending_rewarded_vesting_freezone := pf\<rparr>)))
      else Inr g)"

definition clear_balances :: "account_object \<Rightarrow> account_object" where
  "clear_balances a = a\<lparr>acc_balance := (acc_balance a)\<lparr>amount := 0\<rparr>, acc_savings_balance := (acc_savings_balance a)\<lparr>amount := 0\<rparr>,
     acc_sbd_balance := (acc_sbd_balance a)\<lparr>amount := 0\<rparr>, acc_savings_sbd_balance := (acc_savings_sbd_balance a)\<lparr>amount := 0\<rparr>,
     acc_vesting_shares := (acc_vesting_shares a)\<lparr>amount := 0\<rparr>, acc_reward_freezone_balance := (acc_reward_freezone_balance a)\<lparr>amount := 0\<rparr>,
     acc_reward_sbd_balance := (acc_reward_sbd_balance a)\<lparr>amount := 0\<rparr>,
     acc_reward_vesting_freezone := (acc_reward_vesting_freezone a)\<lparr>amount := 0\<rparr>,
     acc_reward_vesting_balance := (acc_reward_vesting_balance a)\<lparr>amount := 0\<rparr>\<rparr>"

definition burn :: "asset \<Rightarrow> database \<Rightarrow> database result" where
  "burn x db = (if amount x > 0 then rbind (asset_neg x) (\<lambda>d. adjust_supply db d False) else Inr db)"

definition clear_null_account_balance :: "database \<Rightarrow> database result" where
  "clear_null_account_balance db =
     (if \<not> has_hardfork db 14 then Inr db
      else
        rbind (get_account db freezone_NULL_ACCOUNT) (\<lambda>a.
        rbind (null_totals (dgpo db) a) (\<lambda>(value, total_freezone, total_sbd, total_vests).
        if amount total_freezone = 0 \<and> amount total_sbd = 0 \<and> amount total_vests = 0 then Inr db
        else
          let total_cleared = filter (\<lambda>x. amount x > 0) [total_freezone, total_vests, total_sbd] in
          rbind (clear_null_shares a value (dgpo db)) (\<lambda>g0.
          rbind (clear_null_rewards a g0) (\<lambda>g.
          let db1 = db\<lparr>dgpo := g\<rparr>;
              db2 = (if amount total_freezone > 0 \<or> amount total_sbd > 0 then set_account (clear_balances a) db1 else db1) in
          rbind (burn total_freezone db2) (\<lambda>db3.
          rbind (burn total_sbd db3) (\<lambda>db4.
          Inr (push_virtual_operation db4 (clear_null_account_balance_operation total_cleared)))))))))"

text \<open>
  The part of the supply that is owed in SBD, in hundredths of a percent, and the print rate that
  follows from it.
\<close>

definition sbd_percent :: "bool \<Rightarrow> int \<Rightarrow> int \<Rightarrow> (16 word) result" where
  "sbd_percent rounded debt supply =
     rbind (u128_div (u128_of_i64 debt * u128_of_i64 freezone_100_PERCENT + (if rounded then u128_of_i64 (supply sdiv 2) else 0))
              (u128_of_i64 supply)) (\<lambda>q.
     rbind (to_uint64 q) (\<lambda>x. Inr (ucast x)))"

definition print_rate :: "16 word \<Rightarrow> 16 word \<Rightarrow> 16 word \<Rightarrow> 16 word" where
  "print_rate start stop percent_sbd =
     (if percent_sbd \<le> start then word_of_int freezone_100_PERCENT
      else if percent_sbd \<ge> stop then 0
      else word_of_int (((uint stop - uint percent_sbd) * freezone_100_PERCENT) sdiv (uint stop - uint start)))"

definition update_virtual_supply :: "database \<Rightarrow> database result" where
  "update_virtual_supply db =
     (let g = dgpo db; median_price = current_median_history db in
      rbind (if price_is_null median_price then Inr (mk_asset 0 freezone_SYMBOL)
             else asset_mul_price (gp_current_sbd_supply g) median_price) (\<lambda>debt.
      rbind (asset_add (gp_current_supply g) debt) (\<lambda>vs.
      let g1 = g\<lparr>gp_virtual_supply := vs\<rparr> in
      if \<not> price_is_null median_price \<and> has_hardfork db 14 then
        rbind (asset_mul_price (gp_current_sbd_supply g1) median_price) (\<lambda>d.
        rbind (sbd_percent (has_hardfork db 21) (amount d) (amount vs)) (\<lambda>percent_sbd.
        Inr (db\<lparr>dgpo := g1\<lparr>gp_sbd_print_rate := print_rate (gp_sbd_start_percent g1) (gp_sbd_stop_percent g1) percent_sbd\<rparr>\<rparr>)))
      else Inr (db\<lparr>dgpo := g1\<rparr>))))"

section \<open>What a claim leaves unchanged\<close>

text \<open>
  The fund behind the rewards that wait to be claimed, minus what the accounts have a right to; the audit asks it to be
  zero, like the surplus of a symbol and of the votes.
\<close>

definition pending_gap :: "database \<Rightarrow> int" where
  "pending_gap db = sum_rows (\<lambda>a. amount (acc_reward_vesting_freezone a)) (accounts db) - amount (gp_pending_rewarded_vesting_freezone (dgpo db))"

definition accounted :: "database \<Rightarrow> database \<Rightarrow> bool" where
  "accounted db db' \<longleftrightarrow> (\<forall>s. surplus s db' = surplus s db) \<and> pending_gap db' = pending_gap db \<and>
     (vote_state_ok db \<longrightarrow> vote_state_ok db' \<and> vsf_surplus db' = vsf_surplus db)"

lemma accounted_refl [simp]: "accounted db db"
  by (simp add: accounted_def)

lemma accounted_trans: "accounted db db1 \<Longrightarrow> accounted db1 db2 \<Longrightarrow> accounted db db2"
  by (auto simp: accounted_def)

lemma accountedI:
  "(\<And>s. surplus s db' = surplus s db) \<Longrightarrow> pending_gap db' = pending_gap db \<Longrightarrow> votes_untouched db db' \<Longrightarrow> accounted db db'"
  by (simp add: accounted_def votes_untouchedD)

lemma pending_gap_set_account [ledger_simps]:
  "find_row acc_name (acc_name a) (accounts db) = Some a0 \<Longrightarrow>
   pending_gap (set_account a db) = pending_gap db + amount (acc_reward_vesting_freezone a) - amount (acc_reward_vesting_freezone a0)"
  by (simp add: pending_gap_def set_account_def table_simps)

lemma pending_gap_fields [simp]:
  "pending_gap (db\<lparr>vops := v\<rparr>) = pending_gap db" "pending_gap (db\<lparr>regular_balances := b\<rparr>) = pending_gap db"
  "pending_gap (db\<lparr>rewards_balances := r\<rparr>) = pending_gap db" "pending_gap (set_token t db) = pending_gap db"
  "pending_gap (push_virtual_operation db x) = pending_gap db"
  by (simp_all add: pending_gap_def set_token_def push_virtual_operation_def)

lemma pending_gap_cong:
  "accounts db' = accounts db \<Longrightarrow> gp_pending_rewarded_vesting_freezone (dgpo db') = gp_pending_rewarded_vesting_freezone (dgpo db) \<Longrightarrow>
   pending_gap db' = pending_gap db"
  by (simp add: pending_gap_def)

lemma pending_gap_votes_frame: "votes_frame db db' \<Longrightarrow> pending_gap db' = pending_gap db"
  unfolding votes_frame_def by (elim exE conjE, drule map_strip_sum [where f = "\<lambda>a. amount (acc_reward_vesting_freezone a)"])
    (simp_all add: pending_gap_def strip_def)

lemma issue_interest_pending: "issue_interest db x = Inr db' \<Longrightarrow> pending_gap db' = pending_gap db"
  by (auto simp: issue_interest_def Let_def res_simps pending_gap_def)

lemma accrue_interest_pending:
  "accrue_interest db name bal secs lu lp = Inr (r, db') \<Longrightarrow> pending_gap db' = pending_gap db \<and> accounts db' = accounts db"
  by (cases r) (auto simp: accrue_interest_accounts, auto simp: accrue_interest_def Let_def res_simps split: if_splits dest!: issue_interest_pending)

lemma adjust_supply_pending: "adjust_supply db x av = Inr db' \<Longrightarrow> pending_gap db' = pending_gap db"
  by (auto simp: adjust_supply_def Let_def res_simps pending_gap_def set_token_def split: if_splits)

lemma adjust_SST_pending:
  "adjust_SST_regular db name x ca = Inr db' \<Longrightarrow> pending_gap db' = pending_gap db"
  "adjust_SST_rewards db name x y ca = Inr db' \<Longrightarrow> pending_gap db' = pending_gap db"
  by (auto simp: adjust_SST_regular_def adjust_SST_rewards_def Let_def res_simps split: if_splits option.splits)

lemma modify_balance_pending:
  assumes "modify_balance db name x cb = Inr db'"
  shows "pending_gap db' = pending_gap db"
proof -
  obtain a where a: "find_row acc_name name (accounts db) = Some a" using assms by (auto simp: modify_balance_def res_simps)
  note n [simp] = find_row_key [OF a]
  show ?thesis using assms a
    by (auto simp: modify_balance_def res_simps ledger_simps split: if_splits dest!: accrue_interest_pending)
qed

lemma adjust_balance_pending:
  "adjust_balance db name x = Inr db' \<Longrightarrow> pending_gap db' = pending_gap db"
  "adjust_balance_of db name x = Inr db' \<Longrightarrow> pending_gap db' = pending_gap db"
  by (auto simp: adjust_balance_def adjust_balance_of_def rbind_eq_Inr split: if_splits
      dest: adjust_SST_pending adjust_supply_pending modify_balance_pending)

lemma adjust_reward_balance_pending:
  assumes "adjust_reward_balance db name x y = Inr db'" "amount y = 0"
  shows "pending_gap db' = pending_gap db"
proof (cases "space (symbol x) = SST_nai_space")
  case True
  then show ?thesis using assms
    by (auto simp: adjust_reward_balance_def rbind_eq_Inr fc_assert_eq_Inr split: if_splits dest: adjust_supply_pending adjust_SST_pending)
next
  case False
  then have m: "modify_reward_balance db name x y (has_hardfork db 20) = Inr db'" using assms by (auto simp: adjust_reward_balance_def fc_assert_eq_Inr)
  obtain a where a: "find_row acc_name name (accounts db) = Some a" using m by (auto simp: modify_reward_balance_def res_simps)
  note n [simp] = find_row_key [OF a]
  show ?thesis using m a assms(2) by (auto simp: modify_reward_balance_def res_simps ledger_simps split: if_splits)
qed

lemma update_account_mana_accounted: "update_account_mana db name n = Inr db' \<Longrightarrow> accounted db db'"
  by (rule accountedI, erule update_account_mana_surplus)
    (erule update_account_mana_effect, auto simp: ledger_simps vote_view_def intro!: set_account_untouched)+

lemma not_vesting_VESTS: "\<not> is_vesting (symbol x) \<Longrightarrow> symbol x \<noteq> VESTS_SYMBOL"
  by (auto simp: is_vesting_def space_def)

text \<open>An amount that moves from the rewards of an account to its balance.\<close>

lemma reward_to_balance_accounted:
  assumes "asset_neg x = Inr d" "adjust_reward_balance db n d no_shares = Inr db1" "adjust_balance_of db1 n x = Inr db2"
  shows "accounted db db2"
proof (rule accountedI)
  show "surplus s db2 = surplus s db" for s
    using amt_neg [OF assms(1), of s] adjust_reward_balance_surplus [OF assms(2), of s] adjust_balance_of_surplus [OF assms(3), of s]
    by (simp add: no_shares_def)
  show "pending_gap db2 = pending_gap db"
    using adjust_reward_balance_pending [OF assms(2)] adjust_balance_pending(2) [OF assms(3)] by (simp add: no_shares_def)
  have "\<not> is_vesting (symbol d)" using assms(2) by (simp add: adjust_reward_balance_def fc_assert_eq_Inr)
  then have "symbol x \<noteq> VESTS_SYMBOL" using asset_neg_value [OF assms(1)] not_vesting_VESTS by fastforce
  then show "votes_untouched db db2"
    using votes_untouched_trans adjust_reward_balance_untouched [OF assms(2)] adjust_balance_untouched(2) [OF assms(3)] by blast
qed

lemma claim_account_vests_effect:
  assumes "claim_account_vests vests to_move a = Inr a'"
  shows "account_held s a' = account_held s a" "acc_name a' = acc_name a" "acc_proxy a' = acc_proxy a"
    "acc_proxied_vsf_votes a' = acc_proxied_vsf_votes a" "amount (acc_vesting_shares a') = amount (acc_vesting_shares a) + amount vests"
    "amount (acc_reward_vesting_freezone a') = amount (acc_reward_vesting_freezone a) - amount to_move"
proof -
  obtain v r f where 1: "asset_add (acc_vesting_shares a) vests = Inr v" "asset_sub (acc_reward_vesting_balance a) vests = Inr r"
      "asset_sub (acc_reward_vesting_freezone a) to_move = Inr f"
      "a' = a\<lparr>acc_vesting_shares := v, acc_reward_vesting_balance := r, acc_reward_vesting_freezone := f\<rparr>"
    using assms by (auto simp: claim_account_vests_def res_simps)
  show "account_held s a' = account_held s a" using amt_ops(1) [OF 1(1), of s] amt_ops(2) [OF 1(2), of s] by (simp add: 1(4) account_held_def)
  show "acc_name a' = acc_name a" "acc_proxy a' = acc_proxy a" "acc_proxied_vsf_votes a' = acc_proxied_vsf_votes a"
    "amount (acc_vesting_shares a') = amount (acc_vesting_shares a) + amount vests"
    "amount (acc_reward_vesting_freezone a') = amount (acc_reward_vesting_freezone a) - amount to_move"
    using asset_add_value [OF 1(1)] asset_sub_value [OF 1(3)] by (simp_all add: 1(4))
qed

lemma claim_pool_vests_effect:
  assumes "claim_pool_vests vests to_move g = Inr g'"
  shows "gp_held s g' - gp_issued s g' = gp_held s g - gp_issued s g"
    "amount (gp_total_vesting_shares g') = amount (gp_total_vesting_shares g) + amount vests"
    "amount (gp_pending_rewarded_vesting_freezone g') = amount (gp_pending_rewarded_vesting_freezone g) - amount to_move"
proof -
  obtain v f pv pf where 1: "asset_add (gp_total_vesting_shares g) vests = Inr v" "asset_add (gp_total_vesting_fund_freezone g) to_move = Inr f"
      "asset_sub (gp_pending_rewarded_vesting_shares g) vests = Inr pv" "asset_sub (gp_pending_rewarded_vesting_freezone g) to_move = Inr pf"
      "g' = g\<lparr>gp_total_vesting_shares := v, gp_total_vesting_fund_freezone := f, gp_pending_rewarded_vesting_shares := pv,
        gp_pending_rewarded_vesting_freezone := pf\<rparr>"
    using assms by (auto simp: claim_pool_vests_def res_simps)
  show "gp_held s g' - gp_issued s g' = gp_held s g - gp_issued s g"
    using amt_ops(1) [OF 1(1), of s] amt_ops(1) [OF 1(2), of s] amt_ops(2) [OF 1(3), of s] amt_ops(2) [OF 1(4), of s]
    by (simp add: 1(5) gp_held_def gp_issued_def)
  show "amount (gp_total_vesting_shares g') = amount (gp_total_vesting_shares g) + amount vests"
    "amount (gp_pending_rewarded_vesting_freezone g') = amount (gp_pending_rewarded_vesting_freezone g) - amount to_move"
    using asset_add_value [OF 1(1)] asset_sub_value [OF 1(4)] by (simp_all add: 1(5))
qed

lemma claim_vests_accounted:
  assumes "claim_vests db name vests to_move = Inr db'"
  shows "accounted db db'"
proof -
  obtain a a' g where a: "find_row acc_name name (accounts db) = Some a" "claim_account_vests vests to_move a = Inr a'"
      and g: "claim_pool_vests vests to_move (dgpo db) = Inr g"
      and v: "adjust_proxied_witness_votes ((set_account a' db)\<lparr>dgpo := g\<rparr>) name (amount vests) 0 = Inr db'"
    using assms by (auto simp: claim_vests_def Let_def rbind_eq_Inr get_account_eq_Inr)
  note ae = claim_account_vests_effect [OF a(2)] and ge = claim_pool_vests_effect [OF g]
  have n: "acc_name a' = name" using ae(2) find_row_key [OF a(1)] by simp
  then have f: "find_row acc_name (acc_name a') (accounts db) = Some a" using a(1) by simp
  let ?db1 = "(set_account a' db)\<lparr>dgpo := g\<rparr>"
  have t: "accounts ?db1 = accounts (set_account a' db)" "witnesses ?db1 = witnesses db" "witness_votes ?db1 = witness_votes db"
    by (simp_all add: set_account_def)
  have fr: "votes_frame ?db1 db'" by (rule adjust_proxied_frame [OF v])
  have "surplus s db' = surplus s db" for s
    using votes_frameD(1) [OF fr] surplus_dgpo [of s g "set_account a' db"] surplus_set_account [OF f, of s] ae(1) [of s] ge(1) [of s]
    by (simp add: n a(1))
  moreover have "pending_gap db' = pending_gap db"
    using pending_gap_votes_frame [OF fr] pending_gap_set_account [OF f] ae(6) ge(3) by (simp add: pending_gap_def set_account_def)
  moreover have "vote_state_ok db' \<and> vsf_surplus db' = vsf_surplus db" if "vote_state_ok db"
    using shares_change_votes [OF that f ae(3,4,5) t] v n ge(2) votes_frameD(4) [OF fr] by (simp add: vsf_surplus_def)
  ultimately show ?thesis by (simp add: accounted_def)
qed

lemma claim_reward_balance_accounted:
  assumes "claim_reward_balance_apply db o1 = Inr db'"
  shows "accounted db db'"
proof -
  obtain n nf ns db1 db2 db3 db4 db5 m where 1:
      "asset_neg (crb_reward_freezone o1) = Inr nf" "adjust_reward_balance db n nf no_shares = Inr db1"
      "asset_neg (crb_reward_sbd o1) = Inr ns" "adjust_reward_balance db1 n ns no_shares = Inr db2"
      "adjust_balance_of db2 n (crb_reward_freezone o1) = Inr db3" "adjust_balance_of db3 n (crb_reward_sbd o1) = Inr db4"
      "(if has_hardfork db 20 then update_account_mana db4 n (amount (crb_reward_vests o1)) else Inr db4) = Inr db5"
      "claim_vests db5 n (crb_reward_vests o1) m = Inr db'"
    using assms unfolding claim_reward_balance_apply_def
    by (simp only: rbind_eq_Inr fc_assert_eq_Inr) (elim exE conjE, rule that)
  have nv: "\<not> is_vesting (symbol nf)" "\<not> is_vesting (symbol ns)"
    using 1(2,4) by (simp_all add: adjust_reward_balance_def fc_assert_eq_Inr)
  then have sy: "symbol (crb_reward_freezone o1) \<noteq> VESTS_SYMBOL" "symbol (crb_reward_sbd o1) \<noteq> VESTS_SYMBOL"
    using asset_neg_value [OF 1(1)] asset_neg_value [OF 1(3)] not_vesting_VESTS by fastforce+
  have "accounted db db4"
  proof (rule accountedI)
    show "surplus s db4 = surplus s db" for s
      using amt_neg [OF 1(1), of s] amt_neg [OF 1(3), of s] adjust_reward_balance_surplus [OF 1(2), of s] adjust_reward_balance_surplus [OF 1(4), of s]
        adjust_balance_of_surplus [OF 1(5), of s] adjust_balance_of_surplus [OF 1(6), of s] by (simp add: no_shares_def)
    show "pending_gap db4 = pending_gap db"
      using adjust_reward_balance_pending [OF 1(2)] adjust_reward_balance_pending [OF 1(4)] adjust_balance_pending(2) [OF 1(5)]
        adjust_balance_pending(2) [OF 1(6)] by (simp add: no_shares_def)
    show "votes_untouched db db4"
      using adjust_reward_balance_untouched [OF 1(2)] adjust_reward_balance_untouched [OF 1(4)] adjust_balance_untouched(2) [OF 1(5) sy(1)]
        adjust_balance_untouched(2) [OF 1(6) sy(2)] votes_untouched_trans by blast
  qed
  moreover have "accounted db4 db5" using 1(7) update_account_mana_accounted by (auto split: if_splits)
  ultimately show ?thesis using claim_vests_accounted [OF 1(8)] accounted_trans by blast
qed

lemma liquid_symbol_not_vesting: "space s = SST_nai_space \<Longrightarrow> is_vesting s \<Longrightarrow> get_liquid_symbol s \<noteq> s"
proof
  assume s: "space s = SST_nai_space" "is_vesting s" "get_liquid_symbol s = s"
  then have e: "s AND NOT SST_ASSET_NUM_VESTING_MASK = s" and z: "s AND SST_ASSET_NUM_VESTING_MASK \<noteq> 0"
    by (simp_all add: get_liquid_symbol_def is_vesting_def)
  have "s AND SST_ASSET_NUM_VESTING_MASK = (s AND NOT SST_ASSET_NUM_VESTING_MASK) AND SST_ASSET_NUM_VESTING_MASK" by (simp only: e)
  also have "\<dots> = s AND (NOT SST_ASSET_NUM_VESTING_MASK AND SST_ASSET_NUM_VESTING_MASK)" by (rule and.assoc)
  also have "\<dots> = 0" by simp
  finally show False using z by simp
qed

text \<open>The row is found by its liquid symbol, and the comparison asks it to have the symbol of the claim.\<close>

lemma claim_SST_vesting_fails:
  assumes "space (symbol token) = SST_nai_space" "is_vesting (symbol token)"
  shows "\<exists>e. claim_SST_reward db name token = Inl e"
proof (cases "find_row arw_key (name, get_liquid_symbol (symbol token)) (rewards_balances db)")
  case None
  then show ?thesis by (simp add: claim_SST_reward_def)
next
  case (Some bal)
  then have "symbol (arw_pending_liquid bal) = get_liquid_symbol (symbol token)" using find_row_key [OF Some] by (simp add: arw_key_def)
  then have "asset_le token (arw_pending_liquid bal) = Inl (Fc_assert '''')"
    using liquid_symbol_not_vesting [OF assms] by (simp add: asset_le_def fc_assert_def)
  then show ?thesis by (simp add: claim_SST_reward_def Some)
qed

lemma claim_SST_reward_accounted:
  assumes "claim_SST_reward db name token = Inr db'" "space (symbol token) = SST_nai_space"
  shows "accounted db db'"
proof -
  have nv: "\<not> is_vesting (symbol token)"
  proof
    assume "is_vesting (symbol token)"
    then obtain e where "claim_SST_reward db name token = Inl e" using claim_SST_vesting_fails [OF assms(2)] by blast
    then show False using assms(1) by simp
  qed
  then obtain bal l where 1: "find_row arw_key (name, get_liquid_symbol (symbol token)) (rewards_balances db) = Some bal"
      "asset_sub (arw_pending_liquid bal) token = Inr l"
      "adjust_balance (db\<lparr>rewards_balances := update_row arw_key (arw_key bal) (bal\<lparr>arw_pending_liquid := l\<rparr>) (rewards_balances db)\<rparr>) name token = Inr db'"
    using assms(1) by (auto simp: claim_SST_reward_def rbind_eq_Inr fc_assert_eq_Inr split: option.splits)
  let ?db1 = "db\<lparr>rewards_balances := update_row arw_key (arw_key bal) (bal\<lparr>arw_pending_liquid := l\<rparr>) (rewards_balances db)\<rparr>"
  have f: "find_row arw_key (arw_key bal) (rewards_balances db) = Some bal" using 1(1) find_row_key [OF 1(1)] by simp
  show ?thesis
  proof (rule accountedI)
    show "surplus s db' = surplus s db" for s
      using adjust_balance_surplus [OF 1(3), of s] amt_sub [OF 1(2), of s] f
      by (simp add: surplus_rewards_balances table_simps arw_held_def)
    show "pending_gap db' = pending_gap db" using adjust_balance_pending(1) [OF 1(3)] by simp
    show "votes_untouched db db'"
      using adjust_balance_untouched(1) [OF 1(3) not_vesting_VESTS [OF nv]] by (simp add: votes_untouched_def)
  qed
qed

lemma claim_native_reward_accounted:
  assumes "claim_native_reward db name token = Inr db'"
  shows "accounted db db'"
proof (cases "symbol token = VESTS_SYMBOL")
  case True
  then show ?thesis using assms claim_vests_accounted by (auto simp: claim_native_reward_def rbind_eq_Inr fc_assert_eq_Inr)
next
  case False
  then show ?thesis using assms reward_to_balance_accounted
    by (auto simp: claim_native_reward_def rbind_eq_Inr fc_assert_eq_Inr split: if_splits)
qed

lemma claim_token_accounted: "claim_token name token db = Inr db' \<Longrightarrow> accounted db db'"
  by (auto simp: claim_token_def split: if_splits dest: claim_SST_reward_accounted claim_native_reward_accounted)

lemma claim_reward_balance2_accounted:
  assumes "claim_reward_balance2_apply db o1 = Inr db'"
  shows "accounted db db'"
proof -
  have "accounted db d'" if "rfold (claim_token n) ts db = Inr d'" for n ts d'
    using that by (induction ts arbitrary: db) (auto simp: rbind_eq_Inr intro: accounted_trans claim_token_accounted)
  then show ?thesis using assms by (auto simp: claim_reward_balance2_apply_def fc_assert_eq_Inr)
qed

section \<open>Printing and burning\<close>

text \<open>Printing SBD is a credit of the native amount: what is not paid in the native asset leaves the supply.\<close>

lemma create_sbd_surplus:
  assumes "create_sbd db n x r = Inr (created, db')" "symbol x = freezone_SYMBOL"
  shows "surplus s db' = surplus s db + amt s x"
proof -
  consider (none) "amount x = 0" "db' = db"
    | (print) m t f sbd d db2 db3 where "safe_div m freezone_100_PERCENT = Inr t" "safe_sub (amount x) t = Inr f"
        "pay_created r db n sbd (mk_asset f freezone_SYMBOL) = Inr db2"
        "safe_neg t = Inr d" "adjust_supply db2 (mk_asset d freezone_SYMBOL) False = Inr db3" "adjust_supply db3 sbd False = Inr db'"
    | (liquid) "adjust_balance_of db n x = Inr db'"
    using assms(1) by (auto simp: create_sbd_def rbind_eq_Inr split: if_splits)
  then show ?thesis
  proof cases
    case print
    have b: "surplus s db2 = surplus s db + amt s sbd + amt s (mk_asset f freezone_SYMBOL)"
      using print(3) by (auto simp: pay_created_def rbind_eq_Inr no_shares_def split: if_splits
          dest!: adjust_reward_balance_surplus [where s = s] adjust_balance_of_surplus [where s = s])
    have "amount x = f + t" "d = - t" using safe_values(2) [OF print(2)] safe_values(3) [OF print(4)] by simp_all
    then show ?thesis
      using b adjust_supply_surplus [OF print(5), of s] adjust_supply_surplus [OF print(6), of s] assms(2) by (simp add: amt_def)
  next
    case liquid
    then show ?thesis by (rule adjust_balance_of_surplus)
  qed simp
qed

lemma add_positive_amt: "add_positive x t = Inr t' \<Longrightarrow> 0 \<le> amount x \<Longrightarrow> amt s t' = amt s t + amt s x"
  by (auto simp: add_positive_def split: if_splits dest: amt_add [where s = s])

lemma null_shares_amt:
  assumes "null_shares g a f = Inr (value, f', v)" "0 \<le> amount (acc_vesting_shares a)"
  shows "amt s f' = amt s f + amt s value" "amt s v = amt s (acc_vesting_shares a)" "amount (acc_vesting_shares a) = 0 \<longrightarrow> amount value = 0"
  using assms by (auto simp: null_shares_def rbind_eq_Inr split: if_splits dest!: amt_add [where s = s])

definition null_fund :: "asset_symbol_type \<Rightarrow> account_object \<Rightarrow> int" where
  "null_fund s a = (if amount (acc_reward_vesting_balance a) > 0 then amt s (acc_reward_vesting_freezone a) else 0)"

lemma null_rewards_amt:
  assumes "null_rewards a f v = Inr (f', v')" "0 \<le> amount (acc_reward_vesting_balance a)"
  shows "amt s f' = amt s f + null_fund s a" "amt s v' = amt s v + amt s (acc_reward_vesting_balance a)"
  using assms by (auto simp: null_rewards_def null_fund_def rbind_eq_Inr split: if_splits dest!: amt_add [where s = s])

lemma null_totals_amt:
  assumes "null_totals g a = Inr (value, f, sb, t)" "account_solvent a"
  shows "amt s f + amt s sb + amt s t = account_held s a + amt s value + null_fund s a"
    "amt s t = amt s (acc_vesting_shares a) + amt s (acc_reward_vesting_balance a)"
    "amount (acc_vesting_shares a) = 0 \<longrightarrow> amount value = 0"
proof -
  obtain f1 f2 s1 s2 f3 v1 f4 where
    1: "add_positive (acc_balance a) (mk_asset 0 freezone_SYMBOL) = Inr f1" "add_positive (acc_savings_balance a) f1 = Inr f2"
      "add_positive (acc_sbd_balance a) (mk_asset 0 SBD_SYMBOL) = Inr s1" "add_positive (acc_savings_sbd_balance a) s1 = Inr s2"
      "add_positive (acc_reward_freezone_balance a) f3 = Inr f4" "add_positive (acc_reward_sbd_balance a) s2 = Inr sb"
    and v: "null_shares g a f2 = Inr (value, f3, v1)" and r: "null_rewards a f4 v1 = Inr (f, t)"
    using assms(1) unfolding null_totals_def by (simp only: rbind_eq_Inr split_paired_Ex prod.case) auto
  have n: "0 \<le> amount (acc_balance a)" "0 \<le> amount (acc_savings_balance a)" "0 \<le> amount (acc_sbd_balance a)" "0 \<le> amount (acc_savings_sbd_balance a)"
      "0 \<le> amount (acc_vesting_shares a)" "0 \<le> amount (acc_reward_freezone_balance a)" "0 \<le> amount (acc_reward_sbd_balance a)"
      "0 \<le> amount (acc_reward_vesting_balance a)"
    using assms(2) by (simp_all add: account_solvent_def)
  note p = add_positive_amt [OF 1(1) n(1), of s] add_positive_amt [OF 1(2) n(2), of s] add_positive_amt [OF 1(3) n(3), of s]
    add_positive_amt [OF 1(4) n(4), of s] add_positive_amt [OF 1(5) n(6), of s] add_positive_amt [OF 1(6) n(7), of s]
    null_shares_amt(1,2) [OF v n(5), where s = s] null_shares_amt(3) [OF v n(5)] null_rewards_amt [OF r n(8), of s]
  show "amt s f + amt s sb + amt s t = account_held s a + amt s value + null_fund s a" using p by (simp add: account_held_def)
  show "amt s t = amt s (acc_vesting_shares a) + amt s (acc_reward_vesting_balance a)" using p by simp
  show "amount (acc_vesting_shares a) = 0 \<longrightarrow> amount value = 0" using p by simp
qed

lemma clear_null_shares_held:
  assumes "clear_null_shares a value g = Inr g'" "0 \<le> amount (acc_vesting_shares a)" "amount (acc_vesting_shares a) = 0 \<longrightarrow> amount value = 0"
  shows "gp_held s g' - gp_issued s g' = gp_held s g - gp_issued s g - amt s value + amt s (acc_vesting_shares a)"
  using assms by (auto simp: clear_null_shares_def rbind_eq_Inr gp_held_def gp_issued_def split: if_splits dest!: amt_sub [where s = s])

lemma clear_null_rewards_held:
  assumes "clear_null_rewards a g = Inr g'" "0 \<le> amount (acc_reward_vesting_balance a)"
  shows "gp_held s g' - gp_issued s g' = gp_held s g - gp_issued s g - null_fund s a + amt s (acc_reward_vesting_balance a)"
  using assms by (auto simp: clear_null_rewards_def null_fund_def rbind_eq_Inr gp_held_def gp_issued_def split: if_splits dest!: amt_sub [where s = s])

lemma burn_surplus: "burn x db = Inr db' \<Longrightarrow> 0 \<le> amount x \<Longrightarrow> surplus s db' = surplus s db + amt s x"
  by (auto simp: burn_def rbind_eq_Inr split: if_splits dest!: amt_neg [where s = s] adjust_supply_surplus [where s = s])

lemma clear_null_steps:
  assumes "clear_null_account_balance db = Inr db'" "has_hardfork db 14" "find_row acc_name freezone_NULL_ACCOUNT (accounts db) = Some a"
    "null_totals (dgpo db) a = Inr (value, f, sb, t)" "amount f \<noteq> 0 \<or> amount sb \<noteq> 0 \<or> amount t \<noteq> 0"
  obtains g0 g db3 db4 v where "clear_null_shares a value (dgpo db) = Inr g0" "clear_null_rewards a g0 = Inr g"
    "burn f (if amount f > 0 \<or> amount sb > 0 then set_account (clear_balances a) (db\<lparr>dgpo := g\<rparr>) else db\<lparr>dgpo := g\<rparr>) = Inr db3"
    "burn sb db3 = Inr db4" "db' = push_virtual_operation db4 v"
proof -
  have "get_account db freezone_NULL_ACCOUNT = Inr a" using assms(3) by (simp add: get_account_eq_Inr)
  moreover have "(amount f = 0 \<and> amount sb = 0 \<and> amount t = 0) = False" using assms(5) by blast
  ultimately show thesis using assms(1,2,4) that
    unfolding clear_null_account_balance_def Let_def
    by (simp only: rbind_Inr prod.case if_False simp_thms rbind_eq_Inr sum.inject) blast
qed

lemma clear_balances_held [simp]: "account_held s (clear_balances a) = 0" "acc_name (clear_balances a) = acc_name a"
  by (simp_all add: clear_balances_def account_held_def)

lemma clear_null_surplus:
  assumes "clear_null_account_balance db = Inr db'" "has_hardfork db 14" "find_row acc_name freezone_NULL_ACCOUNT (accounts db) = Some a"
    "account_solvent a" "null_totals (dgpo db) a = Inr (value, f, sb, t)" "0 \<le> amount f" "0 \<le> amount sb" "amount f > 0 \<or> amount sb > 0"
  shows "surplus s db' = surplus s db"
proof -
  obtain g0 g db3 db4 v where 1: "clear_null_shares a value (dgpo db) = Inr g0" "clear_null_rewards a g0 = Inr g"
      "burn f (set_account (clear_balances a) (db\<lparr>dgpo := g\<rparr>)) = Inr db3" "burn sb db3 = Inr db4" "db' = push_virtual_operation db4 v"
    by (rule clear_null_steps [OF assms(1-3,5)]) (use assms(8) in auto)
  note t = null_totals_amt [OF assms(5,4)]
  have n: "0 \<le> amount (acc_vesting_shares a)" "0 \<le> amount (acc_reward_vesting_balance a)" using assms(4) by (simp_all add: account_solvent_def)
  have "find_row acc_name (acc_name (clear_balances a)) (accounts (db\<lparr>dgpo := g\<rparr>)) = Some a"
    using assms(3) find_row_key [OF assms(3)] by simp
  note a = surplus_set_account [OF this, of s]
  show ?thesis
    using a burn_surplus [OF 1(3) assms(6), of s] burn_surplus [OF 1(4) assms(7), of s] surplus_dgpo [of s g db] t(1,2) [of s]
      clear_null_shares_held [OF 1(1) n(1) t(3), of s] clear_null_rewards_held [OF 1(2) n(2), of s] by (simp add: 1(5))
qed

text \<open>
  When the shares of the null account are worth less than one unit, nothing is cleared but the shares are taken from
  the pool.
\<close>

lemma clear_null_dust:
  assumes "clear_null_account_balance db = Inr db'" "has_hardfork db 14" "find_row acc_name freezone_NULL_ACCOUNT (accounts db) = Some a"
    "account_solvent a" "null_totals (dgpo db) a = Inr (value, f, sb, t)" "amount f = 0" "amount sb = 0" "amount t \<noteq> 0"
  shows "accounts db' = accounts db"
    "surplus s db' = surplus s db + amt s (acc_vesting_shares a) + amt s (acc_reward_vesting_balance a) - amt s value - null_fund s a"
proof -
  obtain g0 g db3 db4 v where 1: "clear_null_shares a value (dgpo db) = Inr g0" "clear_null_rewards a g0 = Inr g"
      "burn f (db\<lparr>dgpo := g\<rparr>) = Inr db3" "burn sb db3 = Inr db4" "db' = push_virtual_operation db4 v"
    by (rule clear_null_steps [OF assms(1-3,5)]) (use assms(6-8) in auto)
  have d: "db' = push_virtual_operation (db\<lparr>dgpo := g\<rparr>) v" using 1(3-5) assms(6,7) by (simp add: burn_def)
  then show "accounts db' = accounts db" by simp
  have n: "0 \<le> amount (acc_vesting_shares a)" "0 \<le> amount (acc_reward_vesting_balance a)" using assms(4) by (simp_all add: account_solvent_def)
  show "surplus s db' = surplus s db + amt s (acc_vesting_shares a) + amt s (acc_reward_vesting_balance a) - amt s value - null_fund s a"
    using d surplus_dgpo [of s g db] clear_null_shares_held [OF 1(1) n(1) null_totals_amt(3) [OF assms(5,4)], of s]
      clear_null_rewards_held [OF 1(2) n(2), of s] by simp
qed

section \<open>The virtual supply\<close>

lemma print_rate_le: "uint (print_rate start stop p) \<le> freezone_100_PERCENT"
proof (cases "p \<le> start \<or> p \<ge> stop")
  case True
  then show ?thesis by (auto simp: print_rate_def freezone_100_PERCENT_def)
next
  case False
  then have r: "uint start < uint p" "uint p < uint stop" by (auto simp: word_le_def)
  let ?n = "uint stop - uint p" and ?d = "uint stop - uint start"
  have "(?n * freezone_100_PERCENT) sdiv ?d = (?n * freezone_100_PERCENT) div ?d" using r by (intro sdiv_pos) (simp_all add: freezone_100_PERCENT_def)
  moreover have "(?n * freezone_100_PERCENT) div ?d \<le> (freezone_100_PERCENT * ?d) div ?d"
    using r by (intro zdiv_mono1) (simp_all add: freezone_100_PERCENT_def)
  then have "(?n * freezone_100_PERCENT) div ?d \<le> freezone_100_PERCENT" using r by (simp only: nonzero_mult_div_cancel_right)
  moreover have "0 \<le> (?n * freezone_100_PERCENT) div ?d" using r by (simp add: pos_imp_zdiv_nonneg_iff freezone_100_PERCENT_def)
  moreover have "uint (word_of_int x :: 16 word) = x" if "0 \<le> x" "x \<le> freezone_100_PERCENT" for x
    using that by (simp add: uint_word_of_int freezone_100_PERCENT_def take_bit_eq_mod)
  ultimately show ?thesis using False by (simp only: print_rate_def if_False de_Morgan_disj simp_thms)
qed

lemma update_virtual_supply_effect:
  assumes "update_virtual_supply db = Inr db'"
  obtains debt vs rate where
    "(if price_is_null (current_median_history db) then Inr (mk_asset 0 freezone_SYMBOL)
      else asset_mul_price (gp_current_sbd_supply (dgpo db)) (current_median_history db)) = Inr debt"
    "asset_add (gp_current_supply (dgpo db)) debt = Inr vs"
    "db' = db\<lparr>dgpo := (dgpo db)\<lparr>gp_virtual_supply := vs, gp_sbd_print_rate := rate\<rparr>\<rparr>"
    "rate = gp_sbd_print_rate (dgpo db) \<or> uint rate \<le> freezone_100_PERCENT"
proof -
  obtain debt vs where 1: "(if price_is_null (current_median_history db) then Inr (mk_asset 0 freezone_SYMBOL)
      else asset_mul_price (gp_current_sbd_supply (dgpo db)) (current_median_history db)) = Inr debt"
      "asset_add (gp_current_supply (dgpo db)) debt = Inr vs"
      "(if \<not> price_is_null (current_median_history db) \<and> has_hardfork db 14 then
        rbind (asset_mul_price (gp_current_sbd_supply ((dgpo db)\<lparr>gp_virtual_supply := vs\<rparr>)) (current_median_history db)) (\<lambda>d.
        rbind (sbd_percent (has_hardfork db 21) (amount d) (amount vs)) (\<lambda>percent_sbd.
        Inr (db\<lparr>dgpo := (dgpo db)\<lparr>gp_virtual_supply := vs, gp_sbd_print_rate := print_rate (gp_sbd_start_percent ((dgpo db)\<lparr>gp_virtual_supply := vs\<rparr>))
          (gp_sbd_stop_percent ((dgpo db)\<lparr>gp_virtual_supply := vs\<rparr>)) percent_sbd\<rparr>\<rparr>)))
      else Inr (db\<lparr>dgpo := (dgpo db)\<lparr>gp_virtual_supply := vs\<rparr>\<rparr>)) = Inr db'"
    using assms unfolding update_virtual_supply_def Let_def by (simp only: rbind_eq_Inr) (elim exE conjE, rule that)
  show thesis
  proof (cases "\<not> price_is_null (current_median_history db) \<and> has_hardfork db 14")
    case True
    then obtain r where "db' = db\<lparr>dgpo := (dgpo db)\<lparr>gp_virtual_supply := vs, gp_sbd_print_rate := r\<rparr>\<rparr>" "uint r \<le> freezone_100_PERCENT"
      using 1(3) print_rate_le by (simp only: if_True rbind_eq_Inr sum.inject simp_thms) blast
    then show thesis using that [OF 1(1,2)] by blast
  next
    case False
    then have "db' = db\<lparr>dgpo := (dgpo db)\<lparr>gp_virtual_supply := vs\<rparr>\<rparr>" using 1(3) by (simp only: if_False sum.inject)
    then show thesis using that [OF 1(1,2), of "gp_sbd_print_rate (dgpo db)"] by simp
  qed
qed

end
