(* ===== verification/Supply_Audit.thy ===== *)
theory Supply_Audit
  imports Power_Down
begin

text \<open>
  \<^verbatim>\<open>validate_invariants\<close>, the audit that a node can run after every block: it adds up what every object of
  the state holds and compares the sums with the global counters.  The audit accepts a state exactly if
  the surplus of every native symbol and of the votes is zero and the remaining counters agree, as long as the
  sums fit their type.
\<close>

section \<open>The audit\<close>

record audit_totals =
  aud_supply :: asset
  aud_sbd :: asset
  aud_vesting :: asset
  aud_pending :: asset
  aud_votes :: share_type

definition add_supply :: "asset \<Rightarrow> audit_totals \<Rightarrow> audit_totals result" where
  "add_supply x t = rbind (asset_add (aud_supply t) x) (\<lambda>y. Inr (t\<lparr>aud_supply := y\<rparr>))"

definition add_sbd :: "asset \<Rightarrow> audit_totals \<Rightarrow> audit_totals result" where
  "add_sbd x t = rbind (asset_add (aud_sbd t) x) (\<lambda>y. Inr (t\<lparr>aud_sbd := y\<rparr>))"

definition add_vesting :: "asset \<Rightarrow> audit_totals \<Rightarrow> audit_totals result" where
  "add_vesting x t = rbind (asset_add (aud_vesting t) x) (\<lambda>y. Inr (t\<lparr>aud_vesting := y\<rparr>))"

definition add_pending :: "asset \<Rightarrow> audit_totals \<Rightarrow> audit_totals result" where
  "add_pending x t = rbind (asset_add (aud_pending t) x) (\<lambda>y. Inr (t\<lparr>aud_pending := y\<rparr>))"

definition add_votes :: "share_type \<Rightarrow> audit_totals \<Rightarrow> audit_totals result" where
  "add_votes x t = rbind (safe_add (aud_votes t) x) (\<lambda>y. Inr (t\<lparr>aud_votes := y\<rparr>))"

definition audit_account :: "account_object \<Rightarrow> audit_totals \<Rightarrow> audit_totals result" where
  "audit_account a t =
     rbind (add_supply (acc_balance a) t) (\<lambda>t1.
     rbind (add_supply (acc_savings_balance a) t1) (\<lambda>t2.
     rbind (add_supply (acc_reward_freezone_balance a) t2) (\<lambda>t3.
     rbind (add_sbd (acc_sbd_balance a) t3) (\<lambda>t4.
     rbind (add_sbd (acc_savings_sbd_balance a) t4) (\<lambda>t5.
     rbind (add_sbd (acc_reward_sbd_balance a) t5) (\<lambda>t6.
     rbind (add_vesting (acc_vesting_shares a) t6) (\<lambda>t7.
     rbind (add_vesting (acc_reward_vesting_balance a) t7) (\<lambda>t8.
     rbind (add_pending (acc_reward_vesting_freezone a) t8) (\<lambda>t9.
     rbind (if acc_proxy a = freezone_PROXY_TO_SELF_ACCOUNT then witness_vote_weight a
            else Inr (acc_proxied_vsf_votes a ! (freezone_MAX_PROXY_RECURSION_DEPTH - 1))) (\<lambda>v.
     add_votes v t9))))))))))"

definition audit_by_symbol :: "string \<Rightarrow> asset \<Rightarrow> audit_totals \<Rightarrow> audit_totals result" where
  "audit_by_symbol msg x t =
     (if symbol x = freezone_SYMBOL then add_supply x t
      else if symbol x = SBD_SYMBOL then add_sbd x t
      else Inl (Fc_assert msg))"

definition audit_order :: "limit_order_object \<Rightarrow> audit_totals \<Rightarrow> audit_totals result" where
  "audit_order o1 t =
     (if symbol (base (lo_sell_price o1)) = freezone_SYMBOL then add_supply (mk_asset (lo_for_sale o1) freezone_SYMBOL) t
      else if symbol (base (lo_sell_price o1)) = SBD_SYMBOL then add_sbd (mk_asset (lo_for_sale o1) SBD_SYMBOL) t
      else Inr t)"

definition audit_escrow :: "escrow_object \<Rightarrow> audit_totals \<Rightarrow> audit_totals result" where
  "audit_escrow e t =
     rbind (add_supply (esc_freezone_balance e) t) (\<lambda>t1.
     rbind (add_sbd (esc_sbd_balance e) t1) (\<lambda>t2.
     audit_by_symbol ''found escrow pending fee that is not SBD or freezone'' (esc_pending_fee e) t2))"

definition audit_ico :: "database \<Rightarrow> SST_ico_object \<Rightarrow> audit_totals \<Rightarrow> audit_totals result" where
  "audit_ico db i t =
     rbind (get_token db (ico_symbol i)) (\<lambda>token.
     if phase_le_launch_failed (tok_phase token)
     then rbind (safe_sub (amount (ico_contributed i)) (ico_processed_contributions i)) (\<lambda>x. add_supply (mk_asset x freezone_SYMBOL) t)
     else add_supply (mk_asset (amount (ico_contributed i)) freezone_SYMBOL) t)"

definition audit_objects :: "database \<Rightarrow> audit_totals result" where
  "audit_objects db =
     rbind (rfold audit_account (sort_key acc_name (accounts db))
       \<lparr>aud_supply = mk_asset 0 freezone_SYMBOL, aud_sbd = mk_asset 0 SBD_SYMBOL, aud_vesting = mk_asset 0 VESTS_SYMBOL,
        aud_pending = mk_asset 0 freezone_SYMBOL, aud_votes = 0\<rparr>) (\<lambda>t1.
     rbind (rfold (\<lambda>c. audit_by_symbol ''Encountered illegal symbol in convert_request_object'' (cr_amount c)) (convert_requests db) t1) (\<lambda>t2.
     rbind (rfold audit_order (limit_orders db) t2) (\<lambda>t3.
     rbind (rfold audit_escrow (escrows db) t3) (\<lambda>t4.
     rbind (rfold (\<lambda>w. audit_by_symbol ''found savings withdraw that is not SBD or freezone'' (sw_amount w)) (savings_withdraws db) t4) (\<lambda>t5.
     rbind (rfold (\<lambda>r. add_supply (rf_reward_balance r)) (reward_funds db) t5) (\<lambda>t6.
     rbind (rfold (audit_ico db) (SST_icos db) t6) (\<lambda>t7.
     rfold (\<lambda>t. add_supply (mm_freezone_balance (tok_market_maker t))) (SST_tokens db) t7)))))))"

definition check_virtual_supply :: "database \<Rightarrow> unit result" where
  "check_virtual_supply db =
     (let g = dgpo db in
      rbind (asset_ge (gp_virtual_supply g) (gp_current_supply g)) (\<lambda>ok.
      fc_assert ok '''' (
      if \<not> price_is_null (current_median_history db) then
        rbind (asset_mul_price (gp_current_sbd_supply g) (current_median_history db)) (\<lambda>x.
        rbind (asset_add x (gp_current_supply g)) (\<lambda>y.
        fc_assert (y = gp_virtual_supply g) '''' (Inr ())))
      else Inr ())))"

definition validate_invariants :: "database \<Rightarrow> unit result" where
  "validate_invariants db =
     (let g = dgpo db in
      fc_assert (list_all (\<lambda>w. wit_votes w \<le> amount (gp_total_vesting_shares g)) (witnesses db)) '''' (
      rbind (audit_objects db) (\<lambda>t.
      rbind (asset_add (gp_total_vesting_fund_freezone g) (gp_total_reward_fund_freezone g)) (\<lambda>f.
      rbind (asset_add f (gp_pending_rewarded_vesting_freezone g)) (\<lambda>funds.
      rbind (add_supply funds t) (\<lambda>t1.
      fc_assert (gp_current_supply g = aud_supply t1) '''' (
      rbind (asset_add (gp_current_sbd_supply g) (gp_init_sbd_supply g)) (\<lambda>sbd.
      fc_assert (sbd = aud_sbd t1) '''' (
      rbind (asset_add (gp_total_vesting_shares g) (gp_pending_rewarded_vesting_shares g)) (\<lambda>vests.
      fc_assert (vests = aud_vesting t1) '''' (
      fc_assert (amount (gp_total_vesting_shares g) = aud_votes t1) '''' (
      fc_assert (gp_pending_rewarded_vesting_freezone g = aud_pending t1) '''' (
      rbind (check_virtual_supply db) (\<lambda>_.
      fc_assert (gp_target_votes_per_period g * word_of_int freezone_VOTING_MANA_REGENERATION_SECONDS > 0)
        ''target_votes_per_period overflowed'' (Inr ())))))))))))))))"

section \<open>What a walk adds up\<close>

text \<open>
  The five running totals as readings.  \<open>adds c f\<close> is the contract of a step \<open>f\<close> of the walk: it adds the
  nonnegative amounts \<open>c\<close> and throws exactly if a total would leave the 64-bit range.
\<close>

datatype part = Supply | Sbd | Shares | Pending | Votes

fun reading :: "part \<Rightarrow> audit_totals \<Rightarrow> int" where
  "reading Supply t = amount (aud_supply t)"
| "reading Sbd t = amount (aud_sbd t)"
| "reading Shares t = amount (aud_vesting t)"
| "reading Pending t = amount (aud_pending t)"
| "reading Votes t = aud_votes t"

definition totals_ok :: "audit_totals \<Rightarrow> bool" where
  "totals_ok t \<longleftrightarrow>
     symbol (aud_supply t) = freezone_SYMBOL \<and> symbol (aud_sbd t) = SBD_SYMBOL \<and> symbol (aud_vesting t) = VESTS_SYMBOL \<and>
     symbol (aud_pending t) = freezone_SYMBOL \<and> (\<forall>p. 0 \<le> reading p t \<and> reading p t \<le> i64_max)"

definition adds :: "(part \<Rightarrow> int) \<Rightarrow> (audit_totals \<Rightarrow> audit_totals result) \<Rightarrow> bool" where
  "adds c f \<longleftrightarrow> (\<forall>p. 0 \<le> c p) \<and>
     (\<forall>t. totals_ok t \<longrightarrow>
        (if \<forall>p. reading p t + c p \<le> i64_max
         then \<exists>t'. f t = Inr t' \<and> totals_ok t' \<and> (\<forall>p. reading p t' = reading p t + c p)
         else \<exists>e. f t = Inl e))"

definition only :: "part \<Rightarrow> int \<Rightarrow> part \<Rightarrow> int" where
  "only q x p = (if p = q then x else 0)"

lemma all_parts: "(\<forall>p. P p) \<longleftrightarrow> P Supply \<and> P Sbd \<and> P Shares \<and> P Pending \<and> P Votes"
  by (metis part.exhaust)

lemma adds_none: "adds (\<lambda>p. 0) Inr"
  by (auto simp: adds_def totals_ok_def)

lemma adds_cong: "adds c f \<Longrightarrow> (\<And>p. c p = d p) \<Longrightarrow> adds d f"
  by (subgoal_tac "c = d") auto

lemma adds_nonneg: "adds c f \<Longrightarrow> 0 \<le> c p"
  by (simp add: adds_def)

lemma adds_returns:
  "adds c f \<Longrightarrow> totals_ok t \<Longrightarrow> \<forall>p. reading p t + c p \<le> i64_max \<Longrightarrow>
   \<exists>t'. f t = Inr t' \<and> totals_ok t' \<and> (\<forall>p. reading p t' = reading p t + c p)"
  by (simp add: adds_def)

lemma adds_throws: "adds c f \<Longrightarrow> totals_ok t \<Longrightarrow> \<not> (\<forall>p. reading p t + c p \<le> i64_max) \<Longrightarrow> \<exists>e. f t = Inl e"
  by (simp only: adds_def if_False simp_thms)

lemma adds_bind:
  assumes f: "adds c f" and g: "adds d g"
  shows "adds (\<lambda>p. c p + d p) (\<lambda>t. rbind (f t) g)"
  unfolding adds_def
proof (intro conjI allI impI)
  show "0 \<le> c p + d p" for p using f g by (simp add: adds_def)
next
  fix t assume t: "totals_ok t"
  have d: "0 \<le> d p" for p using g by (simp add: adds_def)
  show "if \<forall>p. reading p t + (c p + d p) \<le> i64_max
    then \<exists>t'. rbind (f t) g = Inr t' \<and> totals_ok t' \<and> (\<forall>p. reading p t' = reading p t + (c p + d p))
    else \<exists>e. rbind (f t) g = Inl e"
  proof (cases "\<forall>p. reading p t + c p \<le> i64_max")
    case True
    then obtain t1 where t1: "f t = Inr t1" "totals_ok t1" "\<forall>p. reading p t1 = reading p t + c p"
      using adds_returns [OF f t] by blast
    then show ?thesis using adds_returns [OF g t1(2)] adds_throws [OF g t1(2)] by (simp add: add.assoc)
  next
    case False
    then obtain e where e: "f t = Inl e" using adds_throws [OF f t] by blast
    obtain q where "\<not> reading q t + c q \<le> i64_max" using False by blast
    then have "\<not> reading q t + (c q + d q) \<le> i64_max" using d [of q] by linarith
    then have "\<not> (\<forall>p. reading p t + (c p + d p) \<le> i64_max)" by blast
    then show ?thesis using e by (simp only: if_False) simp
  qed
qed

lemma adds_fold:
  "(\<And>x. x \<in> set xs \<Longrightarrow> adds (\<lambda>p. c p x) (step x)) \<Longrightarrow> adds (\<lambda>p. sum_rows (c p) xs) (rfold step xs)"
proof (induction xs)
  case Nil
  have "rfold step [] = Inr" by (rule ext) simp
  then show ?case using adds_none by simp
next
  case (Cons x xs)
  have "rfold step (x # xs) = (\<lambda>t. rbind (step x t) (rfold step xs))" by (rule ext) simp
  then show ?case using adds_bind [OF Cons.prems [of x] Cons.IH] Cons.prems by simp
qed

lemma safe_add_adds:
  "0 \<le> a \<Longrightarrow> a \<le> i64_max \<Longrightarrow> 0 \<le> b \<Longrightarrow> safe_add a b = (if a + b \<le> i64_max then Inr (a + b) else Inl Overflow_exception)"
  by (auto simp: safe_add_def)

lemma adds_asset:
  "symbol x = freezone_SYMBOL \<Longrightarrow> 0 \<le> amount x \<Longrightarrow> amount x \<le> i64_max \<Longrightarrow> adds (only Supply (amount x)) (add_supply x)"
  "symbol x = SBD_SYMBOL \<Longrightarrow> 0 \<le> amount x \<Longrightarrow> amount x \<le> i64_max \<Longrightarrow> adds (only Sbd (amount x)) (add_sbd x)"
  "symbol x = VESTS_SYMBOL \<Longrightarrow> 0 \<le> amount x \<Longrightarrow> amount x \<le> i64_max \<Longrightarrow> adds (only Shares (amount x)) (add_vesting x)"
  "symbol x = freezone_SYMBOL \<Longrightarrow> 0 \<le> amount x \<Longrightarrow> amount x \<le> i64_max \<Longrightarrow> adds (only Pending (amount x)) (add_pending x)"
  by (auto simp: adds_def only_def totals_ok_def all_parts add_supply_def add_sbd_def add_vesting_def add_pending_def
      asset_add_def safe_add_adds fc_assert_def)

lemma adds_votes: "0 \<le> x \<Longrightarrow> x \<le> i64_max \<Longrightarrow> adds (only Votes x) (add_votes x)"
  by (auto simp: adds_def only_def totals_ok_def all_parts add_votes_def safe_add_adds)

section \<open>What every object adds\<close>

definition holds :: "asset_symbol_type \<Rightarrow> asset \<Rightarrow> bool" where
  "holds s x \<longleftrightarrow> symbol x = s \<and> 0 \<le> amount x \<and> amount x \<le> i64_max"

lemmas adds_holds = adds_asset [unfolded conj_imp_eq_imp_imp [symmetric], folded holds_def]

definition dollar_or_native :: "asset \<Rightarrow> bool" where
  "dollar_or_native x \<longleftrightarrow> holds freezone_SYMBOL x \<or> holds SBD_SYMBOL x"

definition account_books :: "account_object \<Rightarrow> bool" where
  "account_books a \<longleftrightarrow>
     holds freezone_SYMBOL (acc_balance a) \<and> holds freezone_SYMBOL (acc_savings_balance a) \<and>
     holds freezone_SYMBOL (acc_reward_freezone_balance a) \<and> holds SBD_SYMBOL (acc_sbd_balance a) \<and>
     holds SBD_SYMBOL (acc_savings_sbd_balance a) \<and> holds SBD_SYMBOL (acc_reward_sbd_balance a) \<and>
     holds VESTS_SYMBOL (acc_vesting_shares a) \<and> holds VESTS_SYMBOL (acc_reward_vesting_balance a) \<and>
     holds freezone_SYMBOL (acc_reward_vesting_freezone a) \<and>
     length (acc_proxied_vsf_votes a) = freezone_MAX_PROXY_RECURSION_DEPTH \<and>
     (\<forall>v \<in> set (acc_proxied_vsf_votes a). 0 \<le> v \<and> v \<le> i64_max)"

fun account_part :: "part \<Rightarrow> account_object \<Rightarrow> int" where
  "account_part Supply a = amount (acc_balance a) + amount (acc_savings_balance a) + amount (acc_reward_freezone_balance a)"
| "account_part Sbd a = amount (acc_sbd_balance a) + amount (acc_savings_sbd_balance a) + amount (acc_reward_sbd_balance a)"
| "account_part Shares a = amount (acc_vesting_shares a) + amount (acc_reward_vesting_balance a)"
| "account_part Pending a = amount (acc_reward_vesting_freezone a)"
| "account_part Votes a = vsf a"

fun asset_part :: "part \<Rightarrow> asset \<Rightarrow> int" where
  "asset_part Supply x = amt freezone_SYMBOL x"
| "asset_part Sbd x = amt SBD_SYMBOL x"
| "asset_part _ x = 0"

lemma symbols_differ [simp]:
  "freezone_SYMBOL \<noteq> SBD_SYMBOL" "SBD_SYMBOL \<noteq> freezone_SYMBOL" "freezone_SYMBOL \<noteq> VESTS_SYMBOL"
  "VESTS_SYMBOL \<noteq> freezone_SYMBOL" "SBD_SYMBOL \<noteq> VESTS_SYMBOL" "VESTS_SYMBOL \<noteq> SBD_SYMBOL"
  by simp_all

lemma accumulate_adds:
  "0 \<le> n \<Longrightarrow> n \<le> i64_max \<Longrightarrow> \<forall>v \<in> set xs. 0 \<le> v \<Longrightarrow>
   accumulate xs n = (if n + sum_list xs \<le> i64_max then Inr (n + sum_list xs) else Inl Overflow_exception)"
proof (induction xs arbitrary: n)
  case (Cons x xs)
  have "0 \<le> sum_list xs" using Cons.prems by (auto intro: sum_list_nonneg)
  then show ?case using Cons.prems Cons.IH [of "n + x"] by (auto simp: accumulate_def safe_add_adds add.assoc)
qed (simp add: accumulate_def)

lemma vote_weight_adds:
  assumes "account_books a"
  shows "adds (only Votes (vsf a))
    (\<lambda>t. rbind (if acc_proxy a = freezone_PROXY_TO_SELF_ACCOUNT then witness_vote_weight a
                else Inr (acc_proxied_vsf_votes a ! (freezone_MAX_PROXY_RECURSION_DEPTH - 1))) (\<lambda>v. add_votes v t))"
proof -
  have last: "acc_proxied_vsf_votes a ! (freezone_MAX_PROXY_RECURSION_DEPTH - 1) \<in> set (acc_proxied_vsf_votes a)"
    using assms by (simp add: account_books_def freezone_MAX_PROXY_RECURSION_DEPTH_def)
  have sum: "0 \<le> sum_list (acc_proxied_vsf_votes a)" using assms by (auto simp: account_books_def intro: sum_list_nonneg)
  have w: "witness_vote_weight a = (if weight a \<le> i64_max then Inr (weight a) else Inl Overflow_exception)"
    using assms accumulate_adds by (auto simp: account_books_def holds_def witness_vote_weight_def weight_def)
  have throws: "adds (only Votes x) (\<lambda>t. Inl e)" if "i64_max < x" for x e
    using that by (auto simp: adds_def only_def totals_ok_def all_parts)
  have nonneg: "0 \<le> weight a" using assms sum by (simp add: weight_def account_books_def holds_def)
  show ?thesis using adds_votes throws w last nonneg assms
    by (cases "acc_proxy a = freezone_PROXY_TO_SELF_ACCOUNT"; cases "weight a \<le> i64_max") (auto simp: vsf_def account_books_def)
qed

lemma audit_account_adds: "account_books a \<Longrightarrow> adds (\<lambda>p. account_part p a) (audit_account a)"
  unfolding audit_account_def
  by (rule adds_cong, (rule adds_bind, rule adds_holds, simp add: account_books_def)+, erule vote_weight_adds)
    (rename_tac p, case_tac p; simp add: only_def)

lemma asset_part_split:
  "holds freezone_SYMBOL x \<Longrightarrow> asset_part p x = only Supply (amount x) p"
  "holds SBD_SYMBOL x \<Longrightarrow> asset_part p x = only Sbd (amount x) p"
  by (cases p; simp add: holds_def only_def amt_def)+

lemma audit_by_symbol_adds: "dollar_or_native x \<Longrightarrow> adds (\<lambda>p. asset_part p x) (audit_by_symbol msg x)"
  unfolding dollar_or_native_def
proof (elim disjE)
  assume x: "holds freezone_SYMBOL x"
  then have "audit_by_symbol msg x = add_supply x" by (rule_tac ext) (simp add: audit_by_symbol_def holds_def)
  then show ?thesis using adds_holds(1) [OF x] by (simp add: asset_part_split(1) [OF x])
next
  assume x: "holds SBD_SYMBOL x"
  then have "audit_by_symbol msg x = add_sbd x" by (rule_tac ext) (simp add: audit_by_symbol_def holds_def)
  then show ?thesis using adds_holds(2) [OF x] by (simp add: asset_part_split(2) [OF x])
qed

lemma add_supply_part: "holds freezone_SYMBOL x \<Longrightarrow> adds (\<lambda>p. asset_part p x) (add_supply x)"
  using adds_holds(1) by (simp add: asset_part_split)

lemma add_sbd_part: "holds SBD_SYMBOL x \<Longrightarrow> adds (\<lambda>p. asset_part p x) (add_sbd x)"
  using adds_holds(2) by (simp add: asset_part_split)

lemma asset_part_other: "symbol x \<noteq> freezone_SYMBOL \<Longrightarrow> symbol x \<noteq> SBD_SYMBOL \<Longrightarrow> asset_part p x = 0"
  by (cases p) (simp_all add: amt_def)

lemma audit_order_adds:
  assumes "0 \<le> lo_for_sale lo" "lo_for_sale lo \<le> i64_max"
  shows "adds (\<lambda>p. asset_part p (amount_for_sale lo)) (audit_order lo)"
proof -
  let ?s = "symbol (base (lo_sell_price lo))"
  consider "?s = freezone_SYMBOL" | "?s = SBD_SYMBOL" | "?s \<noteq> freezone_SYMBOL" "?s \<noteq> SBD_SYMBOL" by blast
  then show ?thesis
  proof cases
    case 1
    then have "audit_order lo = add_supply (amount_for_sale lo)" by (rule_tac ext) (simp add: audit_order_def amount_for_sale_def)
    then show ?thesis using add_supply_part [of "amount_for_sale lo"] 1 assms by (simp add: holds_def amount_for_sale_def)
  next
    case 2
    then have "audit_order lo = add_sbd (amount_for_sale lo)" by (rule_tac ext) (simp add: audit_order_def amount_for_sale_def)
    then show ?thesis using add_sbd_part [of "amount_for_sale lo"] 2 assms by (simp add: holds_def amount_for_sale_def)
  next
    case 3
    then have "audit_order lo = Inr" by (rule_tac ext) (simp add: audit_order_def)
    then show ?thesis using adds_none 3 by (simp add: asset_part_other amount_for_sale_def)
  qed
qed

definition escrow_books :: "escrow_object \<Rightarrow> bool" where
  "escrow_books e \<longleftrightarrow> holds freezone_SYMBOL (esc_freezone_balance e) \<and> holds SBD_SYMBOL (esc_sbd_balance e) \<and> dollar_or_native (esc_pending_fee e)"

definition escrow_part :: "part \<Rightarrow> escrow_object \<Rightarrow> int" where
  "escrow_part p e = asset_part p (esc_freezone_balance e) + (asset_part p (esc_sbd_balance e) + asset_part p (esc_pending_fee e))"

lemma audit_escrow_adds: "escrow_books e \<Longrightarrow> adds (\<lambda>p. escrow_part p e) (audit_escrow e)"
  unfolding audit_escrow_def escrow_part_def escrow_books_def
  by (intro adds_bind add_supply_part add_sbd_part audit_by_symbol_adds) auto

text \<open>What an initial offering still owes, as the audit reads it.\<close>

definition ico_due :: "database \<Rightarrow> SST_ico_object \<Rightarrow> int" where
  "ico_due db i =
     (case find_row tok_liquid_symbol (ico_symbol i) (SST_tokens db) of
        None \<Rightarrow> 0
      | Some t \<Rightarrow> if phase_le_launch_failed (tok_phase t) then amount (ico_contributed i) - ico_processed_contributions i
                  else amount (ico_contributed i))"

definition ico_books :: "database \<Rightarrow> SST_ico_object \<Rightarrow> bool" where
  "ico_books db i \<longleftrightarrow>
     find_row tok_liquid_symbol (ico_symbol i) (SST_tokens db) \<noteq> None \<and>
     0 \<le> ico_processed_contributions i \<and> ico_processed_contributions i \<le> amount (ico_contributed i) \<and>
     amount (ico_contributed i) \<le> i64_max"

definition ico_part :: "database \<Rightarrow> part \<Rightarrow> SST_ico_object \<Rightarrow> int" where
  "ico_part db p i = asset_part p (mk_asset (ico_due db i) freezone_SYMBOL)"

lemma audit_ico_adds:
  assumes "ico_books db i"
  shows "adds (\<lambda>p. ico_part db p i) (audit_ico db i)"
proof -
  obtain t where t: "find_row tok_liquid_symbol (ico_symbol i) (SST_tokens db) = Some t"
    using assms by (auto simp: ico_books_def)
  have range: "0 \<le> ico_due db i" "ico_due db i \<le> i64_max" using assms t by (auto simp: ico_books_def ico_due_def)
  have "safe_sub (amount (ico_contributed i)) (ico_processed_contributions i) = Inr (amount (ico_contributed i) - ico_processed_contributions i)"
    using assms by (simp add: ico_books_def safe_sub_def)
  then have "audit_ico db i = add_supply (mk_asset (ico_due db i) freezone_SYMBOL)"
    using t by (rule_tac ext) (simp add: audit_ico_def ico_due_def get_token_def get_row_def)
  then show ?thesis using add_supply_part range by (simp add: ico_part_def holds_def)
qed

section \<open>The books\<close>

text \<open>
  The states the audit is meant for: every field has the symbol of its name and is not negative, every smart token
  has symbols of its own, and the counters are representable.
\<close>

definition is_native :: "asset_symbol_type \<Rightarrow> bool" where
  "is_native s \<longleftrightarrow> s = freezone_SYMBOL \<or> s = SBD_SYMBOL \<or> s = VESTS_SYMBOL"

definition token_books :: "SST_token_object \<Rightarrow> bool" where
  "token_books t \<longleftrightarrow>
     holds freezone_SYMBOL (mm_freezone_balance (tok_market_maker t)) \<and> \<not> is_native (symbol (mm_token_balance (tok_market_maker t))) \<and>
     \<not> is_native (symbol (tok_reward_balance t)) \<and> \<not> is_native (tok_liquid_symbol t) \<and>
     \<not> is_native (get_paired_symbol (tok_liquid_symbol t))"

definition gpo_books :: "dynamic_global_property_object \<Rightarrow> bool" where
  "gpo_books g \<longleftrightarrow>
     holds freezone_SYMBOL (gp_total_vesting_fund_freezone g) \<and> holds freezone_SYMBOL (gp_total_reward_fund_freezone g) \<and>
     holds freezone_SYMBOL (gp_pending_rewarded_vesting_freezone g) \<and> holds freezone_SYMBOL (gp_current_supply g) \<and>
     holds SBD_SYMBOL (gp_current_sbd_supply g) \<and> holds SBD_SYMBOL (gp_init_sbd_supply g) \<and>
     amount (gp_current_sbd_supply g) + amount (gp_init_sbd_supply g) \<le> i64_max \<and>
     holds VESTS_SYMBOL (gp_total_vesting_shares g) \<and> holds VESTS_SYMBOL (gp_pending_rewarded_vesting_shares g) \<and>
     amount (gp_total_vesting_shares g) + amount (gp_pending_rewarded_vesting_shares g) \<le> i64_max"

definition books_ok :: "database \<Rightarrow> bool" where
  "books_ok db \<longleftrightarrow>
     list_all account_books (accounts db) \<and> list_all (\<lambda>c. dollar_or_native (cr_amount c)) (convert_requests db) \<and>
     list_all (\<lambda>lo. 0 \<le> lo_for_sale lo \<and> lo_for_sale lo \<le> i64_max \<and> symbol (base (lo_sell_price lo)) \<noteq> VESTS_SYMBOL) (limit_orders db) \<and>
     list_all escrow_books (escrows db) \<and> list_all (\<lambda>w. dollar_or_native (sw_amount w)) (savings_withdraws db) \<and>
     list_all (\<lambda>r. holds freezone_SYMBOL (rf_reward_balance r)) (reward_funds db) \<and>
     list_all (ico_books db) (SST_icos db) \<and> list_all token_books (SST_tokens db) \<and>
     list_all (\<lambda>b. \<not> is_native (symbol (arb_liquid b)) \<and> \<not> is_native (symbol (arb_vesting_shares b))) (regular_balances db) \<and>
     list_all (\<lambda>b. \<not> is_native (symbol (arw_pending_liquid b)) \<and> \<not> is_native (symbol (arw_pending_vesting_shares b))) (rewards_balances db) \<and>
     gpo_books (dgpo db)"

definition objects_part :: "part \<Rightarrow> database \<Rightarrow> int" where
  "objects_part p db =
     sum_rows (account_part p) (accounts db) +
     (sum_rows (\<lambda>c. asset_part p (cr_amount c)) (convert_requests db) +
     (sum_rows (\<lambda>lo. asset_part p (amount_for_sale lo)) (limit_orders db) +
     (sum_rows (escrow_part p) (escrows db) +
     (sum_rows (\<lambda>w. asset_part p (sw_amount w)) (savings_withdraws db) +
     (sum_rows (\<lambda>r. asset_part p (rf_reward_balance r)) (reward_funds db) +
     (sum_rows (ico_part db p) (SST_icos db) +
      sum_rows (\<lambda>t. asset_part p (mm_freezone_balance (tok_market_maker t))) (SST_tokens db)))))))"

lemma audit_objects_adds:
  assumes "books_ok db"
  shows "if \<forall>p. objects_part p db \<le> i64_max
    then \<exists>t. audit_objects db = Inr t \<and> totals_ok t \<and> (\<forall>p. reading p t = objects_part p db)
    else \<exists>e. audit_objects db = Inl e"
proof -
  define zero where "zero = \<lparr>aud_supply = mk_asset 0 freezone_SYMBOL, aud_sbd = mk_asset 0 SBD_SYMBOL,
    aud_vesting = mk_asset 0 VESTS_SYMBOL, aud_pending = mk_asset 0 freezone_SYMBOL, aud_votes = 0\<rparr>"
  define walk where "walk = (\<lambda>t. rbind (rfold audit_account (sort_key acc_name (accounts db)) t) (\<lambda>t1.
     rbind (rfold (\<lambda>c. audit_by_symbol ''Encountered illegal symbol in convert_request_object'' (cr_amount c)) (convert_requests db) t1) (\<lambda>t2.
     rbind (rfold audit_order (limit_orders db) t2) (\<lambda>t3.
     rbind (rfold audit_escrow (escrows db) t3) (\<lambda>t4.
     rbind (rfold (\<lambda>w. audit_by_symbol ''found savings withdraw that is not SBD or freezone'' (sw_amount w)) (savings_withdraws db) t4) (\<lambda>t5.
     rbind (rfold (\<lambda>r. add_supply (rf_reward_balance r)) (reward_funds db) t5) (\<lambda>t6.
     rbind (rfold (audit_ico db) (SST_icos db) t6) (\<lambda>t7.
     rfold (\<lambda>t. add_supply (mm_freezone_balance (tok_market_maker t))) (SST_tokens db) t7))))))))"
  have sorted: "sum_rows (account_part p) (accounts db) = sum_rows (account_part p) (sort_key acc_name (accounts db))" for p
    by (simp add: sum_rows_def sum_list_sort_key)
  have "adds (\<lambda>p. objects_part p db) walk"
    unfolding walk_def objects_part_def sorted
    by (intro adds_bind adds_fold audit_account_adds audit_by_symbol_adds audit_order_adds audit_escrow_adds
        add_supply_part audit_ico_adds)
      (use assms in \<open>auto simp: books_ok_def list_all_iff token_books_def\<close>)
  moreover have "totals_ok zero" by (simp add: totals_ok_def zero_def all_parts)
  moreover have "reading p zero = 0" for p by (cases p) (simp_all add: zero_def)
  moreover have "audit_objects db = walk zero" by (simp add: audit_objects_def walk_def zero_def)
  ultimately show ?thesis using adds_returns [of _ walk zero] adds_throws [of _ walk zero] by auto
qed

lemma amt_holds: "holds s x \<Longrightarrow> amt s' x = (if s' = s then amount x else 0)"
  by (auto simp: holds_def amt_def)

text \<open>The readings are what the objects hold of the native symbols.\<close>

fun part_symbol :: "part \<Rightarrow> asset_symbol_type" where
  "part_symbol Supply = freezone_SYMBOL"
| "part_symbol Sbd = SBD_SYMBOL"
| "part_symbol Shares = VESTS_SYMBOL"
| "part_symbol _ = freezone_SYMBOL"

lemma native_part: "is_native (part_symbol p)"
  by (cases p) (simp_all add: is_native_def)

lemma asset_part_amt:
  "p \<in> {Supply, Sbd, Shares} \<Longrightarrow> symbol x \<noteq> VESTS_SYMBOL \<Longrightarrow> amt (part_symbol p) x = asset_part p x"
  by (auto simp: amt_def)

lemma dollar_or_native_symbol: "dollar_or_native x \<Longrightarrow> symbol x \<noteq> VESTS_SYMBOL"
  by (auto simp: dollar_or_native_def holds_def)

lemma account_part_held: "p \<in> {Supply, Sbd, Shares} \<Longrightarrow> account_books a \<Longrightarrow> account_held (part_symbol p) a = account_part p a"
  by (auto simp: account_books_def account_held_def amt_holds)

lemma escrow_part_held: "p \<in> {Supply, Sbd, Shares} \<Longrightarrow> escrow_books e \<Longrightarrow> escrow_held (part_symbol p) e = escrow_part p e"
  by (simp add: escrow_held_def escrow_part_def escrow_books_def asset_part_amt dollar_or_native_symbol holds_def)

lemma ico_part_held: "p \<in> {Supply, Sbd, Shares} \<Longrightarrow> ico_held (SST_tokens db) (part_symbol p) i = ico_part db p i"
  by (auto simp: ico_held_def ico_part_def ico_due_def split: option.splits)

lemma amt_native: "\<not> is_native (symbol x) \<Longrightarrow> amt (part_symbol p) x = 0"
  using native_part by (metis amt_def)

lemma token_part_held:
  "p \<in> {Supply, Sbd, Shares} \<Longrightarrow> token_books t \<Longrightarrow> token_held (part_symbol p) t = asset_part p (mm_freezone_balance (tok_market_maker t))"
  using amt_native [of "mk_asset x (tok_liquid_symbol t)" p for x] by (simp add: token_held_def token_books_def amt_native asset_part_amt holds_def del: amt_mk_asset)

lemma token_part_issued: "token_books t \<Longrightarrow> token_issued (part_symbol p) t = 0"
  using amt_native [of "mk_asset x (tok_liquid_symbol t)" p for x] amt_native [of "mk_asset x (get_paired_symbol (tok_liquid_symbol t))" p for x]
  by (simp add: token_issued_def token_books_def del: amt_mk_asset)

lemma sum_rows_zero: "(\<And>v. v \<in> set vs \<Longrightarrow> f v = 0) \<Longrightarrow> sum_rows f vs = 0"
  by (induction vs) auto

lemma held_part:
  assumes b: "books_ok db" and p: "p \<in> {Supply, Sbd, Shares}"
  shows "held (part_symbol p) db = objects_part p db + gp_held (part_symbol p) (dgpo db)"
proof -
  note b' = b [unfolded books_ok_def list_all_iff]
  have "sum_rows (account_held (part_symbol p)) (accounts db) = sum_rows (account_part p) (accounts db)"
    by (rule sum_rows_cong) (rule account_part_held [OF p], use b' in simp)
  moreover have "sum_rows (\<lambda>c. amt (part_symbol p) (cr_amount c)) (convert_requests db) = sum_rows (\<lambda>c. asset_part p (cr_amount c)) (convert_requests db)"
    by (rule sum_rows_cong) (rule asset_part_amt [OF p], rule dollar_or_native_symbol, use b' in simp)
  moreover have "sum_rows (\<lambda>lo. amt (part_symbol p) (amount_for_sale lo)) (limit_orders db) = sum_rows (\<lambda>lo. asset_part p (amount_for_sale lo)) (limit_orders db)"
    by (rule sum_rows_cong, rule asset_part_amt [OF p]) (use b' in \<open>simp add: amount_for_sale_def\<close>)
  moreover have "sum_rows (escrow_held (part_symbol p)) (escrows db) = sum_rows (escrow_part p) (escrows db)"
    by (rule sum_rows_cong) (rule escrow_part_held [OF p], use b' in simp)
  moreover have "sum_rows (\<lambda>w. amt (part_symbol p) (sw_amount w)) (savings_withdraws db) = sum_rows (\<lambda>w. asset_part p (sw_amount w)) (savings_withdraws db)"
    by (rule sum_rows_cong) (rule asset_part_amt [OF p], rule dollar_or_native_symbol, use b' in simp)
  moreover have "sum_rows (\<lambda>r. amt (part_symbol p) (rf_reward_balance r)) (reward_funds db) = sum_rows (\<lambda>r. asset_part p (rf_reward_balance r)) (reward_funds db)"
    by (rule sum_rows_cong, rule asset_part_amt [OF p]) (use b' in \<open>auto simp: holds_def\<close>)
  moreover have "sum_rows (ico_held (SST_tokens db) (part_symbol p)) (SST_icos db) = sum_rows (ico_part db p) (SST_icos db)"
    by (rule sum_rows_cong, rule ico_part_held [OF p])
  moreover have "sum_rows (token_held (part_symbol p)) (SST_tokens db) = sum_rows (\<lambda>t. asset_part p (mm_freezone_balance (tok_market_maker t))) (SST_tokens db)"
    by (rule sum_rows_cong) (rule token_part_held [OF p], use b' in simp)
  moreover have "sum_rows (arb_held (part_symbol p)) (regular_balances db) = 0"
    by (rule sum_rows_zero) (use b' in \<open>simp add: arb_held_def amt_native\<close>)
  moreover have "sum_rows (arw_held (part_symbol p)) (rewards_balances db) = 0"
    by (rule sum_rows_zero) (use b' in \<open>simp add: arw_held_def amt_native\<close>)
  ultimately show ?thesis unfolding held_def objects_part_def by linarith
qed

lemma issued_part: "books_ok db \<Longrightarrow> issued (part_symbol p) db = gp_issued (part_symbol p) (dgpo db)"
  unfolding issued_def by (subst sum_rows_zero) (auto simp: books_ok_def list_all_iff token_part_issued)

lemma votes_part: "vsf_total db = objects_part Votes db"
  and pending_part: "sum_rows (\<lambda>a. amount (acc_reward_vesting_freezone a)) (accounts db) = objects_part Pending db"
proof -
  have zero: "sum_rows (\<lambda>_. 0) vs = 0" for vs :: "'a list" by (simp add: sum_rows_zero)
  have fns: "escrow_part Votes = (\<lambda>_. 0)" "escrow_part Pending = (\<lambda>_. 0)" "ico_part db Votes = (\<lambda>_. 0)"
    "ico_part db Pending = (\<lambda>_. 0)" "account_part Votes = vsf" "account_part Pending = (\<lambda>a. amount (acc_reward_vesting_freezone a))"
    by (auto simp: escrow_part_def ico_part_def)
  show "vsf_total db = objects_part Votes db"
    by (simp add: vsf_total_def objects_part_def fns sum_rows_zero)
  show "sum_rows (\<lambda>a. amount (acc_reward_vesting_freezone a)) (accounts db) = objects_part Pending db"
    by (simp add: objects_part_def fns sum_rows_zero)
qed

section \<open>The audit is exact\<close>

definition counters_agree :: "database \<Rightarrow> bool" where
  "counters_agree db \<longleftrightarrow>
     amount (gp_current_supply (dgpo db)) = objects_part Supply db + (amount (gp_total_vesting_fund_freezone (dgpo db)) +
       amount (gp_total_reward_fund_freezone (dgpo db)) + amount (gp_pending_rewarded_vesting_freezone (dgpo db))) \<and>
     amount (gp_current_sbd_supply (dgpo db)) + amount (gp_init_sbd_supply (dgpo db)) = objects_part Sbd db \<and>
     amount (gp_total_vesting_shares (dgpo db)) + amount (gp_pending_rewarded_vesting_shares (dgpo db)) = objects_part Shares db \<and>
     amount (gp_total_vesting_shares (dgpo db)) = objects_part Votes db \<and>
     amount (gp_pending_rewarded_vesting_freezone (dgpo db)) = objects_part Pending db"

lemma counters_agree_surplus:
  assumes "books_ok db"
  shows "counters_agree db \<longleftrightarrow>
    surplus freezone_SYMBOL db = 0 \<and> surplus SBD_SYMBOL db = 0 \<and> surplus VESTS_SYMBOL db = 0 \<and> vsf_surplus db = 0 \<and>
    sum_rows (\<lambda>a. amount (acc_reward_vesting_freezone a)) (accounts db) = amount (gp_pending_rewarded_vesting_freezone (dgpo db))"
proof -
  have g: "gpo_books (dgpo db)" using assms by (simp add: books_ok_def)
  then have gp: "gp_held freezone_SYMBOL (dgpo db) = amount (gp_total_vesting_fund_freezone (dgpo db)) +
       amount (gp_total_reward_fund_freezone (dgpo db)) + amount (gp_pending_rewarded_vesting_freezone (dgpo db))"
    "gp_held SBD_SYMBOL (dgpo db) = 0" "gp_held VESTS_SYMBOL (dgpo db) = 0"
    "gp_issued freezone_SYMBOL (dgpo db) = amount (gp_current_supply (dgpo db))"
    "gp_issued SBD_SYMBOL (dgpo db) = amount (gp_current_sbd_supply (dgpo db)) + amount (gp_init_sbd_supply (dgpo db))"
    "gp_issued VESTS_SYMBOL (dgpo db) = amount (gp_total_vesting_shares (dgpo db)) + amount (gp_pending_rewarded_vesting_shares (dgpo db))"
    by (simp_all add: gp_held_def gp_issued_def gpo_books_def amt_def holds_def)
  show ?thesis
    using held_part [OF assms, of Supply] held_part [OF assms, of Sbd] held_part [OF assms, of Shares]
      issued_part [OF assms, of Supply] issued_part [OF assms, of Sbd] issued_part [OF assms, of Shares]
    by (simp add: surplus_def vsf_surplus_def counters_agree_def gp pending_part votes_part) linarith
qed

lemma asset_add_books:
  "holds s x \<Longrightarrow> holds s y \<Longrightarrow> asset_add x y = (if amount x + amount y \<le> i64_max then Inr (mk_asset (amount x + amount y) s) else Inl Overflow_exception)"
  by (simp add: asset_add_def holds_def safe_add_adds fc_assert_def)

lemma asset_eq_iff: "a = mk_asset n s \<longleftrightarrow> amount a = n \<and> symbol a = s"
  by (cases a) (auto simp: mk_asset_def)

lemma add_funds_books:
  assumes "gpo_books g" "totals_ok t"
  shows "rbind (asset_add (gp_total_vesting_fund_freezone g) (gp_total_reward_fund_freezone g)) (\<lambda>f.
      rbind (asset_add f (gp_pending_rewarded_vesting_freezone g)) (\<lambda>funds. rbind (add_supply funds t) k)) =
    (let x = reading Supply t + (amount (gp_total_vesting_fund_freezone g) + amount (gp_total_reward_fund_freezone g) +
        amount (gp_pending_rewarded_vesting_freezone g))
     in if x \<le> i64_max then k (t\<lparr>aud_supply := mk_asset x freezone_SYMBOL\<rparr>) else Inl Overflow_exception)"
proof -
  let ?a = "gp_total_vesting_fund_freezone g" and ?b = "gp_total_reward_fund_freezone g" and ?c = "gp_pending_rewarded_vesting_freezone g"
  have h: "holds freezone_SYMBOL ?a" "holds freezone_SYMBOL ?b" "holds freezone_SYMBOL ?c" "holds freezone_SYMBOL (aud_supply t)"
    using assms by (auto simp: gpo_books_def totals_ok_def all_parts holds_def)
  have ab: "amount ?a + amount ?b \<le> i64_max \<Longrightarrow> holds freezone_SYMBOL (mk_asset (amount ?a + amount ?b) freezone_SYMBOL)"
    and abc: "amount ?a + amount ?b + amount ?c \<le> i64_max \<Longrightarrow> holds freezone_SYMBOL (mk_asset (amount ?a + amount ?b + amount ?c) freezone_SYMBOL)"
    using h by (simp_all add: holds_def)
  have n: "0 \<le> amount ?c" "0 \<le> amount (aud_supply t)" using h by (simp_all add: holds_def)
  show ?thesis using n
    by (auto simp: asset_add_books [OF h(1,2)] asset_add_books [OF ab h(3)] asset_add_books [OF h(4) abc] add_supply_def Let_def)
qed

lemma validate_invariants_counters:
  assumes "books_ok db"
  shows "validate_invariants db = Inr () \<longleftrightarrow>
    counters_agree db \<and> list_all (\<lambda>w. wit_votes w \<le> amount (gp_total_vesting_shares (dgpo db))) (witnesses db) \<and>
    check_virtual_supply db = Inr () \<and> gp_target_votes_per_period (dgpo db) * word_of_int freezone_VOTING_MANA_REGENERATION_SECONDS > 0"
proof (cases "\<forall>p. objects_part p db \<le> i64_max")
  case True
  then obtain t where t: "audit_objects db = Inr t" "totals_ok t" and r: "\<And>p. reading p t = objects_part p db"
    using audit_objects_adds [OF assms] by auto
  have g: "gpo_books (dgpo db)" using assms by (simp add: books_ok_def)
  have s: "0 \<le> objects_part Supply db" "symbol (aud_supply t) = freezone_SYMBOL" "symbol (aud_sbd t) = SBD_SYMBOL"
    "symbol (aud_vesting t) = VESTS_SYMBOL" "symbol (aud_pending t) = freezone_SYMBOL"
    using t(2) r by (auto simp: totals_ok_def all_parts)
  have h: "holds SBD_SYMBOL (gp_current_sbd_supply (dgpo db))" "holds SBD_SYMBOL (gp_init_sbd_supply (dgpo db))"
    "holds VESTS_SYMBOL (gp_total_vesting_shares (dgpo db))" "holds VESTS_SYMBOL (gp_pending_rewarded_vesting_shares (dgpo db))"
    using g by (simp_all add: gpo_books_def)
  have range: "amount (gp_current_supply (dgpo db)) \<le> i64_max"
    "amount (gp_current_sbd_supply (dgpo db)) + amount (gp_init_sbd_supply (dgpo db)) \<le> i64_max"
    "amount (gp_total_vesting_shares (dgpo db)) + amount (gp_pending_rewarded_vesting_shares (dgpo db)) \<le> i64_max"
    "symbol (gp_current_supply (dgpo db)) = freezone_SYMBOL" "symbol (gp_pending_rewarded_vesting_freezone (dgpo db)) = freezone_SYMBOL"
    using g by (simp_all add: gpo_books_def holds_def)
  have eqs: "mk_asset n SBD_SYMBOL = aud_sbd t \<longleftrightarrow> n = objects_part Sbd db" "mk_asset n VESTS_SYMBOL = aud_vesting t \<longleftrightarrow> n = objects_part Shares db"
    "gp_pending_rewarded_vesting_freezone (dgpo db) = aud_pending t \<longleftrightarrow> amount (gp_pending_rewarded_vesting_freezone (dgpo db)) = objects_part Pending db" for n
    using r [of Sbd] r [of Shares] r [of Pending] s range by (auto simp: eq_commute [of "mk_asset _ _"] asset_eq_iff intro: asset.equality)
  have votes: "aud_votes t = objects_part Votes db" using r [of Votes] by simp
  show ?thesis
    unfolding validate_invariants_def Let_def t(1) rbind_Inr add_funds_books [OF g t(2)]
      asset_add_books [OF h(1,2)] asset_add_books [OF h(3,4)]
    using range by (auto simp: fc_assert_eq_Inr rbind_eq_Inr asset_eq_iff eqs r votes counters_agree_def)
next
  case False
  then obtain e where "audit_objects db = Inl e" using audit_objects_adds [OF assms] by (simp only: if_False) blast
  then have "validate_invariants db \<noteq> Inr ()" by (auto simp: validate_invariants_def Let_def res_simps)
  moreover have "\<not> counters_agree db"
  proof
    assume "counters_agree db"
    then have "objects_part p db \<le> i64_max" for p
      using assms by (cases p) (simp_all add: counters_agree_def books_ok_def gpo_books_def holds_def)
    then show False using False by blast
  qed
  ultimately show ?thesis by blast
qed

text \<open>
  C29: on a state whose fields are typed and not negative the audit passes exactly if no native symbol has a surplus or a
  deficit, the votes are the vesting shares, the rewards waiting to be claimed are the pending fund, and the three
  checks on single counters hold.  In particular it never throws by overflow on a sound state.
\<close>

theorem audit_exact:
  assumes "books_ok db"
  shows "validate_invariants db = Inr () \<longleftrightarrow>
    surplus freezone_SYMBOL db = 0 \<and> surplus SBD_SYMBOL db = 0 \<and> surplus VESTS_SYMBOL db = 0 \<and> vsf_surplus db = 0 \<and>
    sum_rows (\<lambda>a. amount (acc_reward_vesting_freezone a)) (accounts db) = amount (gp_pending_rewarded_vesting_freezone (dgpo db)) \<and>
    list_all (\<lambda>w. wit_votes w \<le> amount (gp_total_vesting_shares (dgpo db))) (witnesses db) \<and>
    check_virtual_supply db = Inr () \<and>
    gp_target_votes_per_period (dgpo db) * word_of_int freezone_VOTING_MANA_REGENERATION_SECONDS > 0"
  unfolding validate_invariants_counters [OF assms] counters_agree_surplus [OF assms] by blast

text \<open>A state whose supply is what its two accounts hold.\<close>

definition sample_audit_db :: database where
  "sample_audit_db = sample_db\<lparr>dgpo := (dgpo sample_db)\<lparr>gp_current_supply := mk_asset 5010 freezone_SYMBOL,
     gp_virtual_supply := mk_asset 5010 freezone_SYMBOL\<rparr>\<rparr>"

theorem audit_exact_witness:
  "books_ok sample_audit_db \<and> validate_invariants sample_audit_db = Inr ()"
proof -
  note sample = sample_audit_db_def sample_db_def sample_account_def empty_database_def account_object_default_def
    dynamic_global_property_object_default_def
  have b: "books_ok sample_audit_db"
    by (simp add: sample books_ok_def account_books_def gpo_books_def holds_def freezone_MAX_PROXY_RECURSION_DEPTH_def)
  have s: "surplus freezone_SYMBOL sample_audit_db = 0" "surplus SBD_SYMBOL sample_audit_db = 0" "surplus VESTS_SYMBOL sample_audit_db = 0"
    by (simp_all add: sample surplus_def held_def issued_def account_held_def gp_held_def gp_issued_def)
  have v: "vsf_surplus sample_audit_db = 0"
    by (simp add: sample vsf_surplus_def vsf_total_def vsf_def weight_def freezone_PROXY_TO_SELF_ACCOUNT_def)
  have c: "check_virtual_supply sample_audit_db = Inr ()"
    by (simp add: sample check_virtual_supply_def asset_ge_def current_median_history_def price_is_null_def price_eq_def same_bq_def)
  have r: "sum_rows (\<lambda>a. amount (acc_reward_vesting_freezone a)) (accounts sample_audit_db) = amount (gp_pending_rewarded_vesting_freezone (dgpo sample_audit_db))"
    "list_all (\<lambda>w. wit_votes w \<le> amount (gp_total_vesting_shares (dgpo sample_audit_db))) (witnesses sample_audit_db)"
    "0 < gp_target_votes_per_period (dgpo sample_audit_db) * word_of_int freezone_VOTING_MANA_REGENERATION_SECONDS"
    by (simp_all add: sample freezone_VOTING_MANA_REGENERATION_SECONDS_def)
  show ?thesis using b audit_exact [OF b] s v c r by blast
qed

end
