(* ===== verification/Rewards_State.thy ===== *)
theory Rewards_State
  imports Rewards Supply_Audit Vesting_State
begin

text \<open>
  What the claims of rewards, the burning of the null account and the virtual supply do to the quantities of the audit.
\<close>

section \<open>Claims\<close>

text \<open>
  C30: a claim of rewards, by either operation, changes neither the surplus of any symbol nor the fund behind
  the unclaimed rewards nor the votes that the vesting shares do not account for.
\<close>

theorem reward_claims_conserve:
  assumes "claim_reward_balance_apply db o1 = Inr db' \<or> claim_reward_balance2_apply db o2 = Inr db'" "vote_state_ok db"
  shows "surplus s db' = surplus s db \<and> pending_gap db' = pending_gap db \<and> vote_state_ok db' \<and> vsf_surplus db' = vsf_surplus db"
  using assms claim_reward_balance_accounted claim_reward_balance2_accounted unfolding accounted_def by blast

definition sample_rewarded :: account_object where
  "sample_rewarded = sample_shareholder\<lparr>acc_reward_vesting_balance := mk_asset 26 VESTS_SYMBOL,
     acc_reward_vesting_freezone := mk_asset 20 freezone_SYMBOL\<rparr>"

definition sample_reward_db :: database where
  "sample_reward_db = sample_vesting_db\<lparr>accounts := [sample_rewarded], dgpo := sample_pool\<lparr>
     gp_pending_rewarded_vesting_shares := mk_asset 26 VESTS_SYMBOL, gp_pending_rewarded_vesting_freezone := mk_asset 20 freezone_SYMBOL\<rparr>,
     processed_hardforks := 24\<rparr>"

definition sample_claim :: claim_reward_balance2_operation where
  "sample_claim = \<lparr>crb2_account = ''alice'', crb2_reward_tokens = [mk_asset 13 VESTS_SYMBOL]\<rparr>"

lemma sample_rewarded_fields [simp]:
  "acc_name sample_rewarded = ''alice''" "acc_vesting_shares sample_rewarded = mk_asset 1300 VESTS_SYMBOL" "acc_proxy sample_rewarded = ''''"
  "acc_proxied_vsf_votes sample_rewarded = [0, 0, 0, 0]" "acc_reward_vesting_balance sample_rewarded = mk_asset 26 VESTS_SYMBOL"
  "acc_reward_vesting_freezone sample_rewarded = mk_asset 20 freezone_SYMBOL"
  by (simp_all add: sample_rewarded_def)

lemma sample_reward_ok: "vote_state_ok sample_reward_db"
proof -
  have "proxies sample_reward_db = {}" by (auto simp: sample_reward_db_def proxies_def split: if_splits)
  then show ?thesis
    by (simp add: vote_state_ok_def acyclic_def votes_ok_def voters_ok_def freezone_MAX_PROXY_RECURSION_DEPTH_def sample_reward_db_def)
qed

lemma sample_claim_succeeds: "\<exists>db'. claim_reward_balance2_apply sample_reward_db sample_claim = Inr db'"
proof -
  let ?a = "sample_rewarded\<lparr>acc_vesting_shares := mk_asset 1313 VESTS_SYMBOL, acc_reward_vesting_balance := mk_asset 13 VESTS_SYMBOL,
    acc_reward_vesting_freezone := mk_asset 10 freezone_SYMBOL\<rparr>"
  have f: "accounts sample_reward_db = [sample_rewarded]" "witness_votes sample_reward_db = []" "has_hardfork sample_reward_db 23"
    "dgpo sample_reward_db = sample_pool\<lparr>gp_pending_rewarded_vesting_shares := mk_asset 26 VESTS_SYMBOL,
       gp_pending_rewarded_vesting_freezone := mk_asset 20 freezone_SYMBOL\<rparr>"
    by (simp_all add: sample_reward_db_def has_hardfork_def)
  have m: "reward_to_move freezone_SYMBOL (mk_asset 13 VESTS_SYMBOL) (mk_asset 26 VESTS_SYMBOL) (mk_asset 20 freezone_SYMBOL) = Inr (mk_asset 10 freezone_SYMBOL)"
    by (simp add: reward_to_move_def u128_div_def u128_of_i64_def to_uint64_def u128_hi_def i64_of_u64_def)
  have a: "claim_account_vests (mk_asset 13 VESTS_SYMBOL) (mk_asset 10 freezone_SYMBOL) sample_rewarded = Inr ?a"
    by (simp add: claim_account_vests_def asset_add_def asset_sub_def safe_add_def safe_sub_def)
  obtain g where g: "claim_pool_vests (mk_asset 13 VESTS_SYMBOL) (mk_asset 10 freezone_SYMBOL) (dgpo sample_reward_db) = Inr g"
    by (simp add: f claim_pool_vests_def asset_add_def asset_sub_def safe_add_def safe_sub_def)
  have v: "adjust_proxied_witness_votes ((set_account ?a sample_reward_db)\<lparr>dgpo := g\<rparr>) ''alice'' 13 0 = Inr ((set_account ?a sample_reward_db)\<lparr>dgpo := g\<rparr>)"
    using f by (simp add: adjust_proxied_witness_votes.simps get_account_def get_row_def freezone_PROXY_TO_SELF_ACCOUNT_def adjust_witness_votes_def
        set_account_def votes_of_def)
  have "claim_token ''alice'' (mk_asset 13 VESTS_SYMBOL) sample_reward_db = Inr ((set_account ?a sample_reward_db)\<lparr>dgpo := g\<rparr>)"
    using f m a g v by (simp add: claim_token_def claim_native_reward_def get_account_def get_row_def asset_le_def claim_vests_def)
  then show ?thesis using f by (simp add: claim_reward_balance2_apply_def sample_claim_def)
qed

theorem reward_claims_conserve_witness:
  "\<exists>db'. claim_reward_balance2_apply sample_reward_db sample_claim = Inr db' \<and> vote_state_ok db' \<and>
     pending_gap db' = pending_gap sample_reward_db \<and> surplus VESTS_SYMBOL db' = surplus VESTS_SYMBOL sample_reward_db"
proof -
  obtain db' where d: "claim_reward_balance2_apply sample_reward_db sample_claim = Inr db'" using sample_claim_succeeds ..
  show ?thesis using d reward_claims_conserve [OF disjI2, OF d sample_reward_ok, of VESTS_SYMBOL] by blast
qed

text \<open>
  C31: a claim that names the vesting symbol of a smart token is refused in every state, whatever the rewards of the
  account: the balance it is compared with is the one of the liquid symbol.
\<close>

theorem token_vesting_claim_refused:
  assumes "token \<in> set (crb2_reward_tokens o1)" "amount token \<noteq> 0" "space (symbol token) = SST_nai_space" "is_vesting (symbol token)"
  shows "\<exists>e. claim_reward_balance2_apply db o1 = Inl e"
proof -
  have t: "\<exists>e. claim_token n token d = Inl e" for n d using claim_SST_vesting_fails [OF assms(3,4)] assms(2,3) by (simp add: claim_token_def)
  have "\<exists>e. rfold (claim_token n) ts d = Inl e" if "token \<in> set ts" for n ts d
    using that
  proof (induction ts arbitrary: d)
    case (Cons x xs)
    then show ?case using t by (cases "claim_token n x d") (auto, metis Inl_Inr_False)
  qed simp
  then show ?thesis using assms(1) by (cases "has_hardfork db 23") (simp_all add: claim_reward_balance2_apply_def fc_assert_def)
qed

theorem token_vesting_claim_refused_witness:
  "\<exists>e. claim_reward_balance2_apply sample_reward_db \<lparr>crb2_account = ''alice'', crb2_reward_tokens = [mk_asset 5 0x36]\<rparr> = Inl e"
  by (rule token_vesting_claim_refused [where token = "mk_asset 5 0x36"]) (simp_all add: space_def is_vesting_def SST_ASSET_NUM_VESTING_MASK_def legacy_values)

section \<open>Burning\<close>


definition sample_null_db :: "account_object \<Rightarrow> dynamic_global_property_object \<Rightarrow> database" where
  "sample_null_db a g = sample_db\<lparr>accounts := [a], dgpo := g\<rparr>"

lemma sample_null_simps [simp]:
  "accounts (sample_null_db a g) = [a]" "dgpo (sample_null_db a g) = g" "has_hardfork (sample_null_db a g) n = (n < 23)"
  by (simp_all add: sample_null_db_def sample_db_def has_hardfork_def)

lemma sample_account_balances [simp]:
  "acc_savings_balance (sample_account n x) = mk_asset 0 freezone_SYMBOL" "acc_sbd_balance (sample_account n x) = mk_asset 0 SBD_SYMBOL"
  "acc_savings_sbd_balance (sample_account n x) = mk_asset 0 SBD_SYMBOL" "acc_vesting_shares (sample_account n x) = mk_asset 0 VESTS_SYMBOL"
  "acc_reward_freezone_balance (sample_account n x) = mk_asset 0 freezone_SYMBOL" "acc_reward_sbd_balance (sample_account n x) = mk_asset 0 SBD_SYMBOL"
  "acc_reward_vesting_balance (sample_account n x) = mk_asset 0 VESTS_SYMBOL"
  by (simp_all add: sample_account_def account_object_default_def)

lemma account_solvent_sample: "0 \<le> x \<Longrightarrow> account_solvent (sample_account n x)"
  by (simp add: account_solvent_def)


text \<open>
  C33: when the null account owns only vesting shares worth less than one unit, its shares are taken from the pool but
  the account keeps them: the shares held exceed the shares issued, by the same amount again after every block.
\<close>

theorem burn_dust_repeats:
  assumes "clear_null_account_balance db = Inr db'" "has_hardfork db 14" "find_row acc_name freezone_NULL_ACCOUNT (accounts db) = Some a"
    "account_solvent a" "null_totals (dgpo db) a = Inr (value, f, sb, t)" "amount f = 0" "amount sb = 0" "amount t \<noteq> 0"
    "amount (acc_reward_vesting_balance a) = 0" "symbol (acc_vesting_shares a) = VESTS_SYMBOL" "symbol value = freezone_SYMBOL"
  shows "accounts db' = accounts db \<and> surplus VESTS_SYMBOL db' = surplus VESTS_SYMBOL db + amount (acc_vesting_shares a)"
proof -
  have "amt VESTS_SYMBOL (acc_vesting_shares a) = amount (acc_vesting_shares a)" "amt VESTS_SYMBOL (acc_reward_vesting_balance a) = 0"
    "amt VESTS_SYMBOL value = 0" "null_fund VESTS_SYMBOL a = 0"
    using assms(9-11) by (simp_all add: amt_def null_fund_def)
  then show ?thesis using clear_null_dust(1) [OF assms(1-8)] clear_null_dust(2) [OF assms(1-8), of VESTS_SYMBOL] by simp
qed

definition sample_dust :: account_object where
  "sample_dust = (sample_account freezone_NULL_ACCOUNT 0)\<lparr>acc_vesting_shares := mk_asset 1 VESTS_SYMBOL\<rparr>"

theorem burn_dust_repeats_witness:
  "\<exists>db'. clear_null_account_balance (sample_null_db sample_dust sample_pool) = Inr db' \<and> accounts db' = [sample_dust] \<and>
     surplus VESTS_SYMBOL db' = surplus VESTS_SYMBOL (sample_null_db sample_dust sample_pool) + 1"
proof -
  let ?db = "sample_null_db sample_dust sample_pool"
  have f [simp]: "acc_vesting_shares sample_dust = mk_asset 1 VESTS_SYMBOL" "acc_name sample_dust = freezone_NULL_ACCOUNT"
    "acc_reward_vesting_balance sample_dust = mk_asset 0 VESTS_SYMBOL" "acc_balance sample_dust = mk_asset 0 freezone_SYMBOL"
    "acc_savings_balance sample_dust = mk_asset 0 freezone_SYMBOL" "acc_sbd_balance sample_dust = mk_asset 0 SBD_SYMBOL"
    "acc_savings_sbd_balance sample_dust = mk_asset 0 SBD_SYMBOL" "acc_reward_freezone_balance sample_dust = mk_asset 0 freezone_SYMBOL"
    "acc_reward_sbd_balance sample_dust = mk_asset 0 SBD_SYMBOL"
    by (simp_all add: sample_dust_def)
  have z: "asset_mul_price (mk_asset 1 VESTS_SYMBOL) \<lparr>base = mk_asset 1300 VESTS_SYMBOL, quote = mk_asset 1000 freezone_SYMBOL\<rparr> = Inr (mk_asset 0 freezone_SYMBOL)"
    by (simp add: asset_mul_price_def mul_div_amount_eq i64_of_u64_def)
  have t: "null_totals sample_pool sample_dust = Inr (mk_asset 0 freezone_SYMBOL, mk_asset 0 freezone_SYMBOL, mk_asset 0 SBD_SYMBOL, mk_asset 1 VESTS_SYMBOL)"
    using z sample_conversion(1) by (simp add: null_totals_def null_shares_def null_rewards_def add_positive_def asset_add_def safe_add_def)
  obtain g where p: "clear_null_shares sample_dust (mk_asset 0 freezone_SYMBOL) sample_pool = Inr g"
    by (simp add: clear_null_shares_def asset_sub_def safe_sub_def)
  have "\<exists>db'. clear_null_account_balance ?db = Inr db'"
    using t p by (simp add: clear_null_account_balance_def clear_null_rewards_def get_account_def get_row_def burn_def Let_def)
  then obtain db' where d: "clear_null_account_balance ?db = Inr db'" ..
  have s: "account_solvent sample_dust" by (simp add: account_solvent_def)
  show ?thesis using d burn_dust_repeats [OF d _ _ s, of "mk_asset 0 freezone_SYMBOL" "mk_asset 0 freezone_SYMBOL" "mk_asset 0 SBD_SYMBOL" "mk_asset 1 VESTS_SYMBOL"] t
    by simp
qed

section \<open>The virtual supply\<close>

definition debt_in_range :: "database \<Rightarrow> bool" where
  "debt_in_range db \<longleftrightarrow>
     (let p = current_median_history db; x = gp_current_sbd_supply (dgpo db) in
      price_is_null p \<or> price_ok p \<and> symbol (base p) = SBD_SYMBOL \<and> symbol (quote p) = freezone_SYMBOL \<and> symbol x = SBD_SYMBOL \<and>
        0 \<le> amount x \<and> amount x \<le> i64_max \<and> amount x * amount (quote p) div amount (base p) \<le> i64_max)"

lemma debt_value:
  assumes "debt_in_range db" "\<not> price_is_null (current_median_history db)"
  obtains n where "0 \<le> n" "n \<le> i64_max" "asset_mul_price (gp_current_sbd_supply (dgpo db)) (current_median_history db) = Inr (mk_asset n freezone_SYMBOL)"
proof -
  let ?p = "current_median_history db" and ?x = "gp_current_sbd_supply (dgpo db)"
  have h: "price_ok ?p" "symbol (base ?p) = SBD_SYMBOL" "symbol (quote ?p) = freezone_SYMBOL" "symbol ?x = SBD_SYMBOL"
    "0 \<le> amount ?x" "amount ?x \<le> i64_max" "amount ?x * amount (quote ?p) div amount (base ?p) \<le> i64_max"
    using assms by (auto simp: debt_in_range_def Let_def)
  then have "mul_div_amount (amount ?x) (amount (quote ?p)) (amount (base ?p)) = Inr (amount ?x * amount (quote ?p) div amount (base ?p))"
    by (intro mul_div_amount_floor) (auto simp: price_ok_def)
  then show thesis using h that [of "amount ?x * amount (quote ?p) div amount (base ?p)"]
    by (simp add: asset_mul_price_def price_ok_def pos_imp_zdiv_nonneg_iff)
qed

text \<open>
  C34: after the virtual supply has been updated the audit's checks on it pass, and the rate at which SBD is printed is at
  most 100 percent.
\<close>

theorem virtual_supply_audited:
  assumes "update_virtual_supply db = Inr db'" "debt_in_range db" "holds freezone_SYMBOL (gp_current_supply (dgpo db))"
    "uint (gp_sbd_print_rate (dgpo db)) \<le> freezone_100_PERCENT"
  shows "check_virtual_supply db' = Inr () \<and> uint (gp_sbd_print_rate (dgpo db')) \<le> freezone_100_PERCENT"
proof -
  let ?m = "current_median_history db" and ?g = "dgpo db"
  from assms(1) obtain debt vs rate where d: "(if price_is_null ?m then Inr (mk_asset 0 freezone_SYMBOL) else asset_mul_price (gp_current_sbd_supply ?g) ?m) = Inr debt"
      and v: "asset_add (gp_current_supply ?g) debt = Inr vs" and g: "db' = db\<lparr>dgpo := ?g\<lparr>gp_virtual_supply := vs, gp_sbd_print_rate := rate\<rparr>\<rparr>"
      and r: "rate = gp_sbd_print_rate ?g \<or> uint rate \<le> freezone_100_PERCENT"
    by (rule update_virtual_supply_effect)
  have m: "current_median_history (db\<lparr>dgpo := g'\<rparr>) = ?m" for g' by (simp add: current_median_history_def)
  have h: "holds freezone_SYMBOL debt"
  proof (cases "price_is_null ?m")
    case False
    obtain n where "0 \<le> n" "n \<le> i64_max" "asset_mul_price (gp_current_sbd_supply ?g) ?m = Inr (mk_asset n freezone_SYMBOL)"
      using debt_value [OF assms(2) False] by blast
    then have "debt = mk_asset n freezone_SYMBOL" using d False by simp
    then show ?thesis using \<open>0 \<le> n\<close> \<open>n \<le> i64_max\<close> by (simp add: holds_def)
  qed (use d in \<open>auto simp: holds_def\<close>)
  have vs: "asset_add debt (gp_current_supply ?g) = Inr vs"
    using v by (simp only: asset_add_books [OF assms(3) h] asset_add_books [OF h assms(3)] add.commute)
  have s: "symbol vs = freezone_SYMBOL" "amount vs = amount (gp_current_supply ?g) + amount debt"
    using asset_add_value [OF v] assms(3) by (simp_all add: holds_def)
  have "check_virtual_supply db' = Inr ()"
  proof (cases "price_is_null ?m")
    case True
    then show ?thesis using h s assms(3) by (simp add: check_virtual_supply_def Let_def m g asset_ge_def holds_def)
  next
    case False
    then have "asset_mul_price (gp_current_sbd_supply ?g) ?m = Inr debt" using d by simp
    then show ?thesis using False h s vs assms(3) by (simp add: check_virtual_supply_def Let_def m g asset_ge_def holds_def)
  qed
  then show ?thesis using g r assms(4) by auto
qed

definition sample_debt_db :: database where
  "sample_debt_db = sample_db\<lparr>dgpo := sample_pool\<lparr>gp_current_supply := mk_asset 5000 freezone_SYMBOL, gp_current_sbd_supply := mk_asset 300 SBD_SYMBOL,
     gp_sbd_start_percent := 900, gp_sbd_stop_percent := 2000\<rparr>,
     feed_history := \<lparr>fh_current_median_history = \<lparr>base = mk_asset 300 SBD_SYMBOL, quote = mk_asset 1000 freezone_SYMBOL\<rparr>, fh_price_history = []\<rparr>\<rparr>"

theorem virtual_supply_audited_witness:
  "\<exists>db'. update_virtual_supply sample_debt_db = Inr db' \<and> check_virtual_supply db' = Inr ()"
proof -
  let ?p = "\<lparr>base = mk_asset 300 SBD_SYMBOL, quote = mk_asset 1000 freezone_SYMBOL\<rparr>"
  have f: "gp_current_supply (dgpo sample_debt_db) = mk_asset 5000 freezone_SYMBOL" "gp_current_sbd_supply (dgpo sample_debt_db) = mk_asset 300 SBD_SYMBOL"
    "gp_sbd_print_rate (dgpo sample_debt_db) = 10000" "current_median_history sample_debt_db = ?p" "has_hardfork sample_debt_db 14" "has_hardfork sample_debt_db 21"
    by (simp_all add: sample_debt_db_def sample_pool_def dynamic_global_property_object_default_def current_median_history_def has_hardfork_def sample_db_def)
  have n: "\<not> price_is_null ?p"
    by (simp add: price_is_null_def price_eq_def same_bq_def price_default_def asset_default_def)
  have m: "asset_mul_price (mk_asset 300 SBD_SYMBOL) ?p = Inr (mk_asset 1000 freezone_SYMBOL)"
    by (simp add: asset_mul_price_def mul_div_amount_eq i64_of_u64_def)
  have a: "asset_add (mk_asset 5000 freezone_SYMBOL) (mk_asset 1000 freezone_SYMBOL) = Inr (mk_asset 6000 freezone_SYMBOL)"
    by (simp add: asset_add_def safe_add_def)
  have q: "sbd_percent True 1000 6000 = Inr 1667"
    by (simp add: sbd_percent_def u128_div_def u128_of_i64_def freezone_100_PERCENT_def to_uint64_def u128_hi_def signed_divide_int_def)
  have "\<exists>db'. update_virtual_supply sample_debt_db = Inr db'"
    using f n m a q by (simp add: update_virtual_supply_def Let_def)
  then obtain db' where d: "update_virtual_supply sample_debt_db = Inr db'" ..
  have h: "debt_in_range sample_debt_db" "holds freezone_SYMBOL (gp_current_supply (dgpo sample_debt_db))"
    using f by (simp_all add: debt_in_range_def price_ok_def holds_def)
  show ?thesis using d virtual_supply_audited [OF d h] f by (simp add: freezone_100_PERCENT_def)
qed

end
