(* ===== verification/Uint128.thy ===== *)
theory Uint128
  imports Asset
begin

text \<open>
  \<^verbatim>\<open>fc::uint128\<close> of \<^verbatim>\<open>fc/include/fc/uint128.hpp\<close> and \<^verbatim>\<open>fc/src/uint128.cpp\<close>: a 128-bit unsigned integer kept as two
  64-bit halves, with the carries, shifts, products, the division loop and the conversion to and from decimal strings
  written out.  The other theories compute with \<^typ>\<open>128 word\<close>; here the halves are shown to implement it.
\<close>

section \<open>The class\<close>

record uint128 =
  limb_hi :: "64 word"
  limb_lo :: "64 word"

definition mk128 :: "64 word \<Rightarrow> 64 word \<Rightarrow> uint128" where
  "mk128 h l = \<lparr>limb_hi = h, limb_lo = l\<rparr>"

definition uint128_of_u64 :: "64 word \<Rightarrow> uint128" where
  "uint128_of_u64 l = mk128 0 l"

definition uint128_of_i64 :: "int \<Rightarrow> uint128" where
  "uint128_of_i64 l = mk128 (if l < 0 then -1 else 0) (word_of_int l)"

definition uint128_less :: "uint128 \<Rightarrow> uint128 \<Rightarrow> bool" where
  "uint128_less a b \<longleftrightarrow> (if limb_hi a = limb_hi b then limb_lo a < limb_lo b else limb_hi a < limb_hi b)"

definition uint128_ge :: "uint128 \<Rightarrow> uint128 \<Rightarrow> bool" where
  "uint128_ge l r \<longleftrightarrow> l = r \<or> uint128_less r l"

definition uint128_inc :: "uint128 \<Rightarrow> uint128" where
  "uint128_inc a = (let l = limb_lo a + 1 in mk128 (limb_hi a + (if l = 0 then 1 else 0)) l)"

definition uint128_dec :: "uint128 \<Rightarrow> uint128" where
  "uint128_dec a = mk128 (limb_hi a - (if limb_lo a = 0 then 1 else 0)) (limb_lo a - 1)"

definition uint128_neg :: "uint128 \<Rightarrow> uint128" where
  "uint128_neg a = uint128_inc (mk128 (NOT (limb_hi a)) (NOT (limb_lo a)))"

definition uint128_not :: "uint128 \<Rightarrow> uint128" where
  "uint128_not a = mk128 (NOT (limb_hi a)) (NOT (limb_lo a))"

text \<open>The assignments \<^verbatim>\<open>|=\<close>, \<^verbatim>\<open>&=\<close> and \<^verbatim>\<open>^=\<close>; the operators \<^verbatim>\<open>&\<close> and \<^verbatim>\<open>^\<close> call them, \<^verbatim>\<open>|\<close> does not.\<close>

definition uint128_or_assign :: "uint128 \<Rightarrow> uint128 \<Rightarrow> uint128" where
  "uint128_or_assign a u = mk128 (limb_hi a OR limb_hi u) (limb_lo a OR limb_lo u)"

definition uint128_and :: "uint128 \<Rightarrow> uint128 \<Rightarrow> uint128" where
  "uint128_and a u = mk128 (limb_hi a AND limb_hi u) (limb_lo a AND limb_lo u)"

definition uint128_xor :: "uint128 \<Rightarrow> uint128 \<Rightarrow> uint128" where
  "uint128_xor a u = mk128 (limb_hi a XOR limb_hi u) (limb_lo a XOR limb_lo u)"

definition uint128_or :: "uint128 \<Rightarrow> uint128 \<Rightarrow> uint128" where
  "uint128_or l r = r"

definition uint128_add :: "uint128 \<Rightarrow> uint128 \<Rightarrow> uint128" where
  "uint128_add a u =
     (let old = limb_lo a; l = limb_lo a + limb_lo u
      in mk128 (limb_hi a + (limb_hi u + (if l < old then 1 else 0))) l)"

definition uint128_sub :: "uint128 \<Rightarrow> uint128 \<Rightarrow> uint128" where
  "uint128_sub a u = uint128_add a (uint128_neg u)"

definition uint128_to_integer :: "uint128 \<Rightarrow> (32 word) result" where
  "uint128_to_integer a =
     fc_assert (limb_hi a = 0) '''' (
     let lo32 = ucast (limb_lo a) :: 32 word in
     fc_assert (limb_lo a = ucast lo32) '''' (Inr lo32))"

definition uint128_to_uint64 :: "uint128 \<Rightarrow> (64 word) result" where
  "uint128_to_uint64 a = fc_assert (limb_hi a = 0) '''' (Inr (limb_lo a))"

definition uint128_to_int64 :: "uint128 \<Rightarrow> int result" where
  "uint128_to_int64 a = fc_assert (limb_hi a = 0) '''' (fc_assert (limb_lo a \<le> word_of_int i64_max) '''' (Inr (i64_of_u64 (limb_lo a))))"

text \<open>The shift operators, after the conversion of the count, which they compare with 128 first.\<close>

definition shift_left :: "nat \<Rightarrow> uint128 \<Rightarrow> uint128" where
  "shift_left n0 a0 =
     (let (n, a) = (if n0 \<ge> 64 then (n0 - 64, mk128 (limb_lo a0) 0) else (n0, a0)) in
      if n \<noteq> 0 then
        let mask = NOT (drop_bit n (-1 :: 64 word))
        in mk128 (push_bit n (limb_hi a) OR drop_bit (64 - n) (limb_lo a AND mask)) (push_bit n (limb_lo a))
      else a)"

definition shift_right :: "nat \<Rightarrow> uint128 \<Rightarrow> uint128" where
  "shift_right n0 a0 =
     (let (n, a) = (if n0 \<ge> 64 then (n0 - 64, mk128 0 (limb_hi a0)) else (n0, a0)) in
      if n \<noteq> 0 then
        let mask = NOT (push_bit n (-1 :: 64 word))
        in mk128 (drop_bit n (limb_hi a)) (drop_bit n (limb_lo a) OR push_bit (64 - n) (limb_hi a AND mask))
      else a)"

definition uint128_shl :: "uint128 \<Rightarrow> uint128 \<Rightarrow> uint128 result" where
  "uint128_shl a rhs =
     (if uint128_ge rhs (mk128 0 128) then Inr (mk128 0 0)
      else rbind (uint128_to_integer rhs) (\<lambda>n. Inr (shift_left (unat n) a)))"

definition uint128_shr :: "uint128 \<Rightarrow> uint128 \<Rightarrow> uint128 result" where
  "uint128_shr a rhs =
     (if uint128_ge rhs (mk128 0 128) then Inr (mk128 0 0)
      else rbind (uint128_to_integer rhs) (\<lambda>n. Inr (shift_right (unat n) a)))"

text \<open>The product of the 32-bit quarters; the terms beyond 128 bits are left out.\<close>

definition quarter :: "64 word \<Rightarrow> bool \<Rightarrow> 64 word" where
  "quarter x upper = ucast (ucast (if upper then drop_bit 32 x else x) :: 32 word)"

definition uint128_mul :: "uint128 \<Rightarrow> uint128 \<Rightarrow> uint128" where
  "uint128_mul a b =
     (let a0 = quarter (limb_lo a) False; a1 = quarter (limb_lo a) True; a2 = quarter (limb_hi a) False; a3 = quarter (limb_hi a) True;
          b0 = quarter (limb_lo b) False; b1 = quarter (limb_lo b) True; b2 = quarter (limb_hi b) False; b3 = quarter (limb_hi b) True;
          plus = (\<lambda>x y. uint128_add x (uint128_of_u64 y));
          r1 = plus (plus (plus (mk128 0 (a3 * b0)) (a2 * b1)) (a1 * b2)) (a0 * b3);
          r2 = plus (plus (plus (shift_left 32 r1) (a2 * b0)) (a1 * b1)) (a0 * b2);
          r3 = plus (plus (shift_left 32 r2) (a1 * b0)) (a0 * b1)
      in plus (shift_left 32 r3) (a0 * b0))"

definition full_product :: "uint128 \<Rightarrow> uint128 \<Rightarrow> uint128 \<times> uint128" where
  "full_product a b =
     (let ah = limb_hi a; al = limb_lo a; bh = limb_hi b; bl = limb_lo b;
          s = uint128_mul (uint128_of_u64 al) (uint128_of_u64 bl);
          r = uint128_mul (uint128_of_u64 ah) (uint128_of_u64 bl);
          q = uint128_mul (uint128_of_u64 al) (uint128_of_u64 bh);
          p = uint128_mul (uint128_of_u64 ah) (uint128_of_u64 bh);
          plus = (\<lambda>x y. uint128_add x (uint128_of_u64 y));
          acc1 = plus (plus (uint128_of_u64 (limb_hi s)) (limb_lo q)) (limb_lo r);
          acc2 = plus (plus (plus (uint128_of_u64 (limb_hi acc1)) (limb_hi q)) (limb_hi r)) (limb_lo p)
      in (mk128 (limb_hi acc2 + limb_hi p) (limb_lo acc2), mk128 (limb_lo acc1) (limb_lo s)))"

text \<open>
  Division.  Both loops are translated as they are written, and a loop that does not end is \<open>None\<close>; that they do end is
  a theorem below.
\<close>

partial_function (option) divide_grow :: "uint128 \<Rightarrow> uint128 \<Rightarrow> uint128 \<Rightarrow> (uint128 \<times> uint128) option" where
  "divide_grow n d x =
     (if uint128_ge n d \<and> uint128_and (shift_right 127 d) (mk128 0 1) = mk128 0 0
      then divide_grow n (shift_left 1 d) (shift_left 1 x)
      else Some (d, x))"

partial_function (option) divide_reduce :: "uint128 \<Rightarrow> uint128 \<Rightarrow> uint128 \<Rightarrow> uint128 \<Rightarrow> (uint128 \<times> uint128) option" where
  "divide_reduce n d x answer =
     (if x \<noteq> mk128 0 0 then
        if uint128_ge n d
        then divide_reduce (uint128_sub n d) (shift_right 1 d) (shift_right 1 x) (uint128_or_assign answer x)
        else divide_reduce n (shift_right 1 d) (shift_right 1 x) answer
      else Some (answer, n))"

definition uint128_divide :: "uint128 \<Rightarrow> uint128 \<Rightarrow> (uint128 \<times> uint128) result option" where
  "uint128_divide numerator denominator =
     (if denominator = mk128 0 0 then Some (Inl Divide_by_zero_exception)
      else case divide_grow numerator denominator (mk128 0 1) of
             None \<Rightarrow> None
           | Some (d, x) \<Rightarrow> map_option Inr (divide_reduce numerator d x (mk128 0 0)))"

text \<open>Strings.  The digits are read until the first character that is none of the radix.\<close>

definition digit_value :: "nat \<Rightarrow> char \<Rightarrow> nat option" where
  "digit_value radix ch =
     (let c = of_char ch :: nat in
      if of_char (CHR ''A'') \<le> c \<and> c \<le> of_char (CHR ''Z'') then
        (if c - of_char (CHR ''A'') + 10 < radix then Some (c - of_char (CHR ''A'') + 10) else None)
      else if of_char (CHR ''a'') \<le> c \<and> c \<le> of_char (CHR ''z'') then
        (if c - of_char (CHR ''a'') + 10 < radix then Some (c - of_char (CHR ''a'') + 10) else None)
      else if of_char (CHR ''0'') \<le> c \<and> c \<le> of_char (CHR ''9'') then
        (if c - of_char (CHR ''0'') < radix then Some (c - of_char (CHR ''0'')) else None)
      else None)"

definition add_digit :: "nat \<Rightarrow> uint128 \<Rightarrow> nat \<Rightarrow> uint128" where
  "add_digit radix v n = uint128_add (uint128_mul v (uint128_of_i64 (int radix))) (uint128_of_u64 (of_nat n))"

fun parse_digits :: "nat \<Rightarrow> string \<Rightarrow> uint128 \<Rightarrow> uint128" where
  "parse_digits radix [] v = v"
| "parse_digits radix (ch # cs) v =
     (case digit_value radix ch of None \<Rightarrow> v | Some n \<Rightarrow> parse_digits radix cs (add_digit radix v n))"

definition parse_prefixed :: "string \<Rightarrow> uint128" where
  "parse_prefixed s =
     (if s \<noteq> [] \<and> hd s = CHR ''0'' then
        (if tl s \<noteq> [] \<and> hd (tl s) = CHR ''x'' then parse_digits 16 (tl (tl s)) (mk128 0 0) else parse_digits 8 (tl s) (mk128 0 0))
      else parse_digits 10 s (mk128 0 0))"

definition uint128_of_string :: "string \<Rightarrow> uint128" where
  "uint128_of_string sz =
     (if sz = [] then mk128 0 0
      else if hd sz = CHR ''-'' then uint128_neg (parse_prefixed (tl sz))
      else parse_prefixed sz)"

text \<open>The buffer is filled from its end, at most up to its start.\<close>

fun print_loop :: "nat \<Rightarrow> uint128 \<Rightarrow> string \<Rightarrow> string result option" where
  "print_loop 0 ii sz = Some (Inr sz)"
| "print_loop (Suc i) ii sz =
     (if ii \<noteq> mk128 0 0 then
        case uint128_divide ii (mk128 0 10) of
          None \<Rightarrow> None
        | Some (Inl e) \<Rightarrow> Some (Inl e)
        | Some (Inr (q, remainder)) \<Rightarrow>
            (case uint128_to_integer remainder of
               Inl e \<Rightarrow> Some (Inl e)
             | Inr n \<Rightarrow> print_loop i q (''0123456789abcdefghijklmnopqrstuvwxyz'' ! unat n # sz))
      else Some (Inr sz))"

definition string_of_uint128 :: "uint128 \<Rightarrow> string result option" where
  "string_of_uint128 a = (if a = mk128 0 0 then Some (Inr ''0'') else print_loop 127 a [])"

section \<open>The halves as one word\<close>

definition rep :: "uint128 \<Rightarrow> 128 word" where
  "rep u = word_cat (limb_hi u) (limb_lo u)"

lemma limbs [simp]: "limb_hi (mk128 h l) = h" "limb_lo (mk128 h l) = l"
  by (simp_all add: mk128_def)

lemma mk128_eq_iff [simp]: "mk128 h l = mk128 h' l' \<longleftrightarrow> h = h' \<and> l = l'"
  by (simp add: mk128_def)

lemma mk128_limbs [simp]: "mk128 (limb_hi u) (limb_lo u) = u"
  by (simp add: mk128_def)

lemma bit_rep: "bit (rep u) n \<longleftrightarrow> (if n < 64 then bit (limb_lo u) n else bit (limb_hi u) (n - 64))"
  by (auto simp: rep_def bit_word_cat_iff dest: bit_imp_le_length)

lemma uint_rep: "uint (rep u) = uint (limb_hi u) * 2 ^ 64 + uint (limb_lo u)"
proof -
  have "uint (rep u) = take_bit 128 (concat_bit 64 (uint (limb_lo u)) (uint (limb_hi u)))"
    by (simp add: rep_def word_cat_eq' uint_word_of_int_eq)
  also have "concat_bit 64 (uint (limb_lo u)) (uint (limb_hi u)) = uint (limb_hi u) * 2 ^ 64 + uint (limb_lo u)"
    using uint_lt2p [of "limb_lo u"] by (simp add: concat_bit_eq push_bit_eq_mult take_bit_int_eq_self)
  also have "take_bit 128 \<dots> = \<dots>"
    using uint_lt2p [of "limb_lo u"] uint_lt2p [of "limb_hi u"] by (intro take_bit_int_eq_self) simp_all
  finally show ?thesis .
qed

lemma limb_bounds: "0 \<le> uint (limb_lo u)" "uint (limb_lo u) < 2 ^ 64" "0 \<le> uint (limb_hi u)" "uint (limb_hi u) < 2 ^ 64"
  using uint_lt2p [of "limb_lo u"] uint_lt2p [of "limb_hi u"] by simp_all

lemma limbs_less:
  fixes ha hb la lb :: int
  assumes "0 \<le> la" "la < 2 ^ 64" "0 \<le> lb" "lb < 2 ^ 64"
  shows "ha * 2 ^ 64 + la < hb * 2 ^ 64 + lb \<longleftrightarrow> (if ha = hb then la < lb else ha < hb)"
  using assms by (simp; linarith)

lemma rep_inject: "rep a = rep b \<longleftrightarrow> a = b"
proof
  assume "rep a = rep b"
  then have e: "uint (limb_hi a) * 2 ^ 64 + uint (limb_lo a) = uint (limb_hi b) * 2 ^ 64 + uint (limb_lo b)" by (simp only: uint_rep [symmetric])
  have "uint (limb_hi a) = uint (limb_hi b) \<and> uint (limb_lo a) = uint (limb_lo b)"
    using limbs_less [OF limb_bounds(1,2) [of a] limb_bounds(1,2) [of b], of "uint (limb_hi a)" "uint (limb_hi b)"]
      limbs_less [OF limb_bounds(1,2) [of b] limb_bounds(1,2) [of a], of "uint (limb_hi b)" "uint (limb_hi a)"]
    unfolding e by (simp split: if_splits)
  then have "limb_hi a = limb_hi b \<and> limb_lo a = limb_lo b" by (simp add: word_uint_eq_iff)
  then show "a = b" by (metis mk128_limbs)
qed simp

lemma rep_less: "uint128_less a b \<longleftrightarrow> rep a < rep b"
  by (simp only: uint128_less_def word_less_def uint_rep word_uint_eq_iff limbs_less [OF limb_bounds(1,2) limb_bounds(1,2)])

lemma rep_ge: "uint128_ge a b \<longleftrightarrow> rep a \<ge> rep b"
  by (auto simp: uint128_ge_def rep_less rep_inject order_le_less)

lemma rep_bitwise:
  "rep (uint128_or_assign a b) = rep a OR rep b" "rep (uint128_and a b) = rep a AND rep b" "rep (uint128_xor a b) = rep a XOR rep b"
  "rep (uint128_not a) = NOT (rep a)"
  by (rule bit_word_eqI; auto simp: bit_rep uint128_or_assign_def uint128_and_def uint128_xor_def uint128_not_def bit_simps)+

lemma split_mod: "0 \<le> l \<Longrightarrow> l < 2 ^ 64 \<Longrightarrow> (h mod 2 ^ 64) * 2 ^ 64 + l = (h * 2 ^ 64 + l) mod (2 ^ 128 :: int)"
  using zmod_zmult2_eq [of "2 ^ 64" "h * 2 ^ 64 + l" "2 ^ 64"] by (simp add: div_add1_eq)

lemma rep_mk: "rep (mk128 (word_of_int h) l) = word_of_int (h * 2 ^ 64 + uint l)"
proof -
  have "uint (rep (mk128 (word_of_int h) l)) = (h mod 2 ^ 64) * 2 ^ 64 + uint l"
    by (simp add: uint_rep uint_word_of_int)
  also have "\<dots> = (h * 2 ^ 64 + uint l) mod 2 ^ 128" using uint_lt2p [of l] by (intro split_mod) simp_all
  also have "\<dots> = uint (word_of_int (h * 2 ^ 64 + uint l) :: 128 word)" by (simp only: uint_word_of_int) simp
  finally show ?thesis by (simp only: word_uint_eq_iff)
qed

lemma rep_eq: "rep u = word_of_int (uint (limb_hi u) * 2 ^ 64 + uint (limb_lo u))"
  using rep_mk [of "uint (limb_hi u)" "limb_lo u"] by simp

lemma rep_add: "rep (uint128_add a b) = rep a + rep b"
proof -
  define c :: int where "c = (if limb_lo a + limb_lo b < limb_lo a then 1 else 0)"
  have l: "uint (limb_lo a + limb_lo b) = uint (limb_lo a) + uint (limb_lo b) - c * 2 ^ 64"
    using limb_bounds [of a] limb_bounds [of b] by (simp add: c_def word_less_def uint_plus_if')
  have "uint128_add a b = mk128 (word_of_int (uint (limb_hi a) + uint (limb_hi b) + c)) (limb_lo a + limb_lo b)"
    by (simp add: uint128_add_def Let_def c_def add.assoc)
  then have "rep (uint128_add a b) = word_of_int ((uint (limb_hi a) + uint (limb_hi b) + c) * 2 ^ 64 + uint (limb_lo a + limb_lo b))"
    by (simp only: rep_mk)
  also have "(uint (limb_hi a) + uint (limb_hi b) + c) * 2 ^ 64 + uint (limb_lo a + limb_lo b) =
      (uint (limb_hi a) * 2 ^ 64 + uint (limb_lo a)) + (uint (limb_hi b) * 2 ^ 64 + uint (limb_lo b))"
    unfolding l by (simp add: algebra_simps)
  also have "word_of_int \<dots> = rep a + rep b" unfolding rep_eq by (rule of_int_add)
  finally show ?thesis .
qed

lemma rep_inc: "rep (uint128_inc a) = rep a + 1"
proof -
  have "x + 1 < x \<longleftrightarrow> x + 1 = 0" for x :: "64 word"
    using uint_ge_0 [of x] uint_lt2p [of x] unfolding word_less_def word_uint_eq_iff uint_plus_if' by (simp; linarith)
  then have "uint128_inc a = uint128_add a (mk128 0 1)" by (simp add: uint128_inc_def uint128_add_def Let_def)
  then show ?thesis by (simp add: rep_add rep_eq [of "mk128 0 1"])
qed

lemma rep_neg: "rep (uint128_neg a) = - rep a"
proof -
  have "uint128_neg a = uint128_inc (uint128_not a)" by (simp add: uint128_neg_def uint128_not_def)
  then show ?thesis by (simp add: rep_inc rep_bitwise(4) minus_eq_not_plus_1)
qed

lemma rep_sub: "rep (uint128_sub a b) = rep a - rep b"
  by (simp add: uint128_sub_def rep_add rep_neg)

lemma rep_dec: "rep (uint128_dec a) = rep a - 1"
proof -
  have "uint128_inc (uint128_dec a) = a" by (auto simp: uint128_inc_def uint128_dec_def Let_def)
  then show ?thesis by (metis rep_inc add_diff_cancel_right')
qed

lemma bit_high: "\<not> bit (w :: 64 word) n" if "64 \<le> n"
  using that bit_imp_le_length [of w n] by auto

lemma rep_shift_left: "n < 128 \<Longrightarrow> rep (shift_left n a) = push_bit n (rep a)"
  by (rule bit_word_eqI) (auto simp: shift_left_def Let_def bit_rep bit_simps bit_high add.commute split: if_splits)

lemma rep_shift_right: "n < 128 \<Longrightarrow> rep (shift_right n a) = drop_bit n (rep a)"
  by (rule bit_word_eqI) (auto simp: shift_right_def Let_def bit_rep bit_simps bit_high add.commute split: if_splits)

lemma rep_of_u64 [simp]: "rep (uint128_of_u64 x) = ucast x"
  by (rule bit_word_eqI) (auto simp: uint128_of_u64_def bit_rep bit_simps bit_high)

lemma rep_of_i64: "i64_min \<le> x \<Longrightarrow> x \<le> i64_max \<Longrightarrow> rep (uint128_of_i64 x) = u128_of_i64 x"
proof (cases "x < 0")
  case True
  assume "i64_min \<le> x" "x \<le> i64_max"
  then have "(x + 2 ^ 64) mod 2 ^ 64 = x + 2 ^ 64" using True by (intro mod_pos_pos_trivial) simp_all
  then have "x mod 2 ^ 64 = x + 2 ^ 64" by (simp only: mod_add_self2)
  then have "uint (word_of_int x :: 64 word) = x + 2 ^ 64" by (simp add: uint_word_of_int)
  then show ?thesis using True rep_mk [of "-1" "word_of_int x"] by (simp add: uint128_of_i64_def u128_of_i64_def)
next
  case False
  assume "i64_min \<le> x" "x \<le> i64_max"
  then show ?thesis using False rep_mk [of 0 "word_of_int x"] by (simp add: uint128_of_i64_def u128_of_i64_def uint_word_of_int)
qed

lemma uint_widen: "uint (ucast (y :: 32 word) :: 64 word) = uint y"
  using uint_lt2p [of y] by (simp add: unsigned_ucast_eq take_bit_int_eq_self)

lemma uint_narrow: "uint (ucast (x :: 64 word) :: 32 word) = uint x mod 2 ^ 32"
  by (simp add: unsigned_ucast_eq take_bit_eq_mod)

lemma uint_quarter: "uint (quarter x False) = uint x mod 2 ^ 32" "uint (quarter x True) = uint x div 2 ^ 32"
proof -
  show "uint (quarter x False) = uint x mod 2 ^ 32" by (simp only: quarter_def uint_widen uint_narrow if_False)
  have "uint (drop_bit 32 x) = uint x div 2 ^ 32" by (simp add: drop_bit_eq_div uint_div_distrib)
  moreover have "(uint x div 2 ^ 32) mod 2 ^ 32 = uint x div 2 ^ 32"
    using uint_lt2p [of x] by (intro mod_pos_pos_trivial) (simp_all add: pos_imp_zdiv_nonneg_iff)
  ultimately show "uint (quarter x True) = uint x div 2 ^ 32" by (simp only: quarter_def uint_widen uint_narrow if_True)
qed

lemma quarter_product:
  "ucast (quarter x p * quarter y q) = (ucast (quarter x p) * ucast (quarter y q) :: 128 word)"
proof -
  have b: "0 \<le> uint (quarter z r)" "uint (quarter z r) < 2 ^ 32" for z r
    using uint_lt2p [of "ucast (if r then drop_bit 32 z else z) :: 32 word"] unfolding quarter_def uint_widen by simp_all
  have p: "uint (quarter x p) * uint (quarter y q) < 2 ^ 32 * 2 ^ 32" using b by (intro mult_strict_mono) auto
  have "uint (quarter x p * quarter y q) = uint (quarter x p) * uint (quarter y q)"
    using p b by (simp add: uint_word_ariths(3))
  then show ?thesis by (metis of_int_mult of_int_uint)
qed

lemma quarters:
  "rep a = ucast (quarter (limb_lo a) False) + ucast (quarter (limb_lo a) True) * 2 ^ 32 + ucast (quarter (limb_hi a) False) * 2 ^ 64 +
     ucast (quarter (limb_hi a) True) * 2 ^ 96"
proof -
  have s: "uint x = uint (quarter x False) + uint (quarter x True) * 2 ^ 32" for x
    unfolding uint_quarter by (simp add: mult.commute)
  show ?thesis
    unfolding rep_eq s [of "limb_hi a"] s [of "limb_lo a"] by (simp add: algebra_simps)
qed

lemma rep_mul: "rep (uint128_mul a b) = rep a * rep b"
proof -
  have z: "(340282366920938463463374607431768211456 :: 128 word) = 0" "(1461501637330902918203684832716283019655932542976 :: 128 word) = 0"
    "(6277101735386680763835789423207666416102355444464034512896 :: 128 word) = 0"
    by simp_all
  show ?thesis
    unfolding uint128_mul_def Let_def rep_add rep_of_u64 quarters [of a] quarters [of b]
    by (simp add: rep_shift_left rep_add quarter_product push_bit_eq_mult uint128_of_u64_def [symmetric] algebra_simps z)
qed


lemma limb_of_rep: "limb_hi u = u128_hi (rep u)" "limb_lo u = ucast (rep u)"
  by (rule bit_word_eqI; simp add: u128_hi_def bit_rep bit_simps)+

lemma uint_product_u64: "uint (rep (uint128_mul (uint128_of_u64 x) (uint128_of_u64 y))) = uint x * uint y"
proof -
  have "uint x * uint y < 2 ^ 64 * 2 ^ 64" using uint_lt2p [of x] uint_lt2p [of y] by (intro mult_strict_mono) auto
  moreover have "uint (ucast z :: 128 word) = uint z" for z :: "64 word"
    using uint_lt2p [of z] by (simp add: unsigned_ucast_eq take_bit_int_eq_self)
  ultimately show ?thesis by (simp add: rep_mul uint_word_ariths(3))
qed

lemma uint_plus_u64:
  assumes "uint (rep x) + uint y < 2 ^ 128"
  shows "uint (rep (uint128_add x (uint128_of_u64 y))) = uint (rep x) + uint y"
proof -
  have "uint (ucast y :: 128 word) = uint y" using uint_lt2p [of y] by (simp add: unsigned_ucast_eq take_bit_int_eq_self)
  then show ?thesis using assms by (simp add: rep_add uint_plus_if')
qed

lemma uint_rep_u64: "uint (rep (uint128_of_u64 y)) = uint y"
  by (simp add: uint_rep uint128_of_u64_def)

lemma full_product_sum:
  fixes B :: int
  assumes "sh * B + sl = al * bl" "rh * B + rl = ah * bl" "qh * B + ql = al * bh" "ph * B + pl = ah * bh"
    "x * B + y = sh + ql + rl" "z * B + w = x + qh + rh + pl"
  shows "((z + ph) * B + w) * (B * B) + (y * B + sl) = (ah * B + al) * (bh * B + bl)"
proof -
  have "(ah * B + al) * (bh * B + bl) = (ah * bh) * (B * B) + (al * bh + ah * bl) * B + al * bl" by algebra
  also have "\<dots> = (ph * B + pl) * (B * B) + (qh * B + ql + rh * B + rl) * B + (sh * B + sl)" by (simp add: assms(1-4))
  also have "\<dots> = ph * B * (B * B) + (qh + rh + pl) * (B * B) + (sh + ql + rl) * B + sl" by algebra
  also have "\<dots> = ph * B * (B * B) + (z * B + w - x) * (B * B) + (x * B + y) * B + sl" by (simp add: assms(5,6))
  also have "\<dots> = ((z + ph) * B + w) * (B * B) + (y * B + sl)" by algebra
  finally show ?thesis by simp
qed

lemma top_limb_bound:
  fixes h w y l :: int
  assumes "(h * 2 ^ 64 + w) * (2 ^ 64 * 2 ^ 64) + (y * 2 ^ 64 + l) < 2 ^ 256" "0 \<le> w" "0 \<le> y" "0 \<le> l"
  shows "h < 2 ^ 64"
  using assms by simp

lemma full_product_value:
  "uint (rep (fst (full_product a b))) * 2 ^ 128 + uint (rep (snd (full_product a b))) = uint (rep a) * uint (rep b)"
proof -
  define s r q p where "s = uint128_mul (uint128_of_u64 (limb_lo a)) (uint128_of_u64 (limb_lo b))"
    and "r = uint128_mul (uint128_of_u64 (limb_hi a)) (uint128_of_u64 (limb_lo b))"
    and "q = uint128_mul (uint128_of_u64 (limb_lo a)) (uint128_of_u64 (limb_hi b))"
    and "p = uint128_mul (uint128_of_u64 (limb_hi a)) (uint128_of_u64 (limb_hi b))"
  define acc1 where "acc1 = uint128_add (uint128_add (uint128_of_u64 (limb_hi s)) (uint128_of_u64 (limb_lo q))) (uint128_of_u64 (limb_lo r))"
  define acc2 where "acc2 = uint128_add (uint128_add (uint128_add (uint128_of_u64 (limb_hi acc1)) (uint128_of_u64 (limb_hi q))) (uint128_of_u64 (limb_hi r))) (uint128_of_u64 (limb_lo p))"
  let ?B = "2 ^ 64 :: int"
  note products = uint_product_u64 [of "limb_lo a" "limb_lo b", folded s_def, unfolded uint_rep] uint_product_u64 [of "limb_hi a" "limb_lo b", folded r_def, unfolded uint_rep]
    uint_product_u64 [of "limb_lo a" "limb_hi b", folded q_def, unfolded uint_rep] uint_product_u64 [of "limb_hi a" "limb_hi b", folded p_def, unfolded uint_rep]
  note bounds = limb_bounds [of s] limb_bounds [of r] limb_bounds [of q] limb_bounds [of p] limb_bounds [of acc1] limb_bounds [of acc2]
  have a1: "uint (rep acc1) = uint (limb_hi s) + uint (limb_lo q) + uint (limb_lo r)"
    unfolding acc1_def using bounds by (simp add: uint_plus_u64 uint_rep_u64 del: rep_of_u64)
  have a2: "uint (rep acc2) = uint (limb_hi acc1) + uint (limb_hi q) + uint (limb_hi r) + uint (limb_lo p)"
    unfolding acc2_def using bounds by (simp add: uint_plus_u64 uint_rep_u64 del: rep_of_u64)
  have e: "((uint (limb_hi acc2) + uint (limb_hi p)) * ?B + uint (limb_lo acc2)) * (?B * ?B) + (uint (limb_lo acc1) * ?B + uint (limb_lo s)) =
      (uint (limb_hi a) * ?B + uint (limb_lo a)) * (uint (limb_hi b) * ?B + uint (limb_lo b))"
    by (rule full_product_sum [OF products a1 [unfolded uint_rep] a2 [unfolded uint_rep]])
  have "uint (rep a) * uint (rep b) < 2 ^ 128 * 2 ^ 128"
    using uint_lt2p [of "rep a"] uint_lt2p [of "rep b"] by (intro mult_strict_mono) auto
  then have "((uint (limb_hi acc2) + uint (limb_hi p)) * ?B + uint (limb_lo acc2)) * (?B * ?B) + (uint (limb_lo acc1) * ?B + uint (limb_lo s)) < 2 ^ 256"
    unfolding e by (simp add: uint_rep)
  then have "uint (limb_hi acc2) + uint (limb_hi p) < ?B" by (rule top_limb_bound) (rule uint_ge_0)+
  then have c: "uint (limb_hi acc2 + limb_hi p) = uint (limb_hi acc2) + uint (limb_hi p)" by (simp add: uint_plus_if')
  have f: "full_product a b = (mk128 (limb_hi acc2 + limb_hi p) (limb_lo acc2), mk128 (limb_lo acc1) (limb_lo s))"
    unfolding full_product_def Let_def acc2_def acc1_def s_def r_def q_def p_def ..
  show ?thesis unfolding f uint_rep [of a] uint_rep [of b] e [symmetric] by (simp add: uint_rep c)
qed

section \<open>Division returns\<close>

lemma rep_zero [simp]: "rep (mk128 0 0) = 0" "rep (mk128 0 1) = 1"
  by (simp_all add: rep_eq)

lemma rep_eq_zero: "u = mk128 0 0 \<longleftrightarrow> uint (rep u) = 0"
  by (metis rep_inject rep_zero(1) uint_0_iff)

lemma uint_ge_iff: "uint128_ge a b \<longleftrightarrow> uint (rep b) \<le> uint (rep a)"
  by (simp add: rep_ge word_le_def)

lemma top_bit_clear: "uint128_and (shift_right 127 d) (mk128 0 1) = mk128 0 0 \<longleftrightarrow> uint (rep d) < 2 ^ 127"
proof -
  have "uint (rep (uint128_and (shift_right 127 d) (mk128 0 1))) = (uint (rep d) div 2 ^ 127) mod 2"
    by (simp add: rep_bitwise rep_shift_right and_one_eq drop_bit_eq_div uint_mod_distrib uint_div_distrib)
  also have "\<dots> = uint (rep d) div 2 ^ 127"
    using uint_lt2p [of "rep d"] by (intro mod_pos_pos_trivial) (simp_all add: pos_imp_zdiv_nonneg_iff)
  finally show ?thesis
    using uint_ge_0 [of "rep d"] unfolding rep_eq_zero by (simp add: zdiv_eq_0_iff del: uint_ge_0; linarith)
qed

lemma uint_double: "uint (rep d) < 2 ^ 127 \<Longrightarrow> uint (rep (shift_left 1 d)) = 2 * uint (rep d)"
  by (simp add: rep_shift_left push_bit_eq_mult uint_word_ariths(3))

lemma uint_halve: "uint (rep (shift_right 1 d)) = uint (rep d) div 2"
  by (simp add: rep_shift_right drop_bit_eq_div uint_div_distrib)

lemma divide_grow_returns:
  assumes "0 < D" "uint (rep d) = D * 2 ^ k" "uint (rep x) = 2 ^ k"
  shows "\<exists>d' x' k'. divide_grow n d x = Some (d', x') \<and> uint (rep d') = D * 2 ^ k' \<and> uint (rep x') = 2 ^ k' \<and>
    (uint (rep n) < uint (rep d') \<or> 2 ^ 127 \<le> uint (rep d'))"
  using assms
proof (induction "127 - k" arbitrary: d x k rule: less_induct)
  case less
  show ?case
  proof (cases "uint128_ge n d \<and> uint128_and (shift_right 127 d) (mk128 0 1) = mk128 0 0")
    case True
    then have small: "D * 2 ^ k < 2 ^ 127" using less.prems(2) by (simp only: top_bit_clear)
    have "(2 :: int) ^ k \<le> D * 2 ^ k" using less.prems(1) by simp
    then have k2: "(2 :: int) ^ k < 2 ^ 127" using small by linarith
    then have k: "k < 127" by (simp only: power_strict_increasing_iff)
    have "uint (rep (shift_left 1 d)) = D * 2 ^ Suc k" "uint (rep (shift_left 1 x)) = 2 ^ Suc k"
      using uint_double [of d] uint_double [of x] less.prems(2,3) small k2 by simp_all
    then obtain d' x' k' where "divide_grow n (shift_left 1 d) (shift_left 1 x) = Some (d', x')" "uint (rep d') = D * 2 ^ k'" "uint (rep x') = 2 ^ k'"
        "uint (rep n) < uint (rep d') \<or> 2 ^ 127 \<le> uint (rep d')"
      using less.hyps [of "Suc k", OF _ less.prems(1)] k by (metis diff_less_mono2 lessI)
    then show ?thesis using True divide_grow.simps [of n d x] by auto
  next
    case False
    then have "divide_grow n d x = Some (d, x)" by (simp only: divide_grow.simps [of n d x] if_False)
    moreover have "uint (rep n) < uint (rep d) \<or> 2 ^ 127 \<le> uint (rep d)" using False by (auto simp: uint_ge_iff top_bit_clear)
    ultimately show ?thesis using less.prems by blast
  qed
qed

lemma or_new_bit:
  assumes "uint (rep a) = m * 2 ^ Suc k" "uint (rep x) = 2 ^ k"
  shows "uint (rep (uint128_or_assign a x)) = m * 2 ^ Suc k + 2 ^ k"
proof -
  have "\<not> bit (m * 2 ^ Suc k) k" by (simp add: bit_iff_odd)
  then have "m * 2 ^ Suc k + 2 ^ k = m * 2 ^ Suc k OR 2 ^ k" by (intro disjunctive_add) (auto simp: bit_simps)
  then show ?thesis by (simp only: rep_bitwise unsigned_or_eq assms)
qed


lemma divide_reduce_returns:
  assumes "0 < D" "uint (rep d) = D * 2 ^ k" "uint (rep x) = 2 ^ k" "uint (rep n) < 2 * (D * 2 ^ k)"
    "uint (rep a) = m * 2 ^ Suc k" "uint (rep a) * D + uint (rep n) = N"
  shows "\<exists>q r. divide_reduce n d x a = Some (q, r) \<and> uint (rep q) * D + uint (rep r) = N \<and> uint (rep r) < D"
  using assms
proof (induction k arbitrary: n d x a m)
  case 0
  have x: "x \<noteq> mk128 0 0" using "0.prems"(3) by (simp add: rep_eq_zero)
  have stop: "divide_reduce n' d' (shift_right 1 x) a' = Some (a', n')" for n' d' a'
    using "0.prems"(3) uint_halve [of x] rep_eq_zero [of "shift_right 1 x"] by (simp only: divide_reduce.simps [of n' d']) simp
  show ?case
  proof (cases "uint128_ge n d")
    case True
    then have "uint (rep (uint128_sub n d)) = uint (rep n) - D"
      using "0.prems"(2) by (simp add: uint_ge_iff rep_sub uint_sub_if')
    moreover have "uint (rep (uint128_or_assign a x)) = uint (rep a) + 1" using or_new_bit [OF "0.prems"(5,3)] "0.prems"(5) by simp
    ultimately show ?thesis
      using "0.prems"(4,6) x True stop by (simp only: divide_reduce.simps [of n d x a] if_True if_False simp_thms) (simp add: algebra_simps)
  next
    case False
    then show ?thesis using "0.prems"(2,6) x stop by (simp only: divide_reduce.simps [of n d x a] if_True if_False simp_thms) (simp add: uint_ge_iff)
  qed
next
  case (Suc k)
  have x: "x \<noteq> mk128 0 0" using Suc.prems(3) by (simp add: rep_eq_zero)
  have h: "uint (rep (shift_right 1 d)) = D * 2 ^ k" "uint (rep (shift_right 1 x)) = 2 ^ k" using Suc.prems(2,3) by (simp_all only: uint_halve) simp_all
  show ?case
  proof (cases "uint128_ge n d")
    case True
    then have s: "uint (rep (uint128_sub n d)) = uint (rep n) - D * 2 ^ Suc k"
      using Suc.prems(2) by (simp add: uint_ge_iff rep_sub uint_sub_if')
    have o: "uint (rep (uint128_or_assign a x)) = (2 * m + 1) * 2 ^ Suc k" using or_new_bit [OF Suc.prems(5,3)] by (simp add: algebra_simps)
    have "uint (rep (uint128_or_assign a x)) * D + uint (rep (uint128_sub n d)) = N"
      using or_new_bit [OF Suc.prems(5,3)] Suc.prems(5,6) s by (simp add: algebra_simps)
    moreover have "uint (rep (uint128_sub n d)) < 2 * (D * 2 ^ k)" using s Suc.prems(4) by simp
    ultimately show ?thesis
      using Suc.IH [OF Suc.prems(1) h _ o] x True by (simp only: divide_reduce.simps [of n d x a] if_True if_False simp_thms)
  next
    case False
    then have "uint (rep n) < 2 * (D * 2 ^ k)" using Suc.prems(2) by (simp add: uint_ge_iff)
    moreover have "uint (rep a) = (2 * m) * 2 ^ Suc k" using Suc.prems(5) by simp
    ultimately show ?thesis
      using Suc.IH [OF Suc.prems(1) h _ _ Suc.prems(6)] x False by (simp only: divide_reduce.simps [of n d x a] if_True if_False simp_thms)
  qed
qed

lemma divide_value:
  assumes "rep d \<noteq> 0"
  shows "\<exists>q r. uint128_divide n d = Some (Inr (q, r)) \<and> rep q = rep n div rep d \<and> rep r = rep n mod rep d"
proof -
  let ?D = "uint (rep d)"
  have D: "0 < ?D" using assms by (simp add: word_less_def [symmetric] word_neq_0_conv [symmetric] uint_0_iff order_less_le)
  obtain d' x' k where g: "divide_grow n d (mk128 0 1) = Some (d', x')" "uint (rep d') = ?D * 2 ^ k" "uint (rep x') = 2 ^ k"
      "uint (rep n) < uint (rep d') \<or> 2 ^ 127 \<le> uint (rep d')"
    using divide_grow_returns [of ?D d 0 "mk128 0 1" n] D by auto
  have "0 \<le> ?D * 2 ^ k" by simp
  then have "uint (rep n) < 2 * (?D * 2 ^ k)" using g(4) uint_lt2p [of "rep n"] unfolding g(2) by (simp; linarith)
  then obtain q r where r: "divide_reduce n d' x' (mk128 0 0) = Some (q, r)" "uint (rep q) * ?D + uint (rep r) = uint (rep n)" "uint (rep r) < ?D"
    using divide_reduce_returns [OF D g(2,3), of n "mk128 0 0" 0 "uint (rep n)"] by auto
  have "uint (rep n) div ?D = uint (rep q)" "uint (rep n) mod ?D = uint (rep r)"
    using r(2,3) D uint_ge_0 [of "rep r"] int_div_pos_eq [of "uint (rep n)" ?D "uint (rep q)" "uint (rep r)"] int_mod_pos_eq [of "uint (rep n)" ?D "uint (rep q)" "uint (rep r)"]
    by (simp_all add: mult.commute)
  then have "rep q = rep n div rep d" "rep r = rep n mod rep d" by (simp_all add: word_uint_eq_iff uint_div_distrib uint_mod_distrib)
  moreover have "d \<noteq> mk128 0 0" using assms by auto
  ultimately show ?thesis using g(1) r(1) by (simp add: uint128_divide_def)
qed


section \<open>Decimal strings\<close>

lemma digit_char:
  assumes "n < 10"
  shows "digit_value 10 (''0123456789abcdefghijklmnopqrstuvwxyz'' ! n) = Some n"
    "''0123456789abcdefghijklmnopqrstuvwxyz'' ! n = CHR ''0'' \<longleftrightarrow> n = 0" "''0123456789abcdefghijklmnopqrstuvwxyz'' ! n \<noteq> CHR ''-''"
proof -
  have "n \<in> {0, 1, 2, 3, 4, 5, 6, 7, 8, 9}" using assms by auto
  then show "digit_value 10 (''0123456789abcdefghijklmnopqrstuvwxyz'' ! n) = Some n"
    "''0123456789abcdefghijklmnopqrstuvwxyz'' ! n = CHR ''0'' \<longleftrightarrow> n = 0" "''0123456789abcdefghijklmnopqrstuvwxyz'' ! n \<noteq> CHR ''-''"
    by (elim insertE emptyE; simp add: digit_value_def)+
qed

lemma rep_add_digit: "rep (add_digit 10 v n) = rep v * 10 + of_nat n" if "n < 10"
proof -
  have "rep (uint128_of_i64 10) = 10" by (simp add: rep_of_i64 u128_of_i64_def)
  moreover have "ucast (of_nat n :: 64 word) = (of_nat n :: 128 word)"
    using that by (simp add: word_uint_eq_iff unsigned_ucast_eq uint_nat unat_of_nat take_bit_int_eq_self take_bit_nat_eq_self_iff)
  ultimately show ?thesis by (simp add: add_digit_def rep_add rep_mul)
qed

definition read :: "string \<Rightarrow> uint128 \<Rightarrow> uint128" where
  "read ds v = foldl (\<lambda>v c. add_digit 10 v (the (digit_value 10 c))) v ds"

lemma parse_read:
  "list_all (\<lambda>c. digit_value 10 c \<noteq> None) ds \<Longrightarrow> parse_digits 10 ds v = read ds v"
  by (induction ds arbitrary: v) (auto simp: read_def)


lemma small_to_integer:
  assumes "rep r = of_nat n" "n < 10"
  shows "uint128_to_integer r = Inr (of_nat n)"
proof -
  have "r = uint128_of_u64 (of_nat n)"
  proof -
    have "ucast (of_nat n :: 64 word) = (of_nat n :: 128 word)"
      using assms(2) by (simp add: word_uint_eq_iff unsigned_ucast_eq uint_nat unat_of_nat take_bit_int_eq_self take_bit_nat_eq_self_iff)
    then show ?thesis using assms(1) rep_inject by (metis rep_of_u64)
  qed
  moreover have "ucast (of_nat n :: 64 word) = (of_nat n :: 32 word)" "ucast (of_nat n :: 32 word) = (of_nat n :: 64 word)"
    using assms(2) by (simp_all add: word_uint_eq_iff unsigned_ucast_eq uint_nat unat_of_nat take_bit_int_eq_self take_bit_nat_eq_self_iff)
  ultimately show ?thesis by (simp add: uint128_to_integer_def uint128_of_u64_def Let_def)
qed

lemma divide_by_ten:
  obtains q r n where "uint128_divide ii (mk128 0 10) = Some (Inr (q, r))" "rep ii = rep q * 10 + of_nat n" "n < 10"
    "uint128_to_integer r = Inr (of_nat n)" "uint (rep q) = uint (rep ii) div 10"
proof -
  have ten: "rep (mk128 0 10) = 10" by (simp add: rep_eq)
  obtain q r where d: "uint128_divide ii (mk128 0 10) = Some (Inr (q, r))" "rep q = rep ii div 10" "rep r = rep ii mod 10"
    using divide_value [of "mk128 0 10" ii] ten by auto
  define n where "n = unat (rep ii mod 10)"
  have n: "n < 10" by (simp add: n_def unat_mod_distrib)
  have r: "rep r = of_nat n" by (simp add: d(3) n_def)
  have "rep ii = rep q * 10 + of_nat n" unfolding r [symmetric] d(2,3) by (simp only: div_mult_mod_eq)
  moreover have "uint (rep q) = uint (rep ii) div 10" by (simp add: d(2) uint_div_distrib)
  ultimately show thesis using that d(1) n small_to_integer [OF r n] by blast
qed

lemma print_loop_digits:
  assumes "uint (rep ii) < 10 ^ i"
  shows "\<exists>ds. print_loop i ii acc = Some (Inr (ds @ acc)) \<and> list_all (\<lambda>c. digit_value 10 c \<noteq> None) ds \<and>
    (\<forall>v. rep (read ds v) = rep v * 10 ^ length ds + rep ii) \<and> (if rep ii = 0 then ds = [] else ds \<noteq> [] \<and> hd ds \<noteq> CHR ''0'' \<and> hd ds \<noteq> CHR ''-'')"
  using assms
proof (induction i arbitrary: ii acc)
  case 0
  then have "uint (rep ii) < 1" by simp
  then have "uint (rep ii) = 0" using uint_ge_0 [of "rep ii"] by linarith
  then have "rep ii = 0" by (simp add: uint_0_iff)
  then show ?case by (simp add: read_def)
next
  case (Suc i)
  show ?case
  proof (cases "ii = mk128 0 0")
    case True
    then show ?thesis by (simp add: read_def)
  next
    case False
    obtain q r n where d: "uint128_divide ii (mk128 0 10) = Some (Inr (q, r))" "rep ii = rep q * 10 + of_nat n" "n < 10"
        "uint128_to_integer r = Inr (of_nat n)" "uint (rep q) = uint (rep ii) div 10"
      by (rule divide_by_ten)
    let ?c = "''0123456789abcdefghijklmnopqrstuvwxyz'' ! n"
    have "uint (rep q) < 10 ^ i" using Suc.prems d(5) by simp
    then obtain ds where ds: "print_loop i q (?c # acc) = Some (Inr (ds @ ?c # acc))" "list_all (\<lambda>c. digit_value 10 c \<noteq> None) ds"
        "\<And>v. rep (read ds v) = rep v * 10 ^ length ds + rep q" "if rep q = 0 then ds = [] else ds \<noteq> [] \<and> hd ds \<noteq> CHR ''0'' \<and> hd ds \<noteq> CHR ''-''"
      using Suc.IH by blast
    have u: "unat (of_nat n :: 32 word) = n" using d(3) by (simp add: unat_of_nat take_bit_nat_eq_self_iff)
    have p: "print_loop (Suc i) ii acc = Some (Inr ((ds @ [?c]) @ acc))" using False d(1,4) ds(1) u by simp
    have v: "rep (read (ds @ [?c]) v) = rep v * 10 ^ length (ds @ [?c]) + rep ii" for v
      using ds(3) [of v] d(2,3) digit_char(1) [OF d(3)] rep_add_digit [OF d(3)] by (simp add: read_def algebra_simps)
    have nz: "rep ii \<noteq> 0" using False rep_inject [of ii "mk128 0 0"] by simp
    have "hd (ds @ [?c]) \<noteq> CHR ''0'' \<and> hd (ds @ [?c]) \<noteq> CHR ''-''"
    proof (cases "ds = []")
      case True
      then have "rep q = 0" using ds(4) by (auto split: if_splits)
      then show ?thesis using True nz d(2) digit_char(2,3) [OF d(3)] by auto
    next
      case False
      then show ?thesis using ds(4) by (auto split: if_splits)
    qed
    then show ?thesis using p ds(2) v nz digit_char(1) [OF d(3)] by (intro exI [of _ "ds @ [?c]"]) simp
  qed
qed


section \<open>Properties\<close>

text \<open>
  C35: the arithmetic on two 64-bit halves, with its carries, masks and partial products, is the arithmetic of 128-bit
  words, and the comparison is theirs.
\<close>

theorem uint128_refines_word:
  "rep (uint128_add a b) = rep a + rep b \<and> rep (uint128_sub a b) = rep a - rep b \<and> rep (uint128_mul a b) = rep a * rep b \<and>
   rep (uint128_neg a) = - rep a \<and> rep (uint128_inc a) = rep a + 1 \<and> rep (uint128_dec a) = rep a - 1 \<and>
   rep (uint128_or_assign a b) = rep a OR rep b \<and> rep (uint128_and a b) = rep a AND rep b \<and> rep (uint128_xor a b) = rep a XOR rep b \<and>
   rep (shift_left (n mod 128) a) = push_bit (n mod 128) (rep a) \<and> rep (shift_right (n mod 128) a) = drop_bit (n mod 128) (rep a) \<and>
   (uint128_less a b \<longleftrightarrow> rep a < rep b) \<and> (uint128_ge a b \<longleftrightarrow> rep a \<ge> rep b) \<and> uint128_to_uint64 a = to_uint64 (rep a)"
  using limb_of_rep [of a] by (simp add: rep_add rep_sub rep_mul rep_neg rep_inc rep_dec rep_bitwise rep_less rep_ge rep_shift_left rep_shift_right
      uint128_to_uint64_def to_uint64_def)

text \<open>
  C36: the division loop returns for every nonzero denominator, with the quotient and the remainder; for zero it throws.
\<close>

theorem uint128_divide_returns:
  "if rep d = 0 then uint128_divide n d = Some (Inl Divide_by_zero_exception)
   else \<exists>q r. uint128_divide n d = Some (Inr (q, r)) \<and> rep q = rep n div rep d \<and> rep r = rep n mod rep d"
  using divide_value [of d n] rep_inject [of d "mk128 0 0"] by (auto simp: uint128_divide_def)

text \<open>
  C37: the two results of the full product are the high and the low half of the 256-bit product.
\<close>

theorem full_product_exact:
  "uint (rep (fst (full_product a b))) * 2 ^ 128 + uint (rep (snd (full_product a b))) = uint (rep a) * uint (rep b)"
  by (rule full_product_value)

text \<open>
  C38: printing always returns, and reading the printed string gives the number back.
\<close>

theorem uint128_string_roundtrip:
  "\<exists>s. string_of_uint128 a = Some (Inr s) \<and> uint128_of_string s = a"
proof (cases "a = mk128 0 0")
  case True
  then show ?thesis by (simp add: string_of_uint128_def uint128_of_string_def parse_prefixed_def)
next
  case False
  then have nz: "rep a \<noteq> 0" using rep_inject [of a "mk128 0 0"] by simp
  have "uint (rep a) < 2 ^ 128" using uint_lt2p [of "rep a"] by simp
  also have "(2 ^ 128 :: int) < 10 ^ 127" by simp
  finally obtain ds where ds: "print_loop 127 a [] = Some (Inr ds)" "list_all (\<lambda>c. digit_value 10 c \<noteq> None) ds"
      "\<And>v. rep (read ds v) = rep v * 10 ^ length ds + rep a" "ds \<noteq> []" "hd ds \<noteq> CHR ''0''" "hd ds \<noteq> CHR ''-''"
    using print_loop_digits [of a 127 "[]"] nz by auto
  have "rep (read ds (mk128 0 0)) = rep a" using ds(3) by simp
  then have "uint128_of_string ds = a"
    using ds(2,4-6) parse_read rep_inject by (auto simp: uint128_of_string_def parse_prefixed_def)
  then show ?thesis using ds(1) False by (simp add: string_of_uint128_def)
qed

text \<open>
  The binary operator \<^verbatim>\<open>|\<close> gives its right operand, whatever the left one is, while the assignment \<^verbatim>\<open>|=\<close> gives the disjunction.
\<close>

lemma uint128_or_drops_left:
  "uint128_or a b = b \<and> uint128_or (mk128 0 1) (mk128 0 2) \<noteq> uint128_or_assign (mk128 0 1) (mk128 0 2)"
  by (simp add: uint128_or_def uint128_or_assign_def)

end
