(* ===== verification/Spec2Isabelle.thy ===== *)
theory Spec2Isabelle
  imports Delegation_State Rewards_State Uint128
begin

text \<open>
  \<^bold>\<open>A verification of the Freezone chain.\<close>

  Freezone is a blockchain node in C++ of the graphene family: accounts hold a native asset, a
  dollar-like asset (SBD), vesting shares and smart tokens, and the operations of signed
  transactions move them.  Every node applies the same operations to the same state, so an operation
  must either be refused or leave the state sound on every node.  The parts modelled here are the
  integers and assets (\<^verbatim>\<open>libraries/fc\<close>, \<^verbatim>\<open>libraries/protocol\<close>), the objects and the balance functions
  of the chain database, and the evaluators that move value or votes (\<^verbatim>\<open>libraries/chain\<close>).

  \<^bold>\<open>How the code is represented.\<close>  A function that may throw returns \<open>'a result\<close>, whose left values are the
  exceptions; \<open>rbind\<close> is sequencing, \<open>fc_assert\<close> is \<^verbatim>\<open>FC_ASSERT\<close>.  A thrown exception undoes the
  whole operation, which is why the state is not part of the left value.  The database is a record of
  tables; a table is the list of its objects in the order of their ids, a reference to an object is its
  key, and reading through the reference is a lookup.  \<^verbatim>\<open>share_type\<close> is \<open>int\<close> with the checks of
  \<^verbatim>\<open>fc::safe\<close> written out; plain \<^verbatim>\<open>int64_t\<close> arithmetic wraps (\<open>i64_wrap\<close>); times, counters, symbols
  and 128-bit intermediate values are words.  Account names are character lists.

  \<^bold>\<open>Theories.\<close>
  \<^item> \<open>Prelude\<close>: the result monad, keyed tables and their sums, a locale for loops that consume the rows
    they visit, and machine integers.
  \<^item> \<open>Safe_Int\<close>: \<^verbatim>\<open>fc/safe.hpp\<close> and \<^verbatim>\<open>fc/saturation.hpp\<close>; exactness of the checked and the saturating
    arithmetic.
  \<^item> \<open>Asset_Symbol\<close>: \<^verbatim>\<open>asset_symbol_type\<close> with its numeric identifiers and their check digit.
  \<^item> \<open>Asset\<close>: \<^verbatim>\<open>asset\<close>, \<^verbatim>\<open>price\<close>, conversion of amounts, tick pricing.
  \<^item> \<open>Objects\<close>, \<open>Database\<close>: the objects of the state, the state, and the accounting function \<open>surplus\<close>:
    what all objects hold of a symbol, minus what the global counters say was issued, the quantity that
    \<^verbatim>\<open>validate_invariants\<close> asks to be zero.
  \<^item> \<open>Balances\<close>: \<^verbatim>\<open>adjust_balance\<close> and its relatives with interest and token balances.  The locales
    \<open>credit\<close>, \<open>movement\<close>, \<open>solvent_credit\<close> and \<open>solvent_movement\<close> are the contract the evaluators rely on;
    every balance function is an interpretation.
  \<^item> \<open>Ledger\<close>: the balances seen as a function from names and symbols to amounts, and the refinement.
  \<^item> \<open>Transfers\<close>: transfers, savings, conversions of SBD.
  \<^item> \<open>Escrow\<close>: the escrow evaluators and the expiry of unratified escrows.
  \<^item> \<open>Market\<close>: the limit order book, matching, and the liquidity reward weights.
  \<^item> \<open>Voting\<close>, \<open>Vote_State\<close>: votes for witnesses, proxies, declined voting rights.
  \<^item> \<open>Manabar\<close>: the regenerating allowance that bounds votes and delegations.

  \<^bold>\<open>What the theorems show.\<close>  Arithmetic is exact or throws.  Every evaluator that succeeds leaves the
  surplus of every symbol as it was (conservation) and, from hardfork 20 on, no balance negative
  (solvency).  The order book keeps price-time priority, no crossing orders survive a match, and a match
  respects the limits of both sides.  An escrow is released only to whom the documented rules
  allow.  Witness counters are always the sum of the weights behind them.

  \<^bold>\<open>Bounds and fuel.\<close>  No definition uses fuel.  Loops over tables are folds over the rows the iterator
  visits; recursion that is not structural (proxies, tick pricing) has a termination proof, the proxy
  walks by the depth limit \<^verbatim>\<open>freezone_MAX_PROXY_RECURSION_DEPTH\<close> of the code.

  \<^bold>\<open>Not modelled.\<close>  The peer-to-peer network, the API plugins, the wallet, the RocksDB backend (\<^verbatim>\<open>mira\<close>), the
  cryptography and compression of \<^verbatim>\<open>fc\<close>, serialization by reflection macros, and logging: they do not
  change the consensus state, or are input and output.  The observers of notifications are not modelled; a virtual
  operation is appended to a list of the state.
\<close>

end
